(* ===== verification/Avx_Prelude.thy ===== *)
theory Avx_Prelude
  imports Main "HOL-Library.Word"
begin

text \<open>
  Shared vocabulary of the development: bytes and little-endian words, byte-addressed
  stores (the thread-local spill area, addressed by offset, and application memory,
  addressed by 64-bit addresses), results that may carry an error, and the lemma
  collections the component theories feed to the simplifier.

  \<^item> \<open>bytes_simps\<close>: reading back bytes and words from stores;
  \<^item> \<open>step_simps\<close>: the equations that execute one emitted instruction;
  \<^item> \<open>slot_simps\<close>: the arithmetic of spill-slot offsets and register numbers.
\<close>

unbundle bit_operations_syntax

named_theorems bytes_simps
named_theorems step_simps
named_theorems slot_simps

type_synonym byte = "8 word"
type_synonym vec = "nat \<Rightarrow> byte"

section \<open>Results that may fail\<close>

fun bindE :: "'e + 'a \<Rightarrow> ('a \<Rightarrow> 'e + 'b) \<Rightarrow> 'e + 'b" where
  "bindE (Inl e) f = Inl e"
| "bindE (Inr x) f = f x"

lemma bindE_Inr_iff: "bindE m f = Inr y \<longleftrightarrow> (\<exists>x. m = Inr x \<and> f x = Inr y)"
  by (cases m) auto

section \<open>Bytes and little-endian words\<close>

definition byte_of :: "'a::len word \<Rightarrow> nat \<Rightarrow> byte" where
  "byte_of w i = ucast (drop_bit (8 * i) w)"

primrec le :: "nat \<Rightarrow> vec \<Rightarrow> 'a::len word" where
  "le 0 f = 0"
| "le (Suc n) f = le n f OR push_bit (8 * n) (ucast (f n))"

lemma bit_byte_of [bit_simps]:
  "bit (byte_of w i) j \<longleftrightarrow> j < 8 \<and> bit w (8 * i + j)" for w :: "'a::len word"
  by (auto simp: byte_of_def bit_simps dest: bit_imp_le_length)

lemma bit_le [bit_simps]:
  "bit (le n f :: 'a::len word) k \<longleftrightarrow>
     k < LENGTH('a) \<and> k < 8 * n \<and> bit (f (k div 8)) (k mod 8)"
proof (induction n)
  case 0
  then show ?case by simp
next
  case (Suc n)
  have split: "k < 8 * Suc n \<longleftrightarrow> k < 8 * n \<or> (8 * n \<le> k \<and> k - 8 * n < 8)" by auto
  show ?case
  proof (cases "8 * n \<le> k \<and> k - 8 * n < 8")
    case True
    then have "k div 8 = n" and "k mod 8 = k - 8 * n" by (auto simp: div_nat_eqI modulo_nat_def)
    with True Suc.IH show ?thesis by (auto simp: bit_simps)
  next
    case False
    then have "\<not> bit (push_bit (8 * n) (ucast (f n)) :: 'a word) k"
      using bit_imp_le_length [of "f n" "k - 8 * n"] by (auto simp: bit_simps)
    with False Suc.IH split show ?thesis by (auto simp: bit_or_iff)
  qed
qed

lemma le_byte_of [bytes_simps]: "le n (byte_of w) = take_bit (8 * n) w" for w :: "'a::len word"
  by (rule bit_word_eqI) (auto simp: bit_simps)

lemma le_cong: "(\<And>i. i < n \<Longrightarrow> f i = g i) \<Longrightarrow> le n f = le n g"
  by (induction n) auto

lemma byte_of_le: "i < n \<Longrightarrow> 8 * n \<le> LENGTH('a) \<Longrightarrow> byte_of (le n f :: 'a::len word) i = f i"
  by (rule bit_word_eqI) (auto simp: bit_simps)

lemma take_bit_le: "8 * n \<le> m \<Longrightarrow> take_bit m (le n f :: 'a::len word) = le n f"
  by (rule bit_word_eqI) (auto simp: bit_simps)

lemma byte_of_take_bit [bytes_simps]:
  "i < n \<Longrightarrow> byte_of (take_bit (8 * n) w) i = byte_of w i" for w :: "'a::len word"
  by (rule bit_word_eqI) (auto simp: bit_simps)

text \<open>Overwriting the low \<open>n\<close> bytes of a word.\<close>

definition set_low :: "nat \<Rightarrow> 'a::len word \<Rightarrow> 'a word \<Rightarrow> 'a word" where
  "set_low n old v = (old AND NOT (mask (8 * n))) OR take_bit (8 * n) v"

lemma bit_set_low [bit_simps]:
  "bit (set_low n old v) k \<longleftrightarrow> (if k < 8 * n then bit v k else bit old k)"
    for v :: "'a::len word"
  by (auto simp: set_low_def bit_simps dest: bit_imp_le_length)

lemma set_low_full: "LENGTH('a) \<le> 8 * n \<Longrightarrow> set_low n old v = v" for v :: "'a::len word"
  by (rule bit_word_eqI) (auto simp: bit_simps)

lemma take_bit_set_low: "take_bit (8 * n) (set_low n old v) = take_bit (8 * n) v"
    for v :: "'a::len word"
  by (rule bit_word_eqI) (auto simp: bit_simps)

lemma set_low_take_bit [bytes_simps]: "set_low n old (take_bit (8 * n) v) = set_low n old v"
    for v :: "'a::len word"
  by (rule bit_word_eqI) (auto simp: bit_simps)

lemma set_low_eq_take_bit_iff:
  "set_low n old v = take_bit (8 * n) v \<longleftrightarrow> drop_bit (8 * n) old = 0" for v :: "'a::len word"
proof
  assume eq: "set_low n old v = take_bit (8 * n) v"
  show "drop_bit (8 * n) old = 0"
  proof (rule bit_word_eqI)
    fix k assume "k < LENGTH('a)"
    have "bit (set_low n old v) (8 * n + k) = bit (take_bit (8 * n) v) (8 * n + k)"
      by (simp only: eq)
    then show "bit (drop_bit (8 * n) old) k = bit 0 k" by (simp add: bit_simps)
  qed
next
  assume z: "drop_bit (8 * n) old = 0"
  show "set_low n old v = take_bit (8 * n) v"
  proof (rule bit_word_eqI)
    fix k assume "k < LENGTH('a)"
    have "\<not> bit (drop_bit (8 * n) old) (k - 8 * n)" by (simp add: z)
    then show "bit (set_low n old v) k = bit (take_bit (8 * n) v) k" by (auto simp: bit_simps)
  qed
qed

section \<open>The spill area: a store addressed by offset\<close>

definition tls_put :: "vec \<Rightarrow> nat \<Rightarrow> nat \<Rightarrow> vec \<Rightarrow> vec" where
  "tls_put m off n f = (\<lambda>a. if off \<le> a \<and> a < off + n then f (a - off) else m a)"

definition tls_get :: "vec \<Rightarrow> nat \<Rightarrow> vec" where
  "tls_get m off = (\<lambda>i. m (off + i))"

lemma tls_get_put_same [bytes_simps]: "i < n \<Longrightarrow> tls_get (tls_put m off n f) off i = f i"
  by (simp add: tls_get_def tls_put_def)

lemma tls_get_put_disj:
  "i < k \<Longrightarrow> off' + k \<le> off \<or> off + n \<le> off' \<Longrightarrow>
     tls_get (tls_put m off n f) off' i = tls_get m off' i"
  by (auto simp: tls_get_def tls_put_def)

lemma le_get_put_same:
  "k \<le> n \<Longrightarrow> le k (tls_get (tls_put m off n f) off) = le k f"
  by (rule le_cong) (simp add: bytes_simps)

lemma le_get_put_disj:
  "off' + k \<le> off \<or> off + n \<le> off' \<Longrightarrow>
     le k (tls_get (tls_put m off n f) off') = le k (tls_get m off')"
  by (rule le_cong) (auto intro: tls_get_put_disj)

text \<open>Storing the low \<open>n\<close> bytes of a word over a wider slot keeps the slot's upper bytes.\<close>

lemma le_get_put_low:
  "n \<le> k \<Longrightarrow> le k (tls_get (tls_put m off n (byte_of w)) off)
     = set_low n (le k (tls_get m off)) (take_bit (8 * k) w)" for w :: "'a::len word"
proof (rule bit_word_eqI)
  fix j assume n: "n \<le> k" and "j < LENGTH('a)"
  have "j div 8 < n \<longleftrightarrow> j < 8 * n" by auto
  then show "bit (le k (tls_get (tls_put m off n (byte_of w)) off) :: 'a word) j
      = bit (set_low n (le k (tls_get m off)) (take_bit (8 * k) w)) j"
    using n \<open>j < LENGTH('a)\<close>
    by (auto simp: bit_simps tls_get_def tls_put_def)
qed

section \<open>Application memory\<close>

definition mem_put :: "(64 word \<Rightarrow> byte) \<Rightarrow> 64 word \<Rightarrow> nat \<Rightarrow> vec \<Rightarrow> (64 word \<Rightarrow> byte)" where
  "mem_put m a n f = (\<lambda>x. if unat (x - a) < n then f (unat (x - a)) else m x)"

definition mem_get :: "(64 word \<Rightarrow> byte) \<Rightarrow> 64 word \<Rightarrow> vec" where
  "mem_get m a = (\<lambda>i. m (a + of_nat i))"

lemma unat_of_nat_small: "i < 2 ^ 64 \<Longrightarrow> unat (of_nat i :: 64 word) = i"
  by (simp add: unat_of_nat take_bit_nat_eq_self)

lemma mem_get_put_same [bytes_simps]:
  "i < n \<Longrightarrow> n \<le> 2 ^ 64 \<Longrightarrow> mem_get (mem_put m a n f) a i = f i"
  by (simp add: mem_get_def mem_put_def unat_of_nat_small)

text \<open>
  \<open>below r n x\<close>: the address \<open>x\<close> is one of the \<open>n\<close> bytes just below \<open>r\<close>. Pushing onto
  the application stack only ever writes such bytes.
\<close>

definition below :: "64 word \<Rightarrow> nat \<Rightarrow> 64 word \<Rightarrow> bool" where
  "below r n x \<longleftrightarrow> unat (r - 1 - x) < n"

lemma below_mono: "below r n x \<Longrightarrow> n \<le> n' \<Longrightarrow> below r n' x"
  by (simp add: below_def)

lemma unat_add_le: "unat (a + b) \<le> unat a + unat b" for a b :: "'a::len word"
  by (simp add: unat_word_ariths)

lemma below_shift: "below (r - 8) n x \<Longrightarrow> below r (n + 8) x"
proof -
  assume b: "below (r - 8) n x"
  define y where "y = r - 8 - 1 - x"
  have "r - 1 - x = y + 8" by (simp add: y_def)
  moreover have "unat (y + 8) \<le> unat y + 8" using unat_add_le [of y 8] by simp
  moreover have "unat y < n" using b by (simp add: below_def y_def)
  ultimately show ?thesis unfolding below_def by (simp only:)
qed

lemma unat_seven_minus: "\<not> unat y < 8 \<Longrightarrow> \<not> unat (7 - y) < 8" for y :: "64 word"
  using unsigned_less [of y, where ?'a = nat] by (simp add: unat_sub_if_size word_size word_le_nat_alt)

lemma put8_below: "\<not> below r 8 x \<Longrightarrow> mem_put m (r - 8) 8 f x = m x"
proof -
  assume nb: "\<not> below r 8 x"
  have "x - (r - 8) = 7 - (r - 1 - x)" by simp
  then have "\<not> unat (x - (r - 8)) < 8"
    using nb unat_seven_minus [of "r - 1 - x"] unfolding below_def by (simp only: simp_thms)
  then show ?thesis by (simp add: mem_put_def)
qed

lemma at_or_above_not_below: "i < 2 ^ 63 \<Longrightarrow> n \<le> 2 ^ 63 \<Longrightarrow> \<not> below r n (r + of_nat i)"
proof -
  assume i: "i < 2 ^ 63" and n: "n \<le> 2 ^ 63"
  have "r - 1 - (r + of_nat i) = 0 - (of_nat (Suc i) :: 64 word)" by simp
  moreover have "unat (of_nat (Suc i) :: 64 word) = Suc i"
    using i by (intro unat_of_nat_small) simp
  then have "unat (0 - (of_nat (Suc i) :: 64 word)) = 2 ^ 64 - Suc i"
    by (simp only: unat_sub_if_size) (simp add: word_size word_le_nat_alt del: of_nat_Suc)
  ultimately show ?thesis using i n by (simp add: below_def)
qed

end
