(* ===== verification/Regs.thy ===== *)
theory Regs
  imports Avx_Prelude
begin

text \<open>
  Register identifiers of the instruction representation (the \<open>DR_REG_\<close> enumeration of
  \<open>core/ir/opnd_api.h\<close>) and the classification and conversion macros of
  \<open>core/arch/rewrite_utils.h\<close>. A \<open>reg_id_t\<close> is an unsigned 16-bit number; the macros
  compute on them in C's \<open>int\<close>, so an index is an \<open>int\<close> and a converted register is
  reduced modulo \<open>2 ^ 16\<close> when it is stored back.
\<close>

type_synonym reg_id = nat

definition to_ushort :: "int \<Rightarrow> nat" where
  "to_ushort x = nat (x mod 65536)"

lemma to_ushort_small [slot_simps]: "0 \<le> x \<Longrightarrow> x < 65536 \<Longrightarrow> to_ushort x = nat x"
  by (simp add: to_ushort_def)

section \<open>The register enumeration\<close>

abbreviation (input) DR_REG_NULL :: reg_id where "DR_REG_NULL \<equiv> 0"
abbreviation (input) DR_REG_RAX :: reg_id where "DR_REG_RAX \<equiv> 1"
abbreviation (input) DR_REG_RCX :: reg_id where "DR_REG_RCX \<equiv> 2"
abbreviation (input) DR_REG_RDX :: reg_id where "DR_REG_RDX \<equiv> 3"
abbreviation (input) DR_REG_RBX :: reg_id where "DR_REG_RBX \<equiv> 4"
abbreviation (input) DR_REG_RSP :: reg_id where "DR_REG_RSP \<equiv> 5"
abbreviation (input) DR_REG_RBP :: reg_id where "DR_REG_RBP \<equiv> 6"
abbreviation (input) DR_REG_RSI :: reg_id where "DR_REG_RSI \<equiv> 7"
abbreviation (input) DR_REG_RDI :: reg_id where "DR_REG_RDI \<equiv> 8"
abbreviation (input) DR_REG_R8 :: reg_id where "DR_REG_R8 \<equiv> 9"
abbreviation (input) DR_REG_R9 :: reg_id where "DR_REG_R9 \<equiv> 10"
abbreviation (input) DR_REG_R10 :: reg_id where "DR_REG_R10 \<equiv> 11"
abbreviation (input) DR_REG_R11 :: reg_id where "DR_REG_R11 \<equiv> 12"
abbreviation (input) DR_REG_R12 :: reg_id where "DR_REG_R12 \<equiv> 13"
abbreviation (input) DR_REG_R13 :: reg_id where "DR_REG_R13 \<equiv> 14"
abbreviation (input) DR_REG_R14 :: reg_id where "DR_REG_R14 \<equiv> 15"
abbreviation (input) DR_REG_R15 :: reg_id where "DR_REG_R15 \<equiv> 16"
abbreviation (input) DR_REG_EAX :: reg_id where "DR_REG_EAX \<equiv> 17"
abbreviation (input) DR_REG_ECX :: reg_id where "DR_REG_ECX \<equiv> 18"
abbreviation (input) DR_REG_EDX :: reg_id where "DR_REG_EDX \<equiv> 19"
abbreviation (input) DR_REG_EBX :: reg_id where "DR_REG_EBX \<equiv> 20"
abbreviation (input) DR_REG_ESP :: reg_id where "DR_REG_ESP \<equiv> 21"
abbreviation (input) DR_REG_EDI :: reg_id where "DR_REG_EDI \<equiv> 24"
abbreviation (input) DR_REG_R8D :: reg_id where "DR_REG_R8D \<equiv> 25"
abbreviation (input) DR_REG_R15D :: reg_id where "DR_REG_R15D \<equiv> 32"
abbreviation (input) DR_REG_AX :: reg_id where "DR_REG_AX \<equiv> 33"
abbreviation (input) DR_REG_CX :: reg_id where "DR_REG_CX \<equiv> 34"
abbreviation (input) DR_REG_DX :: reg_id where "DR_REG_DX \<equiv> 35"
abbreviation (input) DR_REG_BX :: reg_id where "DR_REG_BX \<equiv> 36"
abbreviation (input) DR_REG_SP :: reg_id where "DR_REG_SP \<equiv> 37"
abbreviation (input) DR_REG_DI :: reg_id where "DR_REG_DI \<equiv> 40"
abbreviation (input) DR_REG_R8W :: reg_id where "DR_REG_R8W \<equiv> 41"
abbreviation (input) DR_REG_R15W :: reg_id where "DR_REG_R15W \<equiv> 48"
abbreviation (input) DR_REG_AL :: reg_id where "DR_REG_AL \<equiv> 49"
abbreviation (input) DR_REG_CL :: reg_id where "DR_REG_CL \<equiv> 50"
abbreviation (input) DR_REG_DL :: reg_id where "DR_REG_DL \<equiv> 51"
abbreviation (input) DR_REG_BL :: reg_id where "DR_REG_BL \<equiv> 52"
abbreviation (input) DR_REG_R8L :: reg_id where "DR_REG_R8L \<equiv> 57"
abbreviation (input) DR_REG_R15L :: reg_id where "DR_REG_R15L \<equiv> 64"
abbreviation (input) DR_REG_SPL :: reg_id where "DR_REG_SPL \<equiv> 65"
abbreviation (input) DR_REG_XMM0 :: reg_id where "DR_REG_XMM0 \<equiv> 77"
abbreviation (input) DR_REG_XMM10 :: reg_id where "DR_REG_XMM10 \<equiv> 87"
abbreviation (input) DR_REG_XMM11 :: reg_id where "DR_REG_XMM11 \<equiv> 88"
abbreviation (input) DR_REG_XMM15 :: reg_id where "DR_REG_XMM15 \<equiv> 92"
abbreviation (input) DR_REG_XMM16 :: reg_id where "DR_REG_XMM16 \<equiv> 93"
abbreviation (input) DR_REG_XMM31 :: reg_id where "DR_REG_XMM31 \<equiv> 108"
abbreviation (input) DR_REG_YMM0 :: reg_id where "DR_REG_YMM0 \<equiv> 188"
abbreviation (input) DR_REG_YMM10 :: reg_id where "DR_REG_YMM10 \<equiv> 198"
abbreviation (input) DR_REG_YMM11 :: reg_id where "DR_REG_YMM11 \<equiv> 199"
abbreviation (input) DR_REG_YMM12 :: reg_id where "DR_REG_YMM12 \<equiv> 200"
abbreviation (input) DR_REG_YMM15 :: reg_id where "DR_REG_YMM15 \<equiv> 203"
abbreviation (input) DR_REG_YMM16 :: reg_id where "DR_REG_YMM16 \<equiv> 204"
abbreviation (input) DR_REG_YMM31 :: reg_id where "DR_REG_YMM31 \<equiv> 219"
abbreviation (input) DR_REG_ZMM0 :: reg_id where "DR_REG_ZMM0 \<equiv> 252"
abbreviation (input) DR_REG_ZMM10 :: reg_id where "DR_REG_ZMM10 \<equiv> 262"
abbreviation (input) DR_REG_ZMM15 :: reg_id where "DR_REG_ZMM15 \<equiv> 267"
abbreviation (input) DR_REG_ZMM16 :: reg_id where "DR_REG_ZMM16 \<equiv> 268"
abbreviation (input) DR_REG_ZMM31 :: reg_id where "DR_REG_ZMM31 \<equiv> 283"
abbreviation (input) DR_REG_K0 :: reg_id where "DR_REG_K0 \<equiv> 316"
abbreviation (input) DR_REG_K7 :: reg_id where "DR_REG_K7 \<equiv> 323"

text \<open>
  Which part of which 64-bit register a general-purpose register names: the register's
  number, the first byte, and the number of bytes.
\<close>

definition reg_part :: "reg_id \<Rightarrow> (nat \<times> nat \<times> nat) option" where
  "reg_part r =
     (if DR_REG_RAX \<le> r \<and> r \<le> DR_REG_R15 then Some (r - 1, 0, 8)
      else if DR_REG_EAX \<le> r \<and> r \<le> DR_REG_R15D then Some (r - 17, 0, 4)
      else if DR_REG_AX \<le> r \<and> r \<le> DR_REG_R15W then Some (r - 33, 0, 2)
      else if DR_REG_AL \<le> r \<and> r \<le> DR_REG_BL then Some (r - 49, 0, 1)
      else if 53 \<le> r \<and> r \<le> 56 then Some (r - 53, 1, 1)
      else if DR_REG_R8L \<le> r \<and> r \<le> DR_REG_R15L then Some (r - 57 + 8, 0, 1)
      else if DR_REG_SPL \<le> r \<and> r \<le> 68 then Some (r - 65 + 4, 0, 1)
      else None)"

section \<open>Classification\<close>

definition IS_ZMM_REG :: "reg_id \<Rightarrow> bool" where
  "IS_ZMM_REG r \<longleftrightarrow> DR_REG_ZMM0 \<le> r \<and> r \<le> DR_REG_ZMM31"

definition IS_YMM_REG :: "reg_id \<Rightarrow> bool" where
  "IS_YMM_REG r \<longleftrightarrow> DR_REG_YMM0 \<le> r \<and> r \<le> DR_REG_YMM31"

definition IS_XMM_REG :: "reg_id \<Rightarrow> bool" where
  "IS_XMM_REG r \<longleftrightarrow> DR_REG_XMM0 \<le> r \<and> r \<le> DR_REG_XMM31"

definition IS_MASK_REG :: "reg_id \<Rightarrow> bool" where
  "IS_MASK_REG r \<longleftrightarrow> DR_REG_K0 \<le> r \<and> r \<le> DR_REG_K7"

definition IS_QWORD_GPR :: "reg_id \<Rightarrow> bool" where
  "IS_QWORD_GPR r \<longleftrightarrow> DR_REG_RAX \<le> r \<and> r \<le> DR_REG_R15"

definition IS_DWORD_GPR :: "reg_id \<Rightarrow> bool" where
  "IS_DWORD_GPR r \<longleftrightarrow> DR_REG_EAX \<le> r \<and> r \<le> DR_REG_R15D"

definition IS_WORD_GPR :: "reg_id \<Rightarrow> bool" where
  "IS_WORD_GPR r \<longleftrightarrow> DR_REG_AX \<le> r \<and> r \<le> DR_REG_R15W"

definition NEED_SPILL_XMM :: "reg_id \<Rightarrow> bool" where
  "NEED_SPILL_XMM r \<longleftrightarrow> DR_REG_XMM16 \<le> r \<and> r \<le> DR_REG_XMM31"

definition NEED_SPILL_YMM :: "reg_id \<Rightarrow> bool" where
  "NEED_SPILL_YMM r \<longleftrightarrow> DR_REG_YMM16 \<le> r \<and> r \<le> DR_REG_YMM31"

definition NEED_SPILL_ZMM :: "reg_id \<Rightarrow> bool" where
  "NEED_SPILL_ZMM r \<longleftrightarrow> DR_REG_ZMM16 \<le> r \<and> r \<le> DR_REG_ZMM31"

section \<open>Indices and conversions\<close>

definition TO_ZMM_REG_INDEX :: "reg_id \<Rightarrow> int" where
  "TO_ZMM_REG_INDEX r = int r - int DR_REG_ZMM0"

definition TO_YMM_REG_INDEX :: "reg_id \<Rightarrow> int" where
  "TO_YMM_REG_INDEX r = int r - int DR_REG_YMM0"

definition TO_XMM_REG_INDEX :: "reg_id \<Rightarrow> int" where
  "TO_XMM_REG_INDEX r = int r - int DR_REG_XMM0"

definition TO_K_REG_INDEX :: "reg_id \<Rightarrow> int" where
  "TO_K_REG_INDEX r = int r - int DR_REG_K0"

definition ZMM_TO_YMM :: "reg_id \<Rightarrow> reg_id" where
  "ZMM_TO_YMM r = to_ushort ((int r - int DR_REG_ZMM0) + int DR_REG_YMM0)"

definition GPR_QWORD_TO_DWORD :: "reg_id \<Rightarrow> reg_id" where
  "GPR_QWORD_TO_DWORD r = to_ushort (int r - int DR_REG_RAX + int DR_REG_EAX)"

definition GPR_QWORD_TO_WORD :: "reg_id \<Rightarrow> reg_id" where
  "GPR_QWORD_TO_WORD r = to_ushort (int r - int DR_REG_RAX + int DR_REG_AX)"

definition GPR_DWORD_TO_WORD :: "reg_id \<Rightarrow> reg_id" where
  "GPR_DWORD_TO_WORD r = to_ushort (int r - int DR_REG_EAX + int DR_REG_AX)"

definition GPR_QWORD_TO_BYTE :: "reg_id \<Rightarrow> reg_id" where
  "GPR_QWORD_TO_BYTE r =
     (if DR_REG_RAX \<le> r \<and> r \<le> DR_REG_RBX then to_ushort (int r - int DR_REG_RAX + int DR_REG_AL)
      else if DR_REG_RSP \<le> r \<and> r \<le> DR_REG_RDI then to_ushort (int r - int DR_REG_RSP + int DR_REG_SPL)
      else if DR_REG_R8 \<le> r \<and> r \<le> DR_REG_R15 then to_ushort (int r - int DR_REG_R8 + int DR_REG_R8L)
      else DR_REG_NULL)"

definition GPR_DWORD_TO_BYTE :: "reg_id \<Rightarrow> reg_id" where
  "GPR_DWORD_TO_BYTE r =
     (if DR_REG_EAX \<le> r \<and> r \<le> DR_REG_EBX then to_ushort (int r - int DR_REG_EAX + int DR_REG_AL)
      else if DR_REG_ESP \<le> r \<and> r \<le> DR_REG_EDI then to_ushort (int r - int DR_REG_ESP + int DR_REG_SPL)
      else if DR_REG_R8D \<le> r \<and> r \<le> DR_REG_R15D then to_ushort (int r - int DR_REG_R8D + int DR_REG_R8L)
      else DR_REG_NULL)"

definition GPR_WORD_TO_BYTE :: "reg_id \<Rightarrow> reg_id" where
  "GPR_WORD_TO_BYTE r =
     (if DR_REG_AX \<le> r \<and> r \<le> DR_REG_BX then to_ushort (int r - int DR_REG_AX + int DR_REG_AL)
      else if DR_REG_SP \<le> r \<and> r \<le> DR_REG_DI then to_ushort (int r - int DR_REG_SP + int DR_REG_SPL)
      else if DR_REG_R8W \<le> r \<and> r \<le> DR_REG_R15W then to_ushort (int r - int DR_REG_R8W + int DR_REG_R8L)
      else DR_REG_NULL)"

lemmas reg_class_defs =
  IS_ZMM_REG_def IS_YMM_REG_def IS_XMM_REG_def IS_MASK_REG_def IS_QWORD_GPR_def IS_DWORD_GPR_def
  IS_WORD_GPR_def NEED_SPILL_XMM_def NEED_SPILL_YMM_def NEED_SPILL_ZMM_def

lemmas reg_conv_defs =
  TO_ZMM_REG_INDEX_def TO_YMM_REG_INDEX_def TO_XMM_REG_INDEX_def TO_K_REG_INDEX_def ZMM_TO_YMM_def
  GPR_QWORD_TO_DWORD_def GPR_QWORD_TO_WORD_def GPR_DWORD_TO_WORD_def GPR_QWORD_TO_BYTE_def
  GPR_DWORD_TO_BYTE_def GPR_WORD_TO_BYTE_def to_ushort_def

lemma IS_MASK_REG_cases: "IS_MASK_REG r \<Longrightarrow> \<exists>k<8. r = DR_REG_K0 + k"
  unfolding IS_MASK_REG_def by presburger

end
