(* ===== verification/Ir.thy ===== *)
theory Ir
  imports Regs
begin

text \<open>
  The instruction representation the rewriter builds: operands, opcodes, instructions with
  their destination and source operands in the order of the \<open>INSTR_CREATE_\<close> macros
  (\<open>core/ir/x86/instr_create_api.h\<close>), the layout of the spill area \<open>spill_state_t\<close>
  (\<open>core/arch/arch_exports.h\<close>) and the constructors of loads and stores to it
  (\<open>core/ir/instr_shared.c\<close>), and the part of the encoder's operand checks
  (\<open>core/ir/x86/encode.c\<close>) that the emitted instructions are subject to.
\<close>

section \<open>Operands and instructions\<close>

text \<open>
  \<open>OTls off sz\<close> is a reference through the TLS segment with no base register;
  \<open>OMem base index scale disp sz\<close> is an ordinary memory reference. Sizes are in bytes.
  \<open>OInstr l\<close> refers to the label with number \<open>l\<close>, which stands for its address.
  \<open>OP_AVX512 n\<close> is the \<open>n\<close>-th opcode from \<open>OP_vmovss\<close> on, counted from 1 as the table of
  rewrite functions counts them.
\<close>

datatype opnd =
    OReg reg_id
  | OImm int nat
  | OTls nat nat
  | OMem reg_id reg_id nat int nat
  | OInstr nat

datatype opcode =
    OP_push | OP_pop | OP_pushf | OP_popf | OP_mov_ld | OP_mov_st | OP_mov_imm | OP_movzx
  | OP_and | OP_or | OP_xor | OP_add | OP_sub | OP_not | OP_shl | OP_shr | OP_test | OP_cmp
  | OP_clc | OP_stc | OP_jz | OP_jmp | OP_LABEL | OP_nop
  | OP_vmovdqu | OP_vmovdqa | OP_vpaddb | OP_vpaddw | OP_vpaddd | OP_vpaddq
  | OP_vpsubb | OP_vpsubw | OP_vpsubd | OP_vpsubq | OP_vpand | OP_vpor | OP_vpxor
  | OP_vunpcklps | OP_vunpckhps | OP_vunpcklpd | OP_vunpckhpd | OP_vmovss | OP_vmovsd | OP_vpsllq
  | OP_vmovaps | OP_vmovapd | OP_vmovups | OP_vmovupd | OP_vmovsldup | OP_vmovshdup | OP_vmovddup
  | OP_vmovlps | OP_vmovlpd | OP_vmovhps | OP_vmovhpd | OP_vmovntps | OP_vmovntpd
  | OP_AVX512 nat

datatype instr = Instr (opcode_of: opcode) (dsts: "opnd list") (srcs: "opnd list")

text \<open>
  Operand access. Reading past the last operand dereferences an operand array that was never
  allocated, and asking a non-register operand for its register is a failed assertion: both
  are \<open>None\<close>.
\<close>

definition instr_get_src :: "instr \<Rightarrow> nat \<Rightarrow> opnd option" where
  "instr_get_src i n = (if n < length (srcs i) then Some (srcs i ! n) else None)"

definition instr_get_dst :: "instr \<Rightarrow> nat \<Rightarrow> opnd option" where
  "instr_get_dst i n = (if n < length (dsts i) then Some (dsts i ! n) else None)"

fun opnd_get_reg :: "opnd \<Rightarrow> reg_id option" where
  "opnd_get_reg (OReg r) = Some r"
| "opnd_get_reg _ = None"

fun opnd_get_immed_int :: "opnd \<Rightarrow> int option" where
  "opnd_get_immed_int (OImm v _) = Some v"
| "opnd_get_immed_int _ = None"

definition src_reg :: "instr \<Rightarrow> nat \<Rightarrow> reg_id option" where
  "src_reg i n = Option.bind (instr_get_src i n) opnd_get_reg"

definition dst_reg :: "instr \<Rightarrow> nat \<Rightarrow> reg_id option" where
  "dst_reg i n = Option.bind (instr_get_dst i n) opnd_get_reg"

text \<open>The parts of a memory operand; asking another operand for them is an error.\<close>

fun opnd_get_base :: "opnd \<Rightarrow> reg_id option" where
  "opnd_get_base (OMem base index scale disp sz) = Some base"
| "opnd_get_base _ = None"

fun opnd_get_index :: "opnd \<Rightarrow> reg_id option" where
  "opnd_get_index (OMem base index scale disp sz) = Some index"
| "opnd_get_index _ = None"

fun opnd_get_scale :: "opnd \<Rightarrow> nat option" where
  "opnd_get_scale (OMem base index scale disp sz) = Some scale"
| "opnd_get_scale _ = None"

fun opnd_get_disp :: "opnd \<Rightarrow> int option" where
  "opnd_get_disp (OMem base index scale disp sz) = Some disp"
| "opnd_get_disp _ = None"

definition opnd_create_base_disp :: "reg_id \<Rightarrow> reg_id \<Rightarrow> nat \<Rightarrow> int \<Rightarrow> nat \<Rightarrow> opnd" where
  "opnd_create_base_disp base index scale disp sz = OMem base index scale disp sz"

section \<open>Immediates\<close>

definition opnd_create_immed_int :: "int \<Rightarrow> nat \<Rightarrow> opnd" where
  "opnd_create_immed_int v sz = OImm (signed_take_bit 63 v) sz"

definition OPND_CREATE_INT8 :: "int \<Rightarrow> opnd" where
  "OPND_CREATE_INT8 v = opnd_create_immed_int v 1"

definition OPND_CREATE_INT16 :: "int \<Rightarrow> opnd" where
  "OPND_CREATE_INT16 v = opnd_create_immed_int v 2"

definition OPND_CREATE_INT32 :: "int \<Rightarrow> opnd" where
  "OPND_CREATE_INT32 v = opnd_create_immed_int v 4"

definition OPND_CREATE_INT64 :: "int \<Rightarrow> opnd" where
  "OPND_CREATE_INT64 v = opnd_create_immed_int v 8"

definition OPND_CREATE_MEM8 :: "reg_id \<Rightarrow> int \<Rightarrow> opnd" where
  "OPND_CREATE_MEM8 base disp = OMem base DR_REG_NULL 0 disp 1"

definition OPND_CREATE_MEM16 :: "reg_id \<Rightarrow> int \<Rightarrow> opnd" where
  "OPND_CREATE_MEM16 base disp = OMem base DR_REG_NULL 0 disp 2"

definition OPND_CREATE_MEM32 :: "reg_id \<Rightarrow> int \<Rightarrow> opnd" where
  "OPND_CREATE_MEM32 base disp = OMem base DR_REG_NULL 0 disp 4"

definition OPND_CREATE_MEM64 :: "reg_id \<Rightarrow> int \<Rightarrow> opnd" where
  "OPND_CREATE_MEM64 base disp = OMem base DR_REG_NULL 0 disp 8"

section \<open>The spill area\<close>

text \<open>
  \<open>spill_state_t\<close>: four general-purpose slots, then the eight opmask slots, then the 32
  \<open>zmm\<close> slots aligned to 64 bytes. Slot numbers are converted to \<open>ushort\<close>.
\<close>

definition align_up :: "nat \<Rightarrow> nat \<Rightarrow> nat" where
  "align_up x a = (x + a - 1) div a * a"

definition offsetof_k_regs :: nat where
  "offsetof_k_regs = align_up (4 * 8) 8"

definition offsetof_zmm_regs :: nat where
  "offsetof_zmm_regs = align_up (offsetof_k_regs + 8 * 8) 64"

definition TLS_REG0_SLOT :: nat where "TLS_REG0_SLOT = 0"

definition TLS_REG1_SLOT :: nat where "TLS_REG1_SLOT = 8"

definition TLS_REG2_SLOT :: nat where "TLS_REG2_SLOT = 16"

definition TLS_REG3_SLOT :: nat where "TLS_REG3_SLOT = 24"

definition TLS_K_idx_SLOT :: "int \<Rightarrow> nat" where
  "TLS_K_idx_SLOT k = to_ushort (int offsetof_k_regs + 8 * k)"

definition TLS_ZMM_idx_SLOT :: "int \<Rightarrow> nat" where
  "TLS_ZMM_idx_SLOT z = to_ushort (int offsetof_zmm_regs + 64 * z)"

lemma offsets [slot_simps]: "offsetof_k_regs = 32" "offsetof_zmm_regs = 128"
  by (simp_all add: offsetof_k_regs_def offsetof_zmm_regs_def align_up_def)

lemmas reg_slot_defs [slot_simps] =
  TLS_REG0_SLOT_def TLS_REG1_SLOT_def TLS_REG2_SLOT_def TLS_REG3_SLOT_def

definition os_tls_offset :: "nat \<Rightarrow> nat" where
  "os_tls_offset off = off"

definition opnd_create_sized_tls_slot :: "nat \<Rightarrow> nat \<Rightarrow> opnd" where
  "opnd_create_sized_tls_slot off sz = OTls off sz"

definition opnd_create_tls_slot :: "nat \<Rightarrow> opnd" where
  "opnd_create_tls_slot off = opnd_create_sized_tls_slot off 8"

section \<open>Instruction constructors\<close>

definition INSTR_CREATE_push :: "opnd \<Rightarrow> instr" where
  "INSTR_CREATE_push s =
     Instr OP_push [OReg DR_REG_RSP, OMem DR_REG_RSP DR_REG_NULL 0 (- 8) 8] [s, OReg DR_REG_RSP]"

definition INSTR_CREATE_pop :: "opnd \<Rightarrow> instr" where
  "INSTR_CREATE_pop d =
     Instr OP_pop [d, OReg DR_REG_RSP] [OReg DR_REG_RSP, OMem DR_REG_RSP DR_REG_NULL 0 0 8]"

definition INSTR_CREATE_pushf :: instr where
  "INSTR_CREATE_pushf =
     Instr OP_pushf [OReg DR_REG_RSP, OMem DR_REG_RSP DR_REG_NULL 0 (- 8) 8] [OReg DR_REG_RSP]"

definition INSTR_CREATE_popf :: instr where
  "INSTR_CREATE_popf =
     Instr OP_popf [OReg DR_REG_RSP] [OReg DR_REG_RSP, OMem DR_REG_RSP DR_REG_NULL 0 0 8]"

definition INSTR_CREATE_mov_ld :: "opnd \<Rightarrow> opnd \<Rightarrow> instr" where
  "INSTR_CREATE_mov_ld d s = Instr OP_mov_ld [d] [s]"

definition INSTR_CREATE_mov_st :: "opnd \<Rightarrow> opnd \<Rightarrow> instr" where
  "INSTR_CREATE_mov_st d s = Instr OP_mov_st [d] [s]"

definition INSTR_CREATE_mov_imm :: "opnd \<Rightarrow> opnd \<Rightarrow> instr" where
  "INSTR_CREATE_mov_imm d s = Instr OP_mov_imm [d] [s]"

definition INSTR_CREATE_movzx :: "opnd \<Rightarrow> opnd \<Rightarrow> instr" where
  "INSTR_CREATE_movzx d s = Instr OP_movzx [d] [s]"

definition INSTR_CREATE_and :: "opnd \<Rightarrow> opnd \<Rightarrow> instr" where
  "INSTR_CREATE_and d s = Instr OP_and [d] [s, d]"

definition INSTR_CREATE_or :: "opnd \<Rightarrow> opnd \<Rightarrow> instr" where
  "INSTR_CREATE_or d s = Instr OP_or [d] [s, d]"

definition INSTR_CREATE_xor :: "opnd \<Rightarrow> opnd \<Rightarrow> instr" where
  "INSTR_CREATE_xor d s = Instr OP_xor [d] [s, d]"

definition INSTR_CREATE_add :: "opnd \<Rightarrow> opnd \<Rightarrow> instr" where
  "INSTR_CREATE_add d s = Instr OP_add [d] [s, d]"

definition INSTR_CREATE_not :: "opnd \<Rightarrow> instr" where
  "INSTR_CREATE_not d = Instr OP_not [d] [d]"

definition INSTR_CREATE_shl :: "opnd \<Rightarrow> opnd \<Rightarrow> instr" where
  "INSTR_CREATE_shl d ri = Instr OP_shl [d] [ri, d]"

definition INSTR_CREATE_shr :: "opnd \<Rightarrow> opnd \<Rightarrow> instr" where
  "INSTR_CREATE_shr d ri = Instr OP_shr [d] [ri, d]"

definition INSTR_CREATE_test :: "opnd \<Rightarrow> opnd \<Rightarrow> instr" where
  "INSTR_CREATE_test s1 s2 = Instr OP_test [] [s1, s2]"

definition INSTR_CREATE_cmp :: "opnd \<Rightarrow> opnd \<Rightarrow> instr" where
  "INSTR_CREATE_cmp s1 s2 = Instr OP_cmp [] [s1, s2]"

definition INSTR_CREATE_clc :: instr where
  "INSTR_CREATE_clc = Instr OP_clc [] []"

definition INSTR_CREATE_stc :: instr where
  "INSTR_CREATE_stc = Instr OP_stc [] []"

definition INSTR_CREATE_jcc :: "opcode \<Rightarrow> opnd \<Rightarrow> instr" where
  "INSTR_CREATE_jcc opc t = Instr opc [] [t]"

definition INSTR_CREATE_jmp :: "opnd \<Rightarrow> instr" where
  "INSTR_CREATE_jmp t = Instr OP_jmp [] [t]"

text \<open>A label is identified by its address in the code; the model gives it a number.\<close>

definition INSTR_CREATE_label :: "nat \<Rightarrow> instr" where
  "INSTR_CREATE_label l = Instr OP_LABEL [] [OInstr l]"

definition SAVE_TO_SIZED_TLS :: "reg_id \<Rightarrow> nat \<Rightarrow> nat \<Rightarrow> instr" where
  "SAVE_TO_SIZED_TLS r off sz =
     INSTR_CREATE_mov_st (opnd_create_sized_tls_slot (os_tls_offset off) sz) (OReg r)"

definition RESTORE_FROM_SIZED_TLS :: "reg_id \<Rightarrow> nat \<Rightarrow> nat \<Rightarrow> instr" where
  "RESTORE_FROM_SIZED_TLS r off sz =
     INSTR_CREATE_mov_ld (OReg r) (opnd_create_sized_tls_slot (os_tls_offset off) sz)"

definition SAVE_TO_TLS :: "reg_id \<Rightarrow> nat \<Rightarrow> instr" where
  "SAVE_TO_TLS r off = INSTR_CREATE_mov_st (opnd_create_tls_slot (os_tls_offset off)) (OReg r)"

definition RESTORE_FROM_TLS :: "reg_id \<Rightarrow> nat \<Rightarrow> instr" where
  "RESTORE_FROM_TLS r off = INSTR_CREATE_mov_ld (OReg r) (opnd_create_tls_slot (os_tls_offset off))"

definition SAVE_SIMD_TO_SIZED_TLS :: "reg_id \<Rightarrow> nat \<Rightarrow> nat \<Rightarrow> instr" where
  "SAVE_SIMD_TO_SIZED_TLS r off sz =
     Instr OP_vmovdqu [opnd_create_sized_tls_slot (os_tls_offset off) sz] [OReg r]"

definition RESTORE_SIMD_FROM_SIZED_TLS :: "reg_id \<Rightarrow> nat \<Rightarrow> nat \<Rightarrow> instr" where
  "RESTORE_SIMD_FROM_SIZED_TLS r off sz =
     Instr OP_vmovdqu [OReg r] [opnd_create_sized_tls_slot (os_tls_offset off) sz]"

definition instr_create_1dst_1src :: "opcode \<Rightarrow> opnd \<Rightarrow> opnd \<Rightarrow> instr" where
  "instr_create_1dst_1src opc d s = Instr opc [d] [s]"

definition INSTR_CREATE_vmovaps :: "opnd \<Rightarrow> opnd \<Rightarrow> instr" where
  "INSTR_CREATE_vmovaps d s = instr_create_1dst_1src OP_vmovaps d s"

definition INSTR_CREATE_vmovdqu :: "opnd \<Rightarrow> opnd \<Rightarrow> instr" where
  "INSTR_CREATE_vmovdqu d s = instr_create_1dst_1src OP_vmovdqu d s"

lemmas move_create_defs = instr_create_1dst_1src_def INSTR_CREATE_vmovaps_def INSTR_CREATE_vmovdqu_def

lemmas create_defs =
  INSTR_CREATE_push_def INSTR_CREATE_pop_def INSTR_CREATE_pushf_def INSTR_CREATE_popf_def
  INSTR_CREATE_mov_ld_def INSTR_CREATE_mov_st_def INSTR_CREATE_mov_imm_def INSTR_CREATE_movzx_def
  INSTR_CREATE_and_def INSTR_CREATE_or_def INSTR_CREATE_xor_def INSTR_CREATE_add_def
  INSTR_CREATE_not_def INSTR_CREATE_shl_def INSTR_CREATE_shr_def INSTR_CREATE_test_def
  INSTR_CREATE_cmp_def INSTR_CREATE_clc_def INSTR_CREATE_stc_def INSTR_CREATE_jcc_def
  INSTR_CREATE_jmp_def INSTR_CREATE_label_def SAVE_TO_SIZED_TLS_def RESTORE_FROM_SIZED_TLS_def
  SAVE_TO_TLS_def RESTORE_FROM_TLS_def SAVE_SIMD_TO_SIZED_TLS_def RESTORE_SIMD_FROM_SIZED_TLS_def
  opnd_create_sized_tls_slot_def opnd_create_tls_slot_def os_tls_offset_def

lemmas immed_defs =
  opnd_create_immed_int_def OPND_CREATE_INT8_def OPND_CREATE_INT16_def OPND_CREATE_INT32_def
  OPND_CREATE_INT64_def OPND_CREATE_MEM8_def OPND_CREATE_MEM16_def OPND_CREATE_MEM32_def
  OPND_CREATE_MEM64_def

section \<open>Operand checks of the encoder\<close>

text \<open>
  \<open>immed_size_ok\<close> of the encoder: an immediate must fit its size as a \<^emph>\<open>signed\<close> number.
\<close>

definition immed_size_ok :: "int \<Rightarrow> nat \<Rightarrow> bool" where
  "immed_size_ok v sz =
     (if sz = 1 then - 128 \<le> v \<and> v \<le> 127
      else if sz = 2 then - 32768 \<le> v \<and> v \<le> 32767
      else if sz = 4 then - 2147483648 \<le> v \<and> v \<le> 2147483647
      else sz = 8)"

text \<open>The size of a general-purpose register or of a memory operand; 0 for other operands.\<close>

definition gpr_size :: "reg_id \<Rightarrow> nat" where
  "gpr_size r = (case reg_part r of None \<Rightarrow> 0 | Some (_, _, sz) \<Rightarrow> sz)"

fun opnd_size :: "opnd \<Rightarrow> nat" where
  "opnd_size (OReg r) = gpr_size r"
| "opnd_size (OTls _ sz) = sz"
| "opnd_size (OMem _ _ _ _ sz) = sz"
| "opnd_size (OImm _ sz) = sz"
| "opnd_size (OInstr _) = 0"

fun is_imm :: "opnd \<Rightarrow> bool" where
  "is_imm (OImm _ _) = True"
| "is_imm _ = False"

fun is_reg :: "opnd \<Rightarrow> bool" where
  "is_reg (OReg _) = True"
| "is_reg _ = False"

definition gp_size :: "nat \<Rightarrow> bool" where
  "gp_size n \<longleftrightarrow> n = 1 \<or> n = 2 \<or> n = 4 \<or> n = 8"

text \<open>
  The source of a two-operand arithmetic instruction whose destination has \<open>n\<close> bytes: an
  operand of the same size (not two memory operands), a sign-extended byte, or an immediate
  of the destination's size, at most four bytes (operand types \<open>Ib\<close> and \<open>Iz\<close>).
\<close>

fun alu_src_ok :: "nat \<Rightarrow> bool \<Rightarrow> opnd \<Rightarrow> bool" where
  "alu_src_ok n dst_is_reg (OImm v sz) =
     (immed_size_ok v sz \<and> (sz = 1 \<or> (n \<noteq> 1 \<and> sz = min n 4)))"
| "alu_src_ok n dst_is_reg (OReg r) = (gpr_size r = n)"
| "alu_src_ok n dst_is_reg (OTls _ sz) = (dst_is_reg \<and> sz = n)"
| "alu_src_ok n dst_is_reg (OMem _ _ _ _ sz) = (dst_is_reg \<and> sz = n)"
| "alu_src_ok n dst_is_reg (OInstr _) = False"

definition rm_ok :: "opnd \<Rightarrow> bool" where
  "rm_ok d \<longleftrightarrow> \<not> is_imm d \<and> gp_size (opnd_size d)"

text \<open>
  \<open>vmovlps\<close>, \<open>vmovlpd\<close>, \<open>vmovhps\<close>, \<open>vmovhpd\<close>, \<open>vmovntps\<close> and \<open>vmovntpd\<close> have no form with one register as
  source and one as destination, which is the only one that is emitted.
\<close>

fun encodable :: "instr \<Rightarrow> bool" where
  "encodable (Instr opc ds ss) =
     (case opc of
        OP_push \<Rightarrow> is_reg (ss ! 0) \<and> opnd_size (ss ! 0) = 8
      | OP_pop \<Rightarrow> is_reg (ds ! 0) \<and> opnd_size (ds ! 0) = 8
      | OP_mov_ld \<Rightarrow> is_reg (ds ! 0) \<and> rm_ok (ds ! 0) \<and> rm_ok (ss ! 0)
                       \<and> opnd_size (ss ! 0) = opnd_size (ds ! 0)
      | OP_mov_st \<Rightarrow> is_reg (ss ! 0) \<and> rm_ok (ss ! 0) \<and> rm_ok (ds ! 0)
                       \<and> opnd_size (ss ! 0) = opnd_size (ds ! 0)
      | OP_mov_imm \<Rightarrow> (case (ds ! 0, ss ! 0) of
            (OReg r, OImm v sz) \<Rightarrow> gp_size (gpr_size r) \<and> sz = gpr_size r \<and> immed_size_ok v sz
          | _ \<Rightarrow> False)
      | OP_movzx \<Rightarrow> is_reg (ds ! 0) \<and> rm_ok (ds ! 0) \<and> rm_ok (ss ! 0)
                       \<and> opnd_size (ss ! 0) \<le> 2 \<and> opnd_size (ss ! 0) < opnd_size (ds ! 0)
      | OP_not \<Rightarrow> rm_ok (ds ! 0)
      | OP_shl \<Rightarrow> rm_ok (ds ! 0) \<and> (case ss ! 0 of OImm v sz \<Rightarrow> sz = 1 \<and> immed_size_ok v 1 | _ \<Rightarrow> False)
      | OP_shr \<Rightarrow> rm_ok (ds ! 0) \<and> (case ss ! 0 of OImm v sz \<Rightarrow> sz = 1 \<and> immed_size_ok v 1 | _ \<Rightarrow> False)
      | OP_and \<Rightarrow> rm_ok (ds ! 0) \<and> alu_src_ok (opnd_size (ds ! 0)) (is_reg (ds ! 0)) (ss ! 0)
      | OP_or \<Rightarrow> rm_ok (ds ! 0) \<and> alu_src_ok (opnd_size (ds ! 0)) (is_reg (ds ! 0)) (ss ! 0)
      | OP_xor \<Rightarrow> rm_ok (ds ! 0) \<and> alu_src_ok (opnd_size (ds ! 0)) (is_reg (ds ! 0)) (ss ! 0)
      | OP_add \<Rightarrow> rm_ok (ds ! 0) \<and> alu_src_ok (opnd_size (ds ! 0)) (is_reg (ds ! 0)) (ss ! 0)
      | OP_sub \<Rightarrow> rm_ok (ds ! 0) \<and> alu_src_ok (opnd_size (ds ! 0)) (is_reg (ds ! 0)) (ss ! 0)
      | OP_cmp \<Rightarrow> rm_ok (ss ! 0) \<and> alu_src_ok (opnd_size (ss ! 0)) (is_reg (ss ! 0)) (ss ! 1)
      | OP_test \<Rightarrow> rm_ok (ss ! 0) \<and> is_reg (ss ! 1) \<and> opnd_size (ss ! 1) = opnd_size (ss ! 0)
      | OP_vmovlps \<Rightarrow> False | OP_vmovlpd \<Rightarrow> False | OP_vmovhps \<Rightarrow> False | OP_vmovhpd \<Rightarrow> False
      | OP_vmovntps \<Rightarrow> False | OP_vmovntpd \<Rightarrow> False
      | _ \<Rightarrow> True)"

end
