(* ===== verification/Machine.thy ===== *)
theory Machine
  imports Ir
begin

text \<open>
  The processor the rewritten code runs on: an x86-64 machine with AVX2 and without AVX-512.
  It gives a meaning to the instructions the rewriter emits, so that an emitted sequence can
  be executed and compared with the AVX-512 instruction it replaces. A state holds the
  general-purpose registers, the arithmetic flags, the sixteen 256-bit registers, the
  spill area reached through the TLS segment and the application's memory.

  Execution may trap: an instruction with no encoding, an AVX-512 instruction or register
  (\<open>#UD\<close> on this processor), a misaligned access (\<open>#GP\<close>), an access to an unmapped page, a jump to a label that is not
  ahead in the list. The spill area is always accessible.
\<close>

section \<open>State\<close>

record eflags =
  CF :: bool
  PF :: bool
  AF :: bool
  ZF :: bool
  SF :: bool
  OF :: bool

text \<open>
  \<open>undef_bit\<close> is the value the processor gives a flag that the manual leaves undefined.
\<close>

record mstate =
  gpr :: "nat \<Rightarrow> 64 word"
  flg :: eflags
  ymm :: "nat \<Rightarrow> vec"
  tls :: vec
  mem :: "64 word \<Rightarrow> byte"
  mapped :: "64 word \<Rightarrow> bool"
  undef_bit :: bool

datatype fault = Unencodable | UD | GP | PageFault | NoLabel

datatype flow = Next mstate | Jump nat mstate | Trap fault

fun flow_of :: "fault + mstate \<Rightarrow> flow" where
  "flow_of (Inl f) = Trap f"
| "flow_of (Inr s) = Next s"

section \<open>Registers and operands\<close>

definition gpr_read :: "mstate \<Rightarrow> reg_id \<Rightarrow> 64 word" where
  "gpr_read s r = (case reg_part r of None \<Rightarrow> 0
     | Some (n, b, sz) \<Rightarrow> take_bit (8 * sz) (drop_bit (8 * b) (gpr s n)))"

text \<open>
  Writing four bytes clears the upper half of the register; writing one or two keeps it.
\<close>

definition put_part :: "nat \<Rightarrow> nat \<Rightarrow> 64 word \<Rightarrow> 64 word \<Rightarrow> 64 word" where
  "put_part b sz old v =
     (if sz = 8 then v
      else if sz = 4 then take_bit 32 v
      else if b = 0 then set_low sz old v
      else (old AND NOT (push_bit 8 (mask 8))) OR push_bit 8 (take_bit 8 v))"

definition gpr_write :: "mstate \<Rightarrow> reg_id \<Rightarrow> 64 word \<Rightarrow> mstate" where
  "gpr_write s r v = (case reg_part r of None \<Rightarrow> s
     | Some (n, b, sz) \<Rightarrow> s\<lparr>gpr := (gpr s)(n := put_part b sz (gpr s n) v)\<rparr>)"

definition ea :: "mstate \<Rightarrow> reg_id \<Rightarrow> reg_id \<Rightarrow> nat \<Rightarrow> int \<Rightarrow> 64 word" where
  "ea s base index scale disp =
     gpr_read s base + gpr_read s index * of_nat scale + word_of_int disp"

definition mapped_range :: "mstate \<Rightarrow> 64 word \<Rightarrow> nat \<Rightarrow> bool" where
  "mapped_range s a n = list_all (\<lambda>i. mapped s (a + of_nat i)) [0..<n]"

text \<open>Reading and writing an operand of an instruction that works on \<open>n\<close> bytes.\<close>

fun read_opnd :: "mstate \<Rightarrow> nat \<Rightarrow> opnd \<Rightarrow> fault + 64 word" where
  "read_opnd s n (OReg r) = Inr (gpr_read s r)"
| "read_opnd s n (OImm v sz) = Inr (take_bit (8 * n) (word_of_int v))"
| "read_opnd s n (OTls off sz) = Inr (le sz (tls_get (tls s) off))"
| "read_opnd s n (OMem b i sc d sz) =
     (let a = ea s b i sc d in
      if mapped_range s a sz then Inr (le sz (mem_get (mem s) a)) else Inl PageFault)"
| "read_opnd s n (OInstr l) = Inl Unencodable"

fun write_opnd :: "mstate \<Rightarrow> opnd \<Rightarrow> 64 word \<Rightarrow> fault + mstate" where
  "write_opnd s (OReg r) v = Inr (gpr_write s r v)"
| "write_opnd s (OTls off sz) v = Inr (s\<lparr>tls := tls_put (tls s) off sz (byte_of v)\<rparr>)"
| "write_opnd s (OMem b i sc d sz) v =
     (let a = ea s b i sc d in
      if mapped_range s a sz then Inr (s\<lparr>mem := mem_put (mem s) a sz (byte_of v)\<rparr>)
      else Inl PageFault)"
| "write_opnd s (OImm v' sz) v = Inl Unencodable"
| "write_opnd s (OInstr l) v = Inl Unencodable"

section \<open>Arithmetic and flags\<close>

definition top_bit :: "nat \<Rightarrow> 64 word \<Rightarrow> bool" where
  "top_bit n w = bit w (8 * n - 1)"

definition parity :: "64 word \<Rightarrow> bool" where
  "parity w = even (length (filter (bit w) [0..<8]))"

definition logic_flags :: "bool \<Rightarrow> nat \<Rightarrow> 64 word \<Rightarrow> eflags" where
  "logic_flags u n r =
     \<lparr>CF = False, PF = parity r, AF = u, ZF = (r = 0), SF = top_bit n r, OF = False\<rparr>"

definition add_flags :: "nat \<Rightarrow> 64 word \<Rightarrow> 64 word \<Rightarrow> 64 word \<Rightarrow> eflags" where
  "add_flags n a b r =
     \<lparr>CF = (r < a), PF = parity r, AF = bit (a XOR b XOR r) 4, ZF = (r = 0), SF = top_bit n r,
      OF = (top_bit n a = top_bit n b \<and> top_bit n r \<noteq> top_bit n a)\<rparr>"

definition sub_flags :: "nat \<Rightarrow> 64 word \<Rightarrow> 64 word \<Rightarrow> 64 word \<Rightarrow> eflags" where
  "sub_flags n a b r =
     \<lparr>CF = (a < b), PF = parity r, AF = bit (a XOR b XOR r) 4, ZF = (r = 0), SF = top_bit n r,
      OF = (top_bit n a \<noteq> top_bit n b \<and> top_bit n r \<noteq> top_bit n a)\<rparr>"

text \<open>Result and flags of a two-operand instruction on \<open>n\<close> bytes; \<open>a\<close> is the destination.\<close>

definition alu2 :: "opcode \<Rightarrow> bool \<Rightarrow> nat \<Rightarrow> 64 word \<Rightarrow> 64 word \<Rightarrow> 64 word \<times> eflags" where
  "alu2 opc u n a b =
     (case opc of
        OP_and \<Rightarrow> (a AND b, logic_flags u n (a AND b))
      | OP_or \<Rightarrow> (a OR b, logic_flags u n (a OR b))
      | OP_xor \<Rightarrow> (a XOR b, logic_flags u n (a XOR b))
      | OP_add \<Rightarrow> (let r = take_bit (8 * n) (a + b) in (r, add_flags n a b r))
      | _ \<Rightarrow> (let r = take_bit (8 * n) (a - b) in (r, sub_flags n a b r)))"

definition do_alu2 :: "opcode \<Rightarrow> opnd \<Rightarrow> opnd \<Rightarrow> mstate \<Rightarrow> fault + mstate" where
  "do_alu2 opc d x s =
     (let n = opnd_size d in
      bindE (read_opnd s n d) (\<lambda>a.
      bindE (read_opnd s n x) (\<lambda>b.
      let (r, f) = alu2 opc (undef_bit s) n a b in
      bindE (write_opnd s d r) (\<lambda>t. Inr (t\<lparr>flg := f\<rparr>)))))"

definition do_compare :: "opcode \<Rightarrow> opnd \<Rightarrow> opnd \<Rightarrow> mstate \<Rightarrow> fault + mstate" where
  "do_compare opc x y s =
     (let n = opnd_size x in
      bindE (read_opnd s n x) (\<lambda>a.
      bindE (read_opnd s n y) (\<lambda>b. Inr (s\<lparr>flg := snd (alu2 opc (undef_bit s) n a b)\<rparr>))))"

definition do_not :: "opnd \<Rightarrow> mstate \<Rightarrow> fault + mstate" where
  "do_not d s =
     (let n = opnd_size d in
      bindE (read_opnd s n d) (\<lambda>a. write_opnd s d (take_bit (8 * n) (NOT a))))"

text \<open>Shifts: the count is taken modulo 64 for 8-byte operands and modulo 32 otherwise.\<close>

definition shift_count :: "nat \<Rightarrow> 64 word \<Rightarrow> nat" where
  "shift_count n c = unat c mod (if n = 8 then 64 else 32)"

definition shl_flags :: "bool \<Rightarrow> nat \<Rightarrow> 64 word \<Rightarrow> nat \<Rightarrow> 64 word \<Rightarrow> eflags" where
  "shl_flags u n a c r =
     (let cf = (if c \<le> 8 * n then bit a (8 * n - c) else u) in
      \<lparr>CF = cf, PF = parity r, AF = u, ZF = (r = 0), SF = top_bit n r,
       OF = (if c = 1 then top_bit n r \<noteq> cf else u)\<rparr>)"

definition shr_flags :: "bool \<Rightarrow> nat \<Rightarrow> 64 word \<Rightarrow> nat \<Rightarrow> 64 word \<Rightarrow> eflags" where
  "shr_flags u n a c r =
     \<lparr>CF = (if c \<le> 8 * n then bit a (c - 1) else u), PF = parity r, AF = u, ZF = (r = 0),
      SF = top_bit n r, OF = (if c = 1 then top_bit n a else u)\<rparr>"

definition do_shift :: "bool \<Rightarrow> opnd \<Rightarrow> opnd \<Rightarrow> mstate \<Rightarrow> fault + mstate" where
  "do_shift left d x s =
     (let n = opnd_size d in
      bindE (read_opnd s n d) (\<lambda>a.
      bindE (read_opnd s 1 x) (\<lambda>b.
      let c = shift_count n b;
          r = (if left then take_bit (8 * n) (push_bit c a) else drop_bit c a);
          u = undef_bit s in
      bindE (write_opnd s d r) (\<lambda>t.
        Inr (if c = 0 then t
             else t\<lparr>flg := if left then shl_flags u n a c r else shr_flags u n a c r\<rparr>)))))"

definition do_mov :: "opnd \<Rightarrow> opnd \<Rightarrow> mstate \<Rightarrow> fault + mstate" where
  "do_mov d x s = bindE (read_opnd s (opnd_size d) x) (write_opnd s d)"

section \<open>The stack\<close>

text \<open>The arithmetic flags in the word that \<open>pushf\<close> stores and \<open>popf\<close> loads.\<close>

definition flags_word :: "eflags \<Rightarrow> 64 word" where
  "flags_word f = of_bool (CF f) OR 2 OR push_bit 2 (of_bool (PF f)) OR push_bit 4 (of_bool (AF f))
     OR push_bit 6 (of_bool (ZF f)) OR push_bit 7 (of_bool (SF f)) OR push_bit 11 (of_bool (OF f))"

definition word_flags :: "64 word \<Rightarrow> eflags" where
  "word_flags w =
     \<lparr>CF = bit w 0, PF = bit w 2, AF = bit w 4, ZF = bit w 6, SF = bit w 7, OF = bit w 11\<rparr>"

lemma word_flags_of_flags_word [simp]: "word_flags (flags_word f) = f"
  by (cases f) (simp add: word_flags_def flags_word_def bit_simps)

definition push_word :: "64 word \<Rightarrow> mstate \<Rightarrow> fault + mstate" where
  "push_word v s =
     (let a = gpr s 4 - 8 in
      if mapped_range s a 8
      then Inr (s\<lparr>gpr := (gpr s)(4 := a), mem := mem_put (mem s) a 8 (byte_of v)\<rparr>)
      else Inl PageFault)"

definition pop_word :: "mstate \<Rightarrow> fault + (64 word \<times> mstate)" where
  "pop_word s =
     (let a = gpr s 4 in
      if mapped_range s a 8
      then Inr (le 8 (mem_get (mem s) a), s\<lparr>gpr := (gpr s)(4 := a + 8)\<rparr>)
      else Inl PageFault)"

section \<open>Vector registers\<close>

text \<open>
  Only registers 0 to 15 exist. A register operand is \<open>(number, bytes)\<close>; a result of
  16 bytes clears the upper half of the 32-byte register.
\<close>

definition vreg :: "reg_id \<Rightarrow> (nat \<times> nat) option" where
  "vreg r =
     (if DR_REG_YMM0 \<le> r \<and> r \<le> DR_REG_YMM15 then Some (r - DR_REG_YMM0, 32)
      else if DR_REG_XMM0 \<le> r \<and> r \<le> DR_REG_XMM15 then Some (r - DR_REG_XMM0, 16)
      else None)"

text \<open>Other vector registers can be named in an instruction, but only in one of AVX-512.\<close>

definition evex_reg :: "reg_id \<Rightarrow> bool" where
  "evex_reg r \<longleftrightarrow> IS_XMM_REG r \<or> IS_YMM_REG r \<or> IS_ZMM_REG r"

fun vread :: "mstate \<Rightarrow> nat \<Rightarrow> opnd \<Rightarrow> fault + vec" where
  "vread s n (OReg r) =
     (case vreg r of Some (k, sz) \<Rightarrow> if sz = n then Inr (ymm s k) else Inl Unencodable
      | None \<Rightarrow> Inl (if evex_reg r then UD else Unencodable))"
| "vread s n (OTls off sz) = (if sz = n then Inr (tls_get (tls s) off) else Inl Unencodable)"
| "vread s n (OMem b i sc d sz) =
     (if sz \<noteq> n then Inl Unencodable
      else let a = ea s b i sc d in
           if mapped_range s a sz then Inr (mem_get (mem s) a) else Inl PageFault)"
| "vread s n (OImm _ _) = Inl Unencodable"
| "vread s n (OInstr _) = Inl Unencodable"

definition clip :: "nat \<Rightarrow> vec \<Rightarrow> vec" where
  "clip n v = (\<lambda>i. if i < n then v i else 0)"

fun vwrite :: "mstate \<Rightarrow> nat \<Rightarrow> opnd \<Rightarrow> vec \<Rightarrow> fault + mstate" where
  "vwrite s n (OReg r) v =
     (case vreg r of
        Some (k, sz) \<Rightarrow> if sz = n then Inr (s\<lparr>ymm := (ymm s)(k := clip n v)\<rparr>) else Inl Unencodable
      | None \<Rightarrow> Inl (if evex_reg r then UD else Unencodable))"
| "vwrite s n (OTls off sz) v =
     (if sz = n then Inr (s\<lparr>tls := tls_put (tls s) off n v\<rparr>) else Inl Unencodable)"
| "vwrite s n (OMem b i sc d sz) v =
     (if sz \<noteq> n then Inl Unencodable
      else let a = ea s b i sc d in
           if mapped_range s a sz then Inr (s\<lparr>mem := mem_put (mem s) a n v\<rparr>) else Inl PageFault)"
| "vwrite s n (OImm _ _) v = Inl Unencodable"
| "vwrite s n (OInstr _) v = Inl Unencodable"

text \<open>The width of a vector instruction is that of its register operand.\<close>

fun vwidth :: "opnd \<Rightarrow> nat" where
  "vwidth (OReg r) = (case vreg r of Some (_, sz) \<Rightarrow> sz | None \<Rightarrow> 0)"
| "vwidth _ = 0"

text \<open>\<open>lanewise n f a b\<close> applies \<open>f\<close> to the little-endian lanes of \<open>n\<close> bytes.\<close>

definition lane :: "nat \<Rightarrow> vec \<Rightarrow> nat \<Rightarrow> 64 word" where
  "lane n v j = le n (\<lambda>i. v (n * j + i))"

definition lanewise :: "nat \<Rightarrow> (64 word \<Rightarrow> 64 word \<Rightarrow> 64 word) \<Rightarrow> vec \<Rightarrow> vec \<Rightarrow> vec" where
  "lanewise n f a b = (\<lambda>i. byte_of (f (lane n a (i div n)) (lane n b (i div n))) (i mod n))"

text \<open>\<open>unpack n hi\<close> interleaves the elements of \<open>n\<close> bytes of one half of each 16-byte block.\<close>

definition unpack :: "nat \<Rightarrow> bool \<Rightarrow> vec \<Rightarrow> vec \<Rightarrow> vec" where
  "unpack n hi a b = (\<lambda>i. (if even (i mod 16 div n) then a else b)
     (16 * (i div 16) + (if hi then 8 else 0) + n * (i mod 16 div (2 * n)) + i mod n))"

text \<open>\<open>merge_low n a b\<close> replaces the lowest \<open>n\<close> bytes of \<open>a\<close> by those of \<open>b\<close>.\<close>

definition merge_low :: "nat \<Rightarrow> vec \<Rightarrow> vec \<Rightarrow> vec" where
  "merge_low n a b = (\<lambda>i. if i < n then b i else a i)"

text \<open>The shift count is the lowest quadword of the second operand; a count above 63 gives 0.\<close>

definition shift_left_q :: "vec \<Rightarrow> vec \<Rightarrow> vec" where
  "shift_left_q a b = (\<lambda>i. byte_of
     (if 63 < (le 8 b :: 64 word) then 0 else push_bit (unat (le 8 b :: 64 word)) (lane 8 a (i div 8))) (i mod 8))"

definition vop2 :: "opcode \<Rightarrow> vec \<Rightarrow> vec \<Rightarrow> vec" where
  "vop2 opc a b =
     (case opc of
        OP_vpaddb \<Rightarrow> lanewise 1 (+) a b
      | OP_vpaddw \<Rightarrow> lanewise 2 (+) a b
      | OP_vpaddd \<Rightarrow> lanewise 4 (+) a b
      | OP_vpaddq \<Rightarrow> lanewise 8 (+) a b
      | OP_vpsubb \<Rightarrow> lanewise 1 (-) a b
      | OP_vpsubw \<Rightarrow> lanewise 2 (-) a b
      | OP_vpsubd \<Rightarrow> lanewise 4 (-) a b
      | OP_vpsubq \<Rightarrow> lanewise 8 (-) a b
      | OP_vpand \<Rightarrow> (\<lambda>i. a i AND b i)
      | OP_vpor \<Rightarrow> (\<lambda>i. a i OR b i)
      | OP_vunpcklps \<Rightarrow> unpack 4 False a b
      | OP_vunpckhps \<Rightarrow> unpack 4 True a b
      | OP_vunpcklpd \<Rightarrow> unpack 8 False a b
      | OP_vunpckhpd \<Rightarrow> unpack 8 True a b
      | OP_vmovss \<Rightarrow> merge_low 4 a b
      | OP_vmovsd \<Rightarrow> merge_low 8 a b
      | OP_vpsllq \<Rightarrow> shift_left_q a b
      | _ \<Rightarrow> (\<lambda>i. a i XOR b i))"

definition do_vop2 :: "opcode \<Rightarrow> opnd \<Rightarrow> opnd \<Rightarrow> opnd \<Rightarrow> mstate \<Rightarrow> fault + mstate" where
  "do_vop2 opc d x y s =
     (let n = vwidth d in
      if n = 0 then Inl UD else
      bindE (vread s n x) (\<lambda>a.
      bindE (vread s n y) (\<lambda>b. vwrite s n d (vop2 opc a b))))"

text \<open>Moves, some of which duplicate elements. The aligned ones check the address.\<close>

definition vop1 :: "opcode \<Rightarrow> vec \<Rightarrow> vec" where
  "vop1 opc a =
     (case opc of
        OP_vmovsldup \<Rightarrow> (\<lambda>i. a (8 * (i div 8) + i mod 4))
      | OP_vmovshdup \<Rightarrow> (\<lambda>i. a (8 * (i div 8) + 4 + i mod 4))
      | OP_vmovddup \<Rightarrow> (\<lambda>i. a (16 * (i div 16) + i mod 8))
      | _ \<Rightarrow> a)"

definition needs_alignment :: "opcode \<Rightarrow> bool" where
  "needs_alignment opc \<longleftrightarrow> opc = OP_vmovaps \<or> opc = OP_vmovapd \<or> opc = OP_vmovdqa"

fun misaligned :: "mstate \<Rightarrow> opnd \<Rightarrow> bool" where
  "misaligned s (OMem b i sc d sz) \<longleftrightarrow> unat (ea s b i sc d) mod sz \<noteq> 0"
| "misaligned s _ \<longleftrightarrow> False"

fun no_vector :: "opnd \<Rightarrow> bool" where
  "no_vector (OReg r) \<longleftrightarrow> \<not> evex_reg r"
| "no_vector _ \<longleftrightarrow> False"

definition do_vmov :: "opcode \<Rightarrow> opnd \<Rightarrow> opnd \<Rightarrow> mstate \<Rightarrow> fault + mstate" where
  "do_vmov opc d x s =
     (let n = max (vwidth d) (vwidth x) in
      if n = 0 then Inl (if no_vector d \<or> no_vector x then Unencodable else UD)
      else if needs_alignment opc \<and> (misaligned s d \<or> misaligned s x) then Inl GP
      else bindE (vread s n x) (\<lambda>v. vwrite s n d (vop1 opc v)))"

section \<open>One instruction, and a list of them\<close>

definition step_exec :: "opcode \<Rightarrow> opnd list \<Rightarrow> opnd list \<Rightarrow> mstate \<Rightarrow> flow" where
  "step_exec opc ds ss s =
     (case opc of
        OP_push \<Rightarrow> flow_of (bindE (read_opnd s 8 (ss ! 0)) (\<lambda>v. push_word v s))
      | OP_pop \<Rightarrow> flow_of (bindE (pop_word s) (\<lambda>(v, t). write_opnd t (ds ! 0) v))
      | OP_pushf \<Rightarrow> flow_of (push_word (flags_word (flg s)) s)
      | OP_popf \<Rightarrow> flow_of (bindE (pop_word s) (\<lambda>(v, t). Inr (t\<lparr>flg := word_flags v\<rparr>)))
      | OP_mov_ld \<Rightarrow> flow_of (do_mov (ds ! 0) (ss ! 0) s)
      | OP_mov_st \<Rightarrow> flow_of (do_mov (ds ! 0) (ss ! 0) s)
      | OP_mov_imm \<Rightarrow> flow_of (do_mov (ds ! 0) (ss ! 0) s)
      | OP_movzx \<Rightarrow> flow_of (do_mov (ds ! 0) (ss ! 0) s)
      | OP_not \<Rightarrow> flow_of (do_not (ds ! 0) s)
      | OP_shl \<Rightarrow> flow_of (do_shift True (ds ! 0) (ss ! 0) s)
      | OP_shr \<Rightarrow> flow_of (do_shift False (ds ! 0) (ss ! 0) s)
      | OP_and \<Rightarrow> flow_of (do_alu2 OP_and (ds ! 0) (ss ! 0) s)
      | OP_or \<Rightarrow> flow_of (do_alu2 OP_or (ds ! 0) (ss ! 0) s)
      | OP_xor \<Rightarrow> flow_of (do_alu2 OP_xor (ds ! 0) (ss ! 0) s)
      | OP_add \<Rightarrow> flow_of (do_alu2 OP_add (ds ! 0) (ss ! 0) s)
      | OP_sub \<Rightarrow> flow_of (do_alu2 OP_sub (ds ! 0) (ss ! 0) s)
      | OP_cmp \<Rightarrow> flow_of (do_compare OP_sub (ss ! 0) (ss ! 1) s)
      | OP_test \<Rightarrow> flow_of (do_compare OP_and (ss ! 0) (ss ! 1) s)
      | OP_clc \<Rightarrow> Next (s\<lparr>flg := (flg s)\<lparr>CF := False\<rparr>\<rparr>)
      | OP_stc \<Rightarrow> Next (s\<lparr>flg := (flg s)\<lparr>CF := True\<rparr>\<rparr>)
      | OP_jz \<Rightarrow> (case ss ! 0 of OInstr l \<Rightarrow> if ZF (flg s) then Jump l s else Next s
                  | _ \<Rightarrow> Trap Unencodable)
      | OP_jmp \<Rightarrow> (case ss ! 0 of OInstr l \<Rightarrow> Jump l s | _ \<Rightarrow> Trap Unencodable)
      | OP_LABEL \<Rightarrow> Next s
      | OP_nop \<Rightarrow> Next s
      | OP_vmovdqu \<Rightarrow> flow_of (do_vmov OP_vmovdqu (ds ! 0) (ss ! 0) s)
      | OP_vmovdqa \<Rightarrow> flow_of (do_vmov OP_vmovdqa (ds ! 0) (ss ! 0) s)
      | OP_vmovaps \<Rightarrow> flow_of (do_vmov OP_vmovaps (ds ! 0) (ss ! 0) s)
      | OP_vmovapd \<Rightarrow> flow_of (do_vmov OP_vmovapd (ds ! 0) (ss ! 0) s)
      | OP_vmovups \<Rightarrow> flow_of (do_vmov OP_vmovups (ds ! 0) (ss ! 0) s)
      | OP_vmovupd \<Rightarrow> flow_of (do_vmov OP_vmovupd (ds ! 0) (ss ! 0) s)
      | OP_vmovsldup \<Rightarrow> flow_of (do_vmov OP_vmovsldup (ds ! 0) (ss ! 0) s)
      | OP_vmovshdup \<Rightarrow> flow_of (do_vmov OP_vmovshdup (ds ! 0) (ss ! 0) s)
      | OP_vmovddup \<Rightarrow> flow_of (do_vmov OP_vmovddup (ds ! 0) (ss ! 0) s)
      | OP_AVX512 _ \<Rightarrow> Trap UD
      | _ \<Rightarrow> flow_of (do_vop2 opc (ds ! 0) (ss ! 0) (ss ! 1) s))"

definition step :: "instr \<Rightarrow> mstate \<Rightarrow> flow" where
  "step i s = (if encodable i then step_exec (opcode_of i) (dsts i) (srcs i) s else Trap Unencodable)"

text \<open>\<open>goto l is\<close> is what follows the label \<open>l\<close> in the list.\<close>

fun goto :: "nat \<Rightarrow> instr list \<Rightarrow> instr list option" where
  "goto l [] = None"
| "goto l (i # is) = (if i = INSTR_CREATE_label l then Some is else goto l is)"

lemma goto_length: "goto l is = Some js \<Longrightarrow> length js < Suc (length is)"
  by (induction l "is" rule: goto.induct) (auto split: if_splits)

function exec :: "instr list \<Rightarrow> mstate \<Rightarrow> fault + mstate" where
  "exec [] s = Inr s"
| "exec (i # is) s =
     (case step i s of
        Next t \<Rightarrow> exec is t
      | Trap f \<Rightarrow> Inl f
      | Jump l t \<Rightarrow> (case goto l is of None \<Rightarrow> Inl NoLabel | Some js \<Rightarrow> exec js t))"
  by pat_completeness auto
termination
  by (relation "measure (\<lambda>(is, s). length is)") (auto dest: goto_length)

end
