(* ===== verification/Machine_Rules.thy ===== *)
theory Machine_Rules
  imports Machine
begin

text \<open>
  Rules for executing emitted sequences. The first part rewrites single instructions
  (\<open>step_simps\<close>). The second is a small program logic: \<open>effect m rs fl P Q body\<close> says that
  from a state satisfying \<open>P\<close> with \<open>m\<close> mapped bytes below the stack pointer the sequence
  \<open>body\<close> runs to its end, establishes \<open>Q\<close>, changes no general-purpose register outside
  \<open>rs\<close>, no vector register, no memory but the \<open>m\<close> bytes below the stack pointer, and the
  flags only if \<open>fl\<close>. Its rules follow the way the rewriter brackets its sequences with
  \<open>pushf\<close>/\<open>popf\<close> and \<open>push\<close>/\<open>pop\<close>.
\<close>

section \<open>Execution of lists\<close>

lemma goto_append: "goto l xs = Some js \<Longrightarrow> goto l (xs @ ys) = Some (js @ ys)"
  by (induction l xs rule: goto.induct) auto

lemma exec_append: "exec xs s = Inr t \<Longrightarrow> exec (xs @ ys) s = exec ys t"
  by (induction xs s rule: exec.induct)
    (auto split: flow.splits option.splits simp: goto_append)

lemma exec_append_trap:
  "exec xs s = Inl f \<Longrightarrow> f \<noteq> NoLabel \<Longrightarrow> exec (xs @ ys) s = Inl f"
  by (induction xs s rule: exec.induct)
    (auto split: flow.splits option.splits simp: goto_append)

section \<open>Registers\<close>

text \<open>\<open>gpart r k n\<close>: register \<open>r\<close> is the low \<open>n\<close> bytes of general-purpose register \<open>k\<close>.\<close>

definition gpart :: "reg_id \<Rightarrow> nat \<Rightarrow> nat \<Rightarrow> bool" where
  "gpart r k n \<longleftrightarrow> reg_part r = Some (k, 0, n)"

lemma gpart_simps:
  "gpart DR_REG_RAX 0 8" "gpart DR_REG_RCX 1 8" "gpart DR_REG_RDX 2 8" "gpart DR_REG_RBX 3 8"
  "gpart DR_REG_R11 11 8" "gpart DR_REG_R12 12 8" "gpart DR_REG_R15 15 8"
  "gpart DR_REG_EAX 0 4" "gpart DR_REG_ECX 1 4" "gpart DR_REG_EDX 2 4" "gpart DR_REG_EBX 3 4"
  "gpart DR_REG_AX 0 2" "gpart DR_REG_CX 1 2" "gpart DR_REG_DX 2 2" "gpart DR_REG_BX 3 2"
  "gpart DR_REG_AL 0 1" "gpart DR_REG_CL 1 1" "gpart DR_REG_DL 2 1" "gpart DR_REG_BL 3 1"
  by (simp_all add: gpart_def reg_part_def)

lemmas gpart_Suc_simps [simp] = gpart_simps [unfolded One_nat_def]

lemma gpart_size: "gpart r k n \<Longrightarrow> gpr_size r = n"
  by (simp add: gpart_def gpr_size_def)

lemma gpart_gp_size: "gpart r k n \<Longrightarrow> n = 1 \<or> n = 2 \<or> n = 4 \<or> n = 8"
  by (auto simp: gpart_def reg_part_def split: if_splits)

lemma take_bit_64 [simp]: "take_bit 64 w = w" for w :: "64 word"
  by (rule bit_word_eqI) (simp add: bit_simps)

lemma gpr_read_gpart: "gpart r k n \<Longrightarrow> gpr_read s r = take_bit (8 * n) (gpr s k)"
  by (simp add: gpart_def gpr_read_def)

lemma take_bit_put_part:
  "n = 1 \<or> n = 2 \<or> n = 4 \<or> n = 8 \<Longrightarrow> take_bit (8 * n) (put_part 0 n old v) = take_bit (8 * n) v"
  using take_bit_set_low [of n old v] by (auto simp: put_part_def)

lemma gpr_write_gpart:
  "gpart r k n \<Longrightarrow> gpr_write s r v = s\<lparr>gpr := (gpr s)(k := put_part 0 n (gpr s k) v)\<rparr>"
  by (simp add: gpart_def gpr_write_def)

lemma gpr_read_write_same [simp]:
  "gpart r k n \<Longrightarrow> gpart r' k n \<Longrightarrow> gpr_read (gpr_write s r v) r' = take_bit (8 * n) v"
  using take_bit_put_part [OF gpart_gp_size, of r k n] by (simp add: gpr_read_gpart gpr_write_gpart)

lemma gpr_read_write_other:
  "gpart r k n \<Longrightarrow> gpart r' k' n' \<Longrightarrow> k \<noteq> k' \<Longrightarrow> gpr_read (gpr_write s r v) r' = gpr_read s r'"
  by (simp add: gpr_read_gpart gpr_write_gpart)

lemma gpr_write_other: "gpart r k n \<Longrightarrow> k' \<noteq> k \<Longrightarrow> gpr (gpr_write s r v) k' = gpr s k'"
  by (simp add: gpr_write_gpart)

lemma gpr_write_full: "gpart r k 8 \<Longrightarrow> gpr (gpr_write s r v) k = v"
  by (simp add: gpr_write_gpart put_part_def)

lemma gpr_write_fields [simp]:
  "tls (gpr_write s r v) = tls s" "ymm (gpr_write s r v) = ymm s" "mem (gpr_write s r v) = mem s"
  "mapped (gpr_write s r v) = mapped s" "flg (gpr_write s r v) = flg s"
  "undef_bit (gpr_write s r v) = undef_bit s"
  by (simp_all add: gpr_write_def split: option.splits)

lemma gpr_read_fields [simp]:
  "gpr_read (s\<lparr>flg := f\<rparr>) r = gpr_read s r" "gpr_read (s\<lparr>tls := t\<rparr>) r = gpr_read s r"
  "gpr_read (s\<lparr>mem := m\<rparr>) r = gpr_read s r" "gpr_read (s\<lparr>ymm := y\<rparr>) r = gpr_read s r"
  by (simp_all add: gpr_read_def split: option.splits)

lemma gpr_write_flg: "gpr_write (s\<lparr>flg := f\<rparr>) r v = (gpr_write s r v)\<lparr>flg := f\<rparr>"
  by (simp add: gpr_write_def split: option.splits)

lemma take_bit_gpr_read: "gpart r k n \<Longrightarrow> take_bit (8 * n) (gpr_read s r) = gpr_read s r"
  by (simp add: gpr_read_gpart)

section \<open>Single instructions\<close>

lemma step_restore [step_simps]:
  "gpart r k n \<Longrightarrow> step (RESTORE_FROM_SIZED_TLS r off n) s
     = Next (gpr_write s r (le n (tls_get (tls s) off)))"
  using gpart_gp_size [of r k n]
  by (simp add: step_def step_exec_def create_defs rm_ok_def gp_size_def gpart_size do_mov_def)

lemma step_save [step_simps]:
  "gpart r k n \<Longrightarrow> step (SAVE_TO_SIZED_TLS r off n) s
     = Next (s\<lparr>tls := tls_put (tls s) off n (byte_of (gpr_read s r))\<rparr>)"
  using gpart_gp_size [of r k n]
  by (simp add: step_def step_exec_def create_defs rm_ok_def gp_size_def gpart_size do_mov_def)

lemma step_restore8 [step_simps]:
  "gpart r k 8 \<Longrightarrow> step (RESTORE_FROM_TLS r off) s = Next (gpr_write s r (le 8 (tls_get (tls s) off)))"
  by (simp add: step_def step_exec_def create_defs rm_ok_def gp_size_def gpart_size do_mov_def)

lemma step_save8 [step_simps]:
  "gpart r k 8 \<Longrightarrow> step (SAVE_TO_TLS r off) s
     = Next (s\<lparr>tls := tls_put (tls s) off 8 (byte_of (gpr_read s r))\<rparr>)"
  by (simp add: step_def step_exec_def create_defs rm_ok_def gp_size_def gpart_size do_mov_def)

text \<open>A two-operand instruction with a register destination.\<close>

definition alu_write :: "opcode \<Rightarrow> reg_id \<Rightarrow> nat \<Rightarrow> 64 word \<Rightarrow> mstate \<Rightarrow> mstate" where
  "alu_write opc r n b s =
     (let (v, f) = alu2 opc (undef_bit s) n (gpr_read s r) b in (gpr_write s r v)\<lparr>flg := f\<rparr>)"

lemma step_alu_reg [step_simps]:
  assumes "gpart r k n" and "gpart r' k' n"
  shows "step (INSTR_CREATE_and (OReg r) (OReg r')) s = Next (alu_write OP_and r n (gpr_read s r') s)"
    and "step (INSTR_CREATE_or (OReg r) (OReg r')) s = Next (alu_write OP_or r n (gpr_read s r') s)"
    and "step (INSTR_CREATE_xor (OReg r) (OReg r')) s = Next (alu_write OP_xor r n (gpr_read s r') s)"
    and "step (INSTR_CREATE_add (OReg r) (OReg r')) s = Next (alu_write OP_add r n (gpr_read s r') s)"
  using assms gpart_gp_size [of r k n]
  by (simp_all add: step_def step_exec_def create_defs rm_ok_def gp_size_def gpart_size
      do_alu2_def alu_write_def split: prod.splits)

lemma step_alu_imm [step_simps]:
  assumes "gpart r k n" and "immed_size_ok v sz" and "sz = 1 \<or> n \<noteq> 1 \<and> sz = min n 4"
  shows "step (INSTR_CREATE_and (OReg r) (OImm v sz)) s
      = Next (alu_write OP_and r n (take_bit (8 * n) (word_of_int v)) s)"
  using assms gpart_gp_size [of r k n]
  by (simp add: step_def step_exec_def create_defs rm_ok_def gp_size_def gpart_size
      do_alu2_def alu_write_def split: prod.splits)

lemma step_not [step_simps]:
  "gpart r k n \<Longrightarrow> step (INSTR_CREATE_not (OReg r)) s
     = Next (gpr_write s r (take_bit (8 * n) (NOT (gpr_read s r))))"
  using gpart_gp_size [of r k n]
  by (simp add: step_def step_exec_def create_defs rm_ok_def gp_size_def gpart_size do_not_def)

lemma step_mov_imm [step_simps]:
  "gpart r k n \<Longrightarrow> immed_size_ok v n \<Longrightarrow> step (INSTR_CREATE_mov_imm (OReg r) (OImm v n)) s
     = Next (gpr_write s r (take_bit (8 * n) (word_of_int v)))"
  using gpart_gp_size [of r k n]
  by (simp add: step_def step_exec_def create_defs gp_size_def gpart_size do_mov_def)

lemma step_movzx [step_simps]:
  "gpart r k n \<Longrightarrow> gpart r' k' n' \<Longrightarrow> n' \<le> 2 \<Longrightarrow> n' < n \<Longrightarrow>
     step (INSTR_CREATE_movzx (OReg r) (OReg r')) s = Next (gpr_write s r (gpr_read s r'))"
  using gpart_gp_size [of r k n] gpart_gp_size [of r' k' n']
  by (simp add: step_def step_exec_def create_defs rm_ok_def gp_size_def gpart_size do_mov_def)

lemma step_test [step_simps]:
  "gpart r k n \<Longrightarrow> step (INSTR_CREATE_test (OReg r) (OReg r)) s
     = Next (s\<lparr>flg := logic_flags (undef_bit s) n (gpr_read s r)\<rparr>)"
  using gpart_gp_size [of r k n]
  by (simp add: step_def step_exec_def create_defs rm_ok_def gp_size_def gpart_size do_compare_def alu2_def)

lemma step_cmp [step_simps]:
  "gpart r k n \<Longrightarrow> immed_size_ok v sz \<Longrightarrow> sz = 1 \<or> n \<noteq> 1 \<and> sz = min n 4 \<Longrightarrow>
     step (INSTR_CREATE_cmp (OReg r) (OImm v sz)) s
     = Next (s\<lparr>flg := (let a = gpr_read s r; b = take_bit (8 * n) (word_of_int v) in
         sub_flags n a b (take_bit (8 * n) (a - b)))\<rparr>)"
  using gpart_gp_size [of r k n]
  by (simp add: step_def step_exec_def create_defs rm_ok_def gp_size_def gpart_size do_compare_def
      alu2_def Let_def)

lemma step_flow [step_simps]:
  "step INSTR_CREATE_clc s = Next (s\<lparr>flg := (flg s)\<lparr>CF := False\<rparr>\<rparr>)"
  "step INSTR_CREATE_stc s = Next (s\<lparr>flg := (flg s)\<lparr>CF := True\<rparr>\<rparr>)"
  "step (INSTR_CREATE_jcc OP_jz (OInstr l)) s = (if ZF (flg s) then Jump l s else Next s)"
  "step (INSTR_CREATE_jmp (OInstr l)) s = Jump l s"
  by (simp_all add: step_def step_exec_def create_defs)

lemma not_label [simp]:
  "INSTR_CREATE_clc \<noteq> INSTR_CREATE_label l" "INSTR_CREATE_stc \<noteq> INSTR_CREATE_label l"
  "INSTR_CREATE_test a b \<noteq> INSTR_CREATE_label l" "INSTR_CREATE_cmp a b \<noteq> INSTR_CREATE_label l"
  "INSTR_CREATE_jmp a \<noteq> INSTR_CREATE_label l" "INSTR_CREATE_jcc OP_jz a \<noteq> INSTR_CREATE_label l"
  "INSTR_CREATE_label l' = INSTR_CREATE_label l \<longleftrightarrow> l' = l"
  by (simp_all add: create_defs)

lemma step_push_reg: "gpart r k 8 \<Longrightarrow> step (INSTR_CREATE_push (OReg r)) s = flow_of (push_word (gpr s k) s)"
  by (simp add: step_def step_exec_def create_defs gpart_size gpr_read_gpart)

lemma step_pop_reg:
  "gpart r k 8 \<Longrightarrow> step (INSTR_CREATE_pop (OReg r)) s
     = flow_of (bindE (pop_word s) (\<lambda>(v, t). Inr (gpr_write t r v)))"
  by (simp add: step_def step_exec_def create_defs gpart_size)

lemma step_pushf: "step INSTR_CREATE_pushf s = flow_of (push_word (flags_word (flg s)) s)"
  by (simp add: step_def step_exec_def create_defs)

lemma step_popf:
  "step INSTR_CREATE_popf s = flow_of (bindE (pop_word s) (\<lambda>(v, t). Inr (t\<lparr>flg := word_flags v\<rparr>)))"
  by (simp add: step_def step_exec_def create_defs)

lemma step_label [step_simps]: "step (INSTR_CREATE_label l) s = Next s"
  by (simp add: step_def step_exec_def create_defs)

text \<open>What an arithmetic write leaves alone.\<close>

lemma alu_write_fields [simp]:
  "tls (alu_write opc r n b s) = tls s" "ymm (alu_write opc r n b s) = ymm s"
  "mem (alu_write opc r n b s) = mem s" "mapped (alu_write opc r n b s) = mapped s"
  "undef_bit (alu_write opc r n b s) = undef_bit s"
  by (simp_all add: alu_write_def split: prod.splits)

lemma alu_write_other: "gpart r k n \<Longrightarrow> k' \<noteq> k \<Longrightarrow> gpr (alu_write opc r n b s) k' = gpr s k'"
  by (simp add: alu_write_def gpr_write_other split: prod.splits)

lemma gpr_read_alu_same:
  "gpart r k n \<Longrightarrow> gpart r' k n \<Longrightarrow> gpr_read (alu_write opc r n b s) r'
     = take_bit (8 * n) (fst (alu2 opc (undef_bit s) n (gpr_read s r) b))"
  by (simp add: alu_write_def split: prod.splits)

lemma gpr_read_alu_other:
  "gpart r k n \<Longrightarrow> gpart r' k' n' \<Longrightarrow> k \<noteq> k' \<Longrightarrow> gpr_read (alu_write opc r n b s) r' = gpr_read s r'"
  by (simp add: alu_write_def gpr_read_write_other split: prod.splits)

lemma alu2_logic_flags [simp]:
  "snd (alu2 OP_and u n a b) = logic_flags u n (a AND b)" "snd (alu2 OP_or u n a b) = logic_flags u n (a OR b)"
  "snd (alu2 OP_xor u n a b) = logic_flags u n (a XOR b)"
  by (simp_all add: alu2_def)

lemma flg_alu_write: "flg (alu_write opc r n b s) = snd (alu2 opc (undef_bit s) n (gpr_read s r) b)"
  by (simp add: alu_write_def split: prod.splits)

text \<open>Shifts of a register by an immediate.\<close>

definition shift_write :: "bool \<Rightarrow> reg_id \<Rightarrow> nat \<Rightarrow> nat \<Rightarrow> mstate \<Rightarrow> mstate" where
  "shift_write left r n c s =
     (let a = gpr_read s r;
          v = (if left then take_bit (8 * n) (push_bit c a) else drop_bit c a);
          u = undef_bit s;
          t = gpr_write s r v in
      if c = 0 then t
      else t\<lparr>flg := if left then shl_flags u n a c v else shr_flags u n a c v\<rparr>)"

definition imm_count :: "nat \<Rightarrow> int \<Rightarrow> nat" where
  "imm_count n v = shift_count n (take_bit 8 (word_of_int v))"

lemma step_shift [step_simps]:
  assumes "gpart r k n" "immed_size_ok v (Suc 0)"
  shows "step (INSTR_CREATE_shl (OReg r) (OImm v (Suc 0))) s = Next (shift_write True r n (imm_count n v) s)"
    and "step (INSTR_CREATE_shr (OReg r) (OImm v (Suc 0))) s = Next (shift_write False r n (imm_count n v) s)"
  using assms gpart_gp_size [of r k n]
  by (simp_all add: step_def step_exec_def create_defs rm_ok_def gp_size_def gpart_size do_shift_def
      shift_write_def imm_count_def Let_def)

lemma imm_count_eq: "imm_count n v = nat (v mod 256) mod (if n = 8 then 64 else 32)"
proof -
  have "take_bit 8 (word_of_int v) = (of_nat (nat (v mod 256)) :: 64 word)"
    by (rule bit_word_eqI) (auto simp: bit_simps simp flip: take_bit_eq_mod [of 8 v, simplified])
  moreover have "nat (v mod 256) < 2 ^ 64" by (simp add: nat_less_iff)
  ultimately show ?thesis by (simp add: imm_count_def shift_count_def unat_of_nat_small del: of_nat_nat)
qed

lemma imm_count_nonneg: "0 \<le> v \<Longrightarrow> v < 256 \<Longrightarrow> imm_count n v = nat v mod (if n = 8 then 64 else 32)"
  by (simp add: imm_count_eq)

lemma shift_write_fields [simp]:
  "tls (shift_write l r n c s) = tls s" "ymm (shift_write l r n c s) = ymm s"
  "mem (shift_write l r n c s) = mem s" "mapped (shift_write l r n c s) = mapped s"
  "undef_bit (shift_write l r n c s) = undef_bit s"
  by (simp_all add: shift_write_def Let_def)

lemma shift_write_other: "gpart r k n \<Longrightarrow> k' \<noteq> k \<Longrightarrow> gpr (shift_write l r n c s) k' = gpr s k'"
  by (simp add: shift_write_def Let_def gpr_write_other)

lemma gpr_read_shift_same:
  "gpart r k n \<Longrightarrow> gpart r' k n \<Longrightarrow> gpr_read (shift_write l r n c s) r'
     = (if l then take_bit (8 * n) (push_bit c (gpr_read s r)) else take_bit (8 * n) (drop_bit c (gpr_read s r)))"
  by (simp add: shift_write_def Let_def)

lemma gpr_read_shift_other:
  "gpart r k n \<Longrightarrow> gpart r' k' n' \<Longrightarrow> k \<noteq> k' \<Longrightarrow> gpr_read (shift_write l r n c s) r' = gpr_read s r'"
  by (simp add: shift_write_def Let_def gpr_read_write_other)

text \<open>Reading a narrower part of a register that was written in full.\<close>

lemma gpr_read_write_narrow:
  "gpart r k 8 \<Longrightarrow> gpart r' k n' \<Longrightarrow> gpr_read (gpr_write s r v) r' = take_bit (8 * n') v"
  by (simp add: gpr_read_gpart gpr_write_gpart put_part_def)

lemma gpr_read_shift_narrow:
  "gpart r k 8 \<Longrightarrow> gpart r' k n' \<Longrightarrow> gpr_read (shift_write l r 8 c s) r'
     = take_bit (8 * n') (if l then push_bit c (gpr_read s r) else drop_bit c (gpr_read s r))"
  by (simp add: shift_write_def Let_def gpr_read_write_narrow)

lemma gpr_read_alu_narrow:
  "gpart r k 8 \<Longrightarrow> gpart r' k n' \<Longrightarrow> gpr_read (alu_write opc r 8 b s) r'
     = take_bit (8 * n') (fst (alu2 opc (undef_bit s) 8 (gpr_read s r) b))"
  by (simp add: alu_write_def gpr_read_write_narrow split: prod.splits)

lemmas reg_simps = shift_write_other gpr_read_shift_same gpr_read_shift_other gpr_read_write_other gpr_write_other gpr_write_full alu_write_other
  gpr_read_alu_same gpr_read_alu_other

lemma alu2_values [simp]:
  "fst (alu2 OP_and u n a b) = a AND b" "fst (alu2 OP_or u n a b) = a OR b"
  "fst (alu2 OP_xor u n a b) = a XOR b" "fst (alu2 OP_add u n a b) = take_bit (8 * n) (a + b)"
  by (simp_all add: alu2_def Let_def)

section \<open>The stack discipline\<close>

definition stack_room :: "nat \<Rightarrow> mstate \<Rightarrow> bool" where
  "stack_room m s \<longleftrightarrow> (\<forall>x. below (gpr s 4) m x \<longrightarrow> mapped s x)"

definition pushed :: "64 word \<Rightarrow> mstate \<Rightarrow> mstate" where
  "pushed v s = s\<lparr>gpr := (gpr s)(4 := gpr s 4 - 8), mem := mem_put (mem s) (gpr s 4 - 8) 8 (byte_of v)\<rparr>"

text \<open>\<open>keeps m s t\<close>: \<open>t\<close> has the stack pointer, the mappings and, but for \<open>m\<close> bytes below it, the memory of \<open>s\<close>.\<close>

definition keeps :: "nat \<Rightarrow> mstate \<Rightarrow> mstate \<Rightarrow> bool" where
  "keeps m s t \<longleftrightarrow> gpr t 4 = gpr s 4 \<and> mapped t = mapped s
     \<and> (\<forall>x. \<not> below (gpr s 4) m x \<longrightarrow> mem t x = mem s x)"

lemma pushed_fields [simp]:
  "tls (pushed v s) = tls s" "ymm (pushed v s) = ymm s" "flg (pushed v s) = flg s"
  "mapped (pushed v s) = mapped s" "undef_bit (pushed v s) = undef_bit s"
  "gpr (pushed v s) 4 = gpr s 4 - 8" "k \<noteq> 4 \<Longrightarrow> gpr (pushed v s) k = gpr s k"
  by (simp_all add: pushed_def)

lemma stack_room_mono: "stack_room m s \<Longrightarrow> n \<le> m \<Longrightarrow> stack_room n s"
  by (auto simp: stack_room_def below_def)

lemma stack_room_pushed: "stack_room (m + 8) s \<Longrightarrow> stack_room m (pushed v s)"
  by (simp add: stack_room_def below_shift)

lemma below8_word: "i < 8 \<Longrightarrow> below r 8 (r - 8 + of_nat i)"
proof -
  assume i: "i < 8"
  have "r - 1 - (r - 8 + of_nat i) = of_nat (7 - i)" using i by simp
  moreover have "unat (of_nat (7 - i) :: 64 word) = 7 - i" by (rule unat_of_nat_small) simp
  ultimately show ?thesis unfolding below_def by (simp only:)
qed

lemma push_word_room: "stack_room (m + 8) s \<Longrightarrow> push_word v s = Inr (pushed v s)"
  using below8_word [of _ "gpr s 4"] stack_room_mono [of "m + 8" s 8]
  by (auto simp: push_word_def pushed_def mapped_range_def list_all_iff stack_room_def Let_def)

lemma pop_word_pushed:
  assumes k: "keeps m (pushed v s) t" and m: "m \<le> 2 ^ 63" and room: "stack_room 8 s"
  shows "pop_word t = Inr (v, t\<lparr>gpr := (gpr t)(4 := gpr s 4)\<rparr>)"
proof -
  have rsp: "gpr t 4 = gpr s 4 - 8" and mp: "mapped t = mapped s"
    using k by (simp_all add: keeps_def)
  have "mapped_range t (gpr t 4) 8"
    using room below8_word [of _ "gpr s 4"]
    by (auto simp: mapped_range_def list_all_iff stack_room_def rsp mp)
  moreover have "mem_get (mem t) (gpr s 4 - 8) i = byte_of v i" if i: "i < 8" for i
  proof -
    have "\<not> below (gpr s 4 - 8) m (gpr s 4 - 8 + of_nat i)"
      using i m by (intro at_or_above_not_below) auto
    then have "mem t (gpr s 4 - 8 + of_nat i) = mem (pushed v s) (gpr s 4 - 8 + of_nat i)"
      using k by (simp add: keeps_def)
    also have "\<dots> = mem_get (mem_put (mem s) (gpr s 4 - 8) 8 (byte_of v)) (gpr s 4 - 8) i"
      by (simp add: pushed_def mem_get_def)
    also have "\<dots> = byte_of v i" using i by (simp add: bytes_simps)
    finally show ?thesis by (simp add: mem_get_def)
  qed
  then have "le 8 (mem_get (mem t) (gpr s 4 - 8)) = (le 8 (byte_of v) :: 64 word)"
    by (intro le_cong)
  ultimately show ?thesis by (simp add: pop_word_def rsp bytes_simps)
qed

lemma keeps_popped:
  assumes k: "keeps m (pushed v s) t" and "gpr u 4 = gpr s 4" "mapped u = mapped t" "mem u = mem t"
  shows "keeps (m + 8) s u"
proof -
  have "mem t x = mem s x" if nb: "\<not> below (gpr s 4) (m + 8) x" for x
  proof -
    have "\<not> below (gpr s 4 - 8) m x" using nb below_shift by blast
    then have "mem t x = mem (pushed v s) x" using k by (simp add: keeps_def)
    also have "\<dots> = mem s x"
      using nb below_mono [of "gpr s 4" 8 x "m + 8"] put8_below [of "gpr s 4" x]
      by (simp add: pushed_def) blast
    finally show ?thesis .
  qed
  then show ?thesis using assms by (simp add: keeps_def)
qed

section \<open>Effects of bracketed sequences\<close>

definition effect ::
    "nat \<Rightarrow> nat set \<Rightarrow> bool \<Rightarrow> (mstate \<Rightarrow> bool) \<Rightarrow> (mstate \<Rightarrow> bool) \<Rightarrow> instr list \<Rightarrow> bool" where
  "effect m rs fl P Q body \<longleftrightarrow> (\<forall>s. P s \<and> stack_room m s \<longrightarrow>
     (\<exists>t. exec body s = Inr t \<and> Q t \<and> ymm t = ymm s \<and> (\<forall>n. n \<notin> rs \<longrightarrow> gpr t n = gpr s n)
        \<and> (fl \<or> flg t = flg s) \<and> keeps m s t))"

lemma effectI:
  assumes "\<And>s. P s \<Longrightarrow> stack_room m s \<Longrightarrow> \<exists>t. exec body s = Inr t \<and> Q t \<and> ymm t = ymm s
      \<and> (\<forall>n. n \<notin> rs \<longrightarrow> gpr t n = gpr s n) \<and> (fl \<or> flg t = flg s) \<and> keeps m s t"
  shows "effect m rs fl P Q body"
  using assms by (simp add: effect_def)

lemma effectD:
  assumes "effect m rs fl P Q body" "P s" "stack_room m s"
  obtains t where "exec body s = Inr t" "Q t" "ymm t = ymm s" "\<And>n. n \<notin> rs \<Longrightarrow> gpr t n = gpr s n"
    "fl \<or> flg t = flg s" "keeps m s t"
  using assms unfolding effect_def by blast

lemma effect_push_pre:
  assumes body: "effect m rs fl P' Q body" and r: "gpart r k 8" "k \<noteq> 4"
    and P: "\<And>s v. P s \<Longrightarrow> P' (pushed v s)"
    and Q: "\<And>t a b. Q t \<Longrightarrow> Q (t\<lparr>gpr := (gpr t)(4 := a, k := b)\<rparr>)" and m: "m \<le> 2 ^ 63"
  shows "effect (m + 8) (rs - {k}) fl P Q
           (INSTR_CREATE_push (OReg r) # body @ [INSTR_CREATE_pop (OReg r)])"
proof (rule effectI)
  fix s assume s: "P s" "stack_room (m + 8) s"
  let ?s1 = "pushed (gpr s k) s"
  obtain t where t: "exec body ?s1 = Inr t" "Q t" "ymm t = ymm ?s1"
      "\<And>n. n \<notin> rs \<Longrightarrow> gpr t n = gpr ?s1 n" "fl \<or> flg t = flg ?s1" "keeps m ?s1 t"
    using effectD [OF body P [OF s(1)] stack_room_pushed [OF s(2)]] by blast
  let ?u = "t\<lparr>gpr := (gpr t)(4 := gpr s 4, k := gpr s k)\<rparr>"
  have "pop_word t = Inr (gpr s k, t\<lparr>gpr := (gpr t)(4 := gpr s 4)\<rparr>)"
    using t(6) m stack_room_mono [OF s(2)] by (intro pop_word_pushed) auto
  then have "exec (body @ [INSTR_CREATE_pop (OReg r)]) ?s1 = Inr ?u"
    using t(1) r by (simp add: exec_append step_pop_reg gpr_write_gpart put_part_def)
  then have "exec (INSTR_CREATE_push (OReg r) # body @ [INSTR_CREATE_pop (OReg r)]) s = Inr ?u"
    using r s(2) by (simp add: step_push_reg push_word_room)
  moreover have "keeps (m + 8) s ?u" using t(6) r by (rule_tac keeps_popped) auto
  moreover have "\<forall>n. n \<notin> rs - {k} \<longrightarrow> gpr ?u n = gpr s n" using t(4) by auto
  ultimately show "\<exists>t. exec (INSTR_CREATE_push (OReg r) # body @ [INSTR_CREATE_pop (OReg r)]) s = Inr t
      \<and> Q t \<and> ymm t = ymm s \<and> (\<forall>n. n \<notin> rs - {k} \<longrightarrow> gpr t n = gpr s n)
      \<and> (fl \<or> flg t = flg s) \<and> keeps (m + 8) s t"
    using t Q by (intro exI [of _ ?u]) simp
qed

lemma effect_pushf_pre:
  assumes body: "effect m rs fl P' Q body" and P: "\<And>s v. P s \<Longrightarrow> P' (pushed v s)"
    and Q: "\<And>t a f. Q t \<Longrightarrow> Q (t\<lparr>gpr := (gpr t)(4 := a), flg := f\<rparr>)" and m: "m \<le> 2 ^ 63"
  shows "effect (m + 8) rs False P Q (INSTR_CREATE_pushf # body @ [INSTR_CREATE_popf])"
proof (rule effectI)
  fix s assume s: "P s" "stack_room (m + 8) s"
  let ?s1 = "pushed (flags_word (flg s)) s"
  obtain t where t: "exec body ?s1 = Inr t" "Q t" "ymm t = ymm ?s1"
      "\<And>n. n \<notin> rs \<Longrightarrow> gpr t n = gpr ?s1 n" "keeps m ?s1 t"
    using effectD [OF body P [OF s(1)] stack_room_pushed [OF s(2)]] by blast
  let ?u = "t\<lparr>gpr := (gpr t)(4 := gpr s 4), flg := flg s\<rparr>"
  have "pop_word t = Inr (flags_word (flg s), t\<lparr>gpr := (gpr t)(4 := gpr s 4)\<rparr>)"
    using t(5) m stack_room_mono [OF s(2)] by (intro pop_word_pushed) auto
  then have "exec (body @ [INSTR_CREATE_popf]) ?s1 = Inr ?u"
    using t(1) by (simp add: exec_append step_popf)
  then have "exec (INSTR_CREATE_pushf # body @ [INSTR_CREATE_popf]) s = Inr ?u"
    using s(2) by (simp add: step_pushf push_word_room)
  moreover have "keeps (m + 8) s ?u" using t(5) by (rule_tac keeps_popped) auto
  moreover have "\<forall>n. n \<notin> rs \<longrightarrow> gpr ?u n = gpr s n" using t(4) by auto
  ultimately show "\<exists>t. exec (INSTR_CREATE_pushf # body @ [INSTR_CREATE_popf]) s = Inr t
      \<and> Q t \<and> ymm t = ymm s \<and> (\<forall>n. n \<notin> rs \<longrightarrow> gpr t n = gpr s n)
      \<and> (False \<or> flg t = flg s) \<and> keeps (m + 8) s t"
    using t Q by (intro exI [of _ ?u]) simp
qed

text \<open>Most bodies ask the same of the states before and after the push.\<close>

lemmas effect_push = effect_push_pre [where P' = P and P = P for P]
  and effect_pushf = effect_pushf_pre [where P' = P and P = P for P]

text \<open>A sequence that does not touch memory or vector registers, and ends in a known state.\<close>

lemma effect_core:
  assumes "\<And>s. P s \<Longrightarrow> exec body s = Inr (f s) \<and> Q (f s) \<and> ymm (f s) = ymm s \<and> mem (f s) = mem s
      \<and> mapped (f s) = mapped s \<and> (\<forall>n. n \<notin> rs \<longrightarrow> gpr (f s) n = gpr s n) \<and> (fl \<or> flg (f s) = flg s)"
    and "4 \<notin> rs"
  shows "effect 0 rs fl P Q body"
  using assms by (intro effectI) (auto simp: keeps_def)

end
