(* ===== verification/Rewrite_Base.thy ===== *)
theory Rewrite_Base
  imports Machine_Rules
begin

text \<open>
  What the rewrite functions are measured against. \<open>astate\<close> is the state of an AVX-512
  machine as the application sees it; \<open>abs\<close> reads it off the AVX2 machine: the low half of
  \<open>zmm0\<close>-\<open>zmm15\<close> is the physical register, every other part of the vector registers and the
  mask registers \<open>k0\<close>-\<open>k7\<close> are in their spill slots. \<open>agree m\<close> compares two such states
  up to the \<open>m\<close> bytes below the stack pointer. The \<open>spec_\<close> functions are the reference
  results of the mask instructions, as the comments of the rewrite functions state them.
\<close>

section \<open>Results of rewrite functions\<close>

text \<open>
  A rewrite function returns the first instruction of a chain and may have removed the
  original from the list: \<open>Rw removed chain\<close>. It may return \<open>NULL_INSTR\<close> (\<open>RwNull removed\<close>)
  or an instruction it has already freed (\<open>RwFreed\<close>), or access an operand that is not
  there (\<open>RwCrash\<close>).
\<close>

datatype rw_result = Rw bool "instr list" | RwNull bool | RwFreed | RwCrash

section \<open>The application's view\<close>

record astate =
  azmm :: "nat \<Rightarrow> vec"
  ak :: "nat \<Rightarrow> 64 word"
  agpr :: "nat \<Rightarrow> 64 word"
  aflg :: eflags
  amem :: "64 word \<Rightarrow> byte"
  amapped :: "64 word \<Rightarrow> bool"

definition kslot :: "nat \<Rightarrow> nat" where "kslot k = 32 + 8 * k"

definition zslot :: "nat \<Rightarrow> nat" where "zslot z = 128 + 64 * z"

definition abs_zmm :: "mstate \<Rightarrow> nat \<Rightarrow> vec" where
  "abs_zmm s r i =
     (if r < 32 \<and> i < 64 then if r < 16 \<and> i < 32 then ymm s r i else tls s (zslot r + i) else 0)"

definition abs_k :: "mstate \<Rightarrow> nat \<Rightarrow> 64 word" where
  "abs_k s k = (if k < 8 then le 8 (tls_get (tls s) (kslot k)) else 0)"

definition abs_state :: "mstate \<Rightarrow> astate" where
  "abs_state s = \<lparr>azmm = abs_zmm s, ak = abs_k s, agpr = gpr s, aflg = flg s, amem = mem s,
     amapped = mapped s\<rparr>"

definition agree :: "nat \<Rightarrow> astate \<Rightarrow> astate \<Rightarrow> bool" where
  "agree m a b \<longleftrightarrow> azmm a = azmm b \<and> ak a = ak b \<and> agpr a = agpr b \<and> aflg a = aflg b
     \<and> amapped a = amapped b \<and> (\<forall>x. \<not> below (agpr b 4) m x \<longrightarrow> amem a x = amem b x)"

lemma agree_refl [simp]: "agree m a a"
  by (simp add: agree_def)

lemma agree_mono: "agree m a b \<Longrightarrow> m \<le> n \<Longrightarrow> agree n a b"
  by (auto simp: agree_def intro: below_mono)

text \<open>Setting a mask register.\<close>

definition set_k :: "nat \<Rightarrow> 64 word \<Rightarrow> astate \<Rightarrow> astate" where
  "set_k d v a = a\<lparr>ak := (ak a)(d := v)\<rparr>"

section \<open>Reference results of the mask instructions\<close>

text \<open>Operand width \<open>w\<close> in bits; bits from \<open>w\<close> upwards of the destination become 0.\<close>

definition spec_kand :: "nat \<Rightarrow> 64 word \<Rightarrow> 64 word \<Rightarrow> 64 word" where
  "spec_kand w a b = take_bit w (a AND b)"

definition spec_kandn :: "nat \<Rightarrow> 64 word \<Rightarrow> 64 word \<Rightarrow> 64 word" where
  "spec_kandn w a b = take_bit w (NOT a AND b)"

definition spec_kor :: "nat \<Rightarrow> 64 word \<Rightarrow> 64 word \<Rightarrow> 64 word" where
  "spec_kor w a b = take_bit w (a OR b)"

definition spec_kxnor :: "nat \<Rightarrow> 64 word \<Rightarrow> 64 word \<Rightarrow> 64 word" where
  "spec_kxnor w a b = take_bit w (NOT (a XOR b))"

definition spec_knot :: "nat \<Rightarrow> 64 word \<Rightarrow> 64 word" where
  "spec_knot w a = take_bit w (NOT a)"

definition spec_kunpck :: "nat \<Rightarrow> 64 word \<Rightarrow> 64 word \<Rightarrow> 64 word" where
  "spec_kunpck w a b = push_bit w (take_bit w a) OR take_bit w b"

definition spec_kshiftl :: "nat \<Rightarrow> nat \<Rightarrow> 64 word \<Rightarrow> 64 word" where
  "spec_kshiftl w c a = (if c < w then take_bit w (push_bit c a) else 0)"

definition spec_kshiftr :: "nat \<Rightarrow> nat \<Rightarrow> 64 word \<Rightarrow> 64 word" where
  "spec_kshiftr w c a = (if c < w then drop_bit c (take_bit w a) else 0)"

text \<open>\<open>kortest\<close>: only \<open>ZF\<close> and \<open>CF\<close> carry information; the others are cleared.\<close>

definition spec_kortest :: "nat \<Rightarrow> 64 word \<Rightarrow> 64 word \<Rightarrow> eflags" where
  "spec_kortest w a b = (let v = take_bit w (a OR b) in
     \<lparr>CF = (v = mask w), PF = False, AF = False, ZF = (v = 0), SF = False, OF = False\<rparr>)"

section \<open>Spill slots\<close>

abbreviation (input) K :: "nat \<Rightarrow> opnd" where "K k \<equiv> OReg (DR_REG_K0 + k)"

lemma TLS_K_idx_SLOT_reg [slot_simps]:
  "k < 8 \<Longrightarrow> TLS_K_idx_SLOT (TO_K_REG_INDEX (DR_REG_K0 + k)) = kslot k"
  by (simp add: TLS_K_idx_SLOT_def TO_K_REG_INDEX_def slot_simps to_ushort_def kslot_def nat_add_distrib nat_mult_distrib)

lemma src_dst_reg [simp]:
  "src_reg (Instr opc ds (OReg r # ss)) 0 = Some r"
  "src_reg (Instr opc ds (o1 # OReg r # ss)) (Suc 0) = Some r"
  "dst_reg (Instr opc (OReg r # ds) ss) 0 = Some r"
  by (simp_all add: src_reg_def dst_reg_def instr_get_src_def instr_get_dst_def)

section \<open>From effects to the application's view\<close>

lemma abs_k_put:
  assumes "d < 8" "n \<le> 8" "tls t = tls_put (tls s) (kslot d) n (byte_of v)"
  shows "abs_k t = (abs_k s)(d := set_low n (abs_k s d) v)"
proof
  fix k
  show "abs_k t k = ((abs_k s)(d := set_low n (abs_k s d) v)) k"
  proof (cases "k = d")
    case True
    then show ?thesis using assms le_get_put_low [of n 8 "tls s" "kslot d" v]
      by (simp add: abs_k_def)
  next
    case False
    then have "kslot k + 8 \<le> kslot d \<or> kslot d + n \<le> kslot k"
      using assms(2) by (auto simp: kslot_def)
    then show ?thesis using assms False by (simp add: abs_k_def le_get_put_disj)
  qed
qed

lemma abs_zmm_put_low:
  assumes "ymm t = ymm s" "tls t = tls_put (tls s) off n f" "off + n \<le> 128"
  shows "abs_zmm t = abs_zmm s"
  using assms by (auto simp: abs_zmm_def tls_put_def zslot_def fun_eq_iff)

text \<open>
  A sequence whose only lasting effect is to store \<open>n\<close> bytes to the slot of mask register
  \<open>d\<close> sets the low \<open>n\<close> bytes of that register and keeps its upper bytes.
\<close>

lemma effect_set_k:
  assumes e: "effect m {} False P (\<lambda>t. tls t = tls_put (tls s) (kslot d) n (byte_of v)) body"
    and d: "d < 8" "n \<le> 8" and s: "P s" "stack_room m s"
  shows "\<exists>t. exec body s = Inr t
    \<and> agree m (abs_state t) (set_k d (set_low n (ak (abs_state s) d) v) (abs_state s))"
proof -
  obtain t where t: "exec body s = Inr t" "tls t = tls_put (tls s) (kslot d) n (byte_of v)"
      "ymm t = ymm s" "\<And>k. gpr t k = gpr s k" "flg t = flg s" "keeps m s t"
    using effectD [OF e s] by auto
  have "gpr t = gpr s" using t(4) by auto
  moreover have "kslot d + n \<le> 128" using d by (simp add: kslot_def)
  ultimately have "agree m (abs_state t) (set_k d (set_low n (ak (abs_state s) d) v) (abs_state s))"
    using t d abs_k_put [OF d t(2)] abs_zmm_put_low [OF t(3) t(2)]
    by (auto simp: agree_def abs_state_def set_k_def keeps_def)
  then show ?thesis using t(1) by blast
qed

section \<open>A concrete state\<close>

text \<open>
  A state with given mask registers, everything else zero, the stack pointer at \<open>0x1000\<close>
  and the addresses satisfying \<open>mp\<close> mapped; the examples evaluate the theorems on it.
\<close>

definition sample :: "(64 word \<Rightarrow> bool) \<Rightarrow> 64 word list \<Rightarrow> mstate" where
  "sample mp ks =
     \<lparr>gpr = (\<lambda>_. 0)(4 := 0x1000),
      flg = \<lparr>CF = False, PF = False, AF = False, ZF = False, SF = False, OF = False\<rparr>,
      ymm = (\<lambda>_ _. 0),
      tls = (\<lambda>a. if 32 \<le> a \<and> a < 96 then byte_of (ks ! ((a - 32) div 8)) ((a - 32) mod 8) else 0),
      mem = (\<lambda>_. 0), mapped = mp, undef_bit = False\<rparr>"

lemma ak_sample: "k < 8 \<Longrightarrow> ak (abs_state (sample mp ks)) k = ks ! k"
proof -
  assume k: "k < 8"
  have "le 8 (tls_get (tls (sample mp ks)) (kslot k)) = (le 8 (byte_of (ks ! k)) :: 64 word)"
  proof (rule le_cong)
    fix i :: nat assume "i < 8"
    then have "(8 * k + i) div 8 = k" "(8 * k + i) mod 8 = i" by auto
    with k \<open>i < 8\<close> show "tls_get (tls (sample mp ks)) (kslot k) i = byte_of (ks ! k) i"
      by (simp add: tls_get_def sample_def kslot_def)
  qed
  then show ?thesis using k by (simp add: abs_state_def abs_k_def le_byte_of)
qed

lemma stack_room_sample [simp]: "stack_room m (sample (\<lambda>_. True) ks)"
  by (simp add: stack_room_def sample_def)

lemma sample_fields [simp]:
  "mapped (sample mp ks) = mp" "undef_bit (sample mp ks) = False" "gpr (sample mp ks) 4 = 0x1000"
  by (simp_all add: sample_def)

lemma aflg_sample [simp]:
  "aflg (abs_state (sample mp ks)) = \<lparr>CF = False, PF = False, AF = False, ZF = False, SF = False, OF = False\<rparr>"
  by (simp add: abs_state_def sample_def)

lemma witness_k:
  assumes "\<exists>chain t. r = Rw rm chain \<and> exec chain s = Inr t \<and> agree m (abs_state t) (set_k d v a)" "v = w"
  shows "\<exists>chain t. r = Rw rm chain \<and> exec chain s = Inr t \<and> ak (abs_state t) d = w"
  using assms unfolding agree_def set_k_def by force

end
