(* ===== verification/Mask_Logic.thy ===== *)
theory Mask_Logic
  imports Rewrite_Base
begin

text \<open>
  Rewriting of the mask logic instructions \<open>kand\<close>, \<open>kandn\<close>, \<open>kunpck\<close>, \<open>knot\<close>, \<open>kor\<close>,
  \<open>kxnor\<close>, \<open>kxor\<close> and \<open>kadd\<close> (\<open>core/arch/rewrite.c\<close>), in the four widths the
  architecture has. Each rewrite function is the emitted sequence, instruction by
  instruction, with the flag that tells whether the original instruction was removed from
  the list. The lemmas execute the sequences on the AVX2 machine and relate the mask
  register they leave in its slot to the reference result.
\<close>

section \<open>The rewrite functions\<close>

definition rw_func_kandw :: "instr \<Rightarrow> rw_result" where
  "rw_func_kandw i =
     (case (src_reg i 0, src_reg i 1, dst_reg i 0) of
        (Some input_mask1, Some input_mask2, Some output_mask) \<Rightarrow> Rw False
       [INSTR_CREATE_pushf,
        INSTR_CREATE_push (OReg DR_REG_RAX),
        INSTR_CREATE_push (OReg DR_REG_RBX),
        RESTORE_FROM_SIZED_TLS DR_REG_AX (TLS_K_idx_SLOT (TO_K_REG_INDEX input_mask1)) 2,
        RESTORE_FROM_SIZED_TLS DR_REG_BX (TLS_K_idx_SLOT (TO_K_REG_INDEX input_mask2)) 2,
        INSTR_CREATE_and (OReg DR_REG_AX) (OReg DR_REG_BX),
        SAVE_TO_SIZED_TLS DR_REG_AX (TLS_K_idx_SLOT (TO_K_REG_INDEX output_mask)) 2,
        INSTR_CREATE_pop (OReg DR_REG_RBX),
        INSTR_CREATE_pop (OReg DR_REG_RAX),
        INSTR_CREATE_popf]
      | _ \<Rightarrow> RwCrash)"

definition rw_func_kandb :: "instr \<Rightarrow> rw_result" where
  "rw_func_kandb i =
     (case (src_reg i 0, src_reg i 1, dst_reg i 0) of
        (Some input_mask1, Some input_mask2, Some output_mask) \<Rightarrow> Rw False
       [INSTR_CREATE_pushf,
        INSTR_CREATE_push (OReg DR_REG_RAX),
        INSTR_CREATE_push (OReg DR_REG_RBX),
        RESTORE_FROM_SIZED_TLS DR_REG_AL (TLS_K_idx_SLOT (TO_K_REG_INDEX input_mask1)) 1,
        RESTORE_FROM_SIZED_TLS DR_REG_BL (TLS_K_idx_SLOT (TO_K_REG_INDEX input_mask2)) 1,
        INSTR_CREATE_and (OReg DR_REG_AL) (OReg DR_REG_BL),
        SAVE_TO_SIZED_TLS DR_REG_AL (TLS_K_idx_SLOT (TO_K_REG_INDEX output_mask)) 1,
        INSTR_CREATE_pop (OReg DR_REG_RBX),
        INSTR_CREATE_pop (OReg DR_REG_RAX),
        INSTR_CREATE_popf]
      | _ \<Rightarrow> RwCrash)"

definition rw_func_kandq :: "instr \<Rightarrow> rw_result" where
  "rw_func_kandq i =
     (case (src_reg i 0, src_reg i 1, dst_reg i 0) of
        (Some input_mask1, Some input_mask2, Some output_mask) \<Rightarrow> Rw False
       [INSTR_CREATE_pushf,
        INSTR_CREATE_push (OReg DR_REG_RAX),
        INSTR_CREATE_push (OReg DR_REG_RBX),
        RESTORE_FROM_SIZED_TLS DR_REG_RAX (TLS_K_idx_SLOT (TO_K_REG_INDEX input_mask1)) 8,
        RESTORE_FROM_SIZED_TLS DR_REG_RBX (TLS_K_idx_SLOT (TO_K_REG_INDEX input_mask2)) 8,
        INSTR_CREATE_and (OReg DR_REG_RAX) (OReg DR_REG_RBX),
        SAVE_TO_SIZED_TLS DR_REG_RAX (TLS_K_idx_SLOT (TO_K_REG_INDEX output_mask)) 8,
        INSTR_CREATE_pop (OReg DR_REG_RBX),
        INSTR_CREATE_pop (OReg DR_REG_RAX),
        INSTR_CREATE_popf]
      | _ \<Rightarrow> RwCrash)"

definition rw_func_kandd :: "instr \<Rightarrow> rw_result" where
  "rw_func_kandd i =
     (case (src_reg i 0, src_reg i 1, dst_reg i 0) of
        (Some input_mask1, Some input_mask2, Some output_mask) \<Rightarrow> Rw False
       [INSTR_CREATE_pushf,
        INSTR_CREATE_push (OReg DR_REG_RAX),
        INSTR_CREATE_push (OReg DR_REG_RBX),
        RESTORE_FROM_SIZED_TLS DR_REG_EAX (TLS_K_idx_SLOT (TO_K_REG_INDEX input_mask1)) 4,
        RESTORE_FROM_SIZED_TLS DR_REG_EBX (TLS_K_idx_SLOT (TO_K_REG_INDEX input_mask2)) 4,
        INSTR_CREATE_and (OReg DR_REG_EAX) (OReg DR_REG_EBX),
        SAVE_TO_SIZED_TLS DR_REG_EAX (TLS_K_idx_SLOT (TO_K_REG_INDEX output_mask)) 4,
        INSTR_CREATE_pop (OReg DR_REG_RBX),
        INSTR_CREATE_pop (OReg DR_REG_RAX),
        INSTR_CREATE_popf]
      | _ \<Rightarrow> RwCrash)"

definition rw_func_kandnw :: "instr \<Rightarrow> rw_result" where
  "rw_func_kandnw i =
     (case (src_reg i 0, src_reg i 1, dst_reg i 0) of
        (Some input_mask1, Some input_mask2, Some output_mask) \<Rightarrow> Rw False
       [INSTR_CREATE_pushf,
        INSTR_CREATE_push (OReg DR_REG_RAX),
        INSTR_CREATE_push (OReg DR_REG_RBX),
        RESTORE_FROM_SIZED_TLS DR_REG_AX (TLS_K_idx_SLOT (TO_K_REG_INDEX input_mask1)) 2,
        RESTORE_FROM_SIZED_TLS DR_REG_BX (TLS_K_idx_SLOT (TO_K_REG_INDEX input_mask2)) 2,
        INSTR_CREATE_not (OReg DR_REG_AX),
        INSTR_CREATE_and (OReg DR_REG_AX) (OReg DR_REG_BX),
        SAVE_TO_SIZED_TLS DR_REG_AX (TLS_K_idx_SLOT (TO_K_REG_INDEX output_mask)) 2,
        INSTR_CREATE_pop (OReg DR_REG_RBX),
        INSTR_CREATE_pop (OReg DR_REG_RAX),
        INSTR_CREATE_popf]
      | _ \<Rightarrow> RwCrash)"

definition rw_func_kandnb :: "instr \<Rightarrow> rw_result" where
  "rw_func_kandnb i =
     (case (src_reg i 0, src_reg i 1, dst_reg i 0) of
        (Some input_mask1, Some input_mask2, Some output_mask) \<Rightarrow> Rw False
       [INSTR_CREATE_pushf,
        INSTR_CREATE_push (OReg DR_REG_RAX),
        INSTR_CREATE_push (OReg DR_REG_RBX),
        RESTORE_FROM_SIZED_TLS DR_REG_AL (TLS_K_idx_SLOT (TO_K_REG_INDEX input_mask1)) 1,
        RESTORE_FROM_SIZED_TLS DR_REG_BL (TLS_K_idx_SLOT (TO_K_REG_INDEX input_mask2)) 1,
        INSTR_CREATE_not (OReg DR_REG_AL),
        INSTR_CREATE_and (OReg DR_REG_AL) (OReg DR_REG_BL),
        SAVE_TO_SIZED_TLS DR_REG_AL (TLS_K_idx_SLOT (TO_K_REG_INDEX output_mask)) 1,
        INSTR_CREATE_pop (OReg DR_REG_RBX),
        INSTR_CREATE_pop (OReg DR_REG_RAX),
        INSTR_CREATE_popf]
      | _ \<Rightarrow> RwCrash)"

definition rw_func_kandnq :: "instr \<Rightarrow> rw_result" where
  "rw_func_kandnq i =
     (case (src_reg i 0, src_reg i 1, dst_reg i 0) of
        (Some input_mask1, Some input_mask2, Some output_mask) \<Rightarrow> Rw False
       [INSTR_CREATE_pushf,
        INSTR_CREATE_push (OReg DR_REG_RAX),
        INSTR_CREATE_push (OReg DR_REG_RBX),
        RESTORE_FROM_SIZED_TLS DR_REG_RAX (TLS_K_idx_SLOT (TO_K_REG_INDEX input_mask1)) 8,
        RESTORE_FROM_SIZED_TLS DR_REG_RBX (TLS_K_idx_SLOT (TO_K_REG_INDEX input_mask2)) 8,
        INSTR_CREATE_not (OReg DR_REG_RAX),
        INSTR_CREATE_and (OReg DR_REG_RAX) (OReg DR_REG_RBX),
        SAVE_TO_SIZED_TLS DR_REG_RAX (TLS_K_idx_SLOT (TO_K_REG_INDEX output_mask)) 8,
        INSTR_CREATE_pop (OReg DR_REG_RBX),
        INSTR_CREATE_pop (OReg DR_REG_RAX),
        INSTR_CREATE_popf]
      | _ \<Rightarrow> RwCrash)"

definition rw_func_kandnd :: "instr \<Rightarrow> rw_result" where
  "rw_func_kandnd i =
     (case (src_reg i 0, src_reg i 1, dst_reg i 0) of
        (Some input_mask1, Some input_mask2, Some output_mask) \<Rightarrow> Rw False
       [INSTR_CREATE_pushf,
        INSTR_CREATE_push (OReg DR_REG_RAX),
        INSTR_CREATE_push (OReg DR_REG_RBX),
        RESTORE_FROM_SIZED_TLS DR_REG_EAX (TLS_K_idx_SLOT (TO_K_REG_INDEX input_mask1)) 4,
        RESTORE_FROM_SIZED_TLS DR_REG_EBX (TLS_K_idx_SLOT (TO_K_REG_INDEX input_mask2)) 4,
        INSTR_CREATE_not (OReg DR_REG_EAX),
        INSTR_CREATE_and (OReg DR_REG_EAX) (OReg DR_REG_EBX),
        SAVE_TO_SIZED_TLS DR_REG_EAX (TLS_K_idx_SLOT (TO_K_REG_INDEX output_mask)) 4,
        INSTR_CREATE_pop (OReg DR_REG_RBX),
        INSTR_CREATE_pop (OReg DR_REG_RAX),
        INSTR_CREATE_popf]
      | _ \<Rightarrow> RwCrash)"

definition rw_func_kunpckbw :: "instr \<Rightarrow> rw_result" where
  "rw_func_kunpckbw i =
     (case (src_reg i 0, src_reg i 1, dst_reg i 0) of
        (Some input_mask1, Some input_mask2, Some output_mask) \<Rightarrow> Rw True
       [SAVE_TO_TLS DR_REG_RAX TLS_REG1_SLOT,
        SAVE_TO_TLS DR_REG_RCX TLS_REG3_SLOT,
        RESTORE_FROM_TLS DR_REG_RAX (TLS_K_idx_SLOT (TO_K_REG_INDEX input_mask1)),
        RESTORE_FROM_TLS DR_REG_RCX (TLS_K_idx_SLOT (TO_K_REG_INDEX input_mask2)),
        INSTR_CREATE_shl (OReg DR_REG_RAX) (OPND_CREATE_INT8 0x08),
        INSTR_CREATE_and (OReg DR_REG_RAX) (OPND_CREATE_INT32 0xff00),
        INSTR_CREATE_and (OReg DR_REG_RCX) (OPND_CREATE_INT32 0x00ff),
        INSTR_CREATE_or (OReg DR_REG_RCX) (OReg DR_REG_RAX),
        SAVE_TO_TLS DR_REG_RCX (TLS_K_idx_SLOT (TO_K_REG_INDEX output_mask)),
        RESTORE_FROM_TLS DR_REG_RCX TLS_REG3_SLOT,
        RESTORE_FROM_TLS DR_REG_RAX TLS_REG1_SLOT]
      | _ \<Rightarrow> RwCrash)"

definition rw_func_kunpckwd :: "instr \<Rightarrow> rw_result" where
  "rw_func_kunpckwd i =
     (case (src_reg i 0, src_reg i 1, dst_reg i 0) of
        (Some input_mask1, Some input_mask2, Some output_mask) \<Rightarrow> Rw True
       [SAVE_TO_TLS DR_REG_RAX TLS_REG1_SLOT,
        SAVE_TO_TLS DR_REG_RCX TLS_REG3_SLOT,
        SAVE_TO_TLS DR_REG_RDX TLS_REG2_SLOT,
        RESTORE_FROM_TLS DR_REG_RAX (TLS_K_idx_SLOT (TO_K_REG_INDEX input_mask1)),
        RESTORE_FROM_TLS DR_REG_RCX (TLS_K_idx_SLOT (TO_K_REG_INDEX input_mask2)),
        INSTR_CREATE_shl (OReg DR_REG_RAX) (OPND_CREATE_INT8 0x10),
        INSTR_CREATE_mov_imm (OReg DR_REG_RDX) (OPND_CREATE_INT64 0x00000000ffff0000),
        INSTR_CREATE_and (OReg DR_REG_RAX) (OReg DR_REG_RDX),
        INSTR_CREATE_mov_imm (OReg DR_REG_RDX) (OPND_CREATE_INT64 0x000000000000ffff),
        INSTR_CREATE_and (OReg DR_REG_RCX) (OReg DR_REG_RDX),
        INSTR_CREATE_or (OReg DR_REG_RCX) (OReg DR_REG_RAX),
        SAVE_TO_TLS DR_REG_RCX (TLS_K_idx_SLOT (TO_K_REG_INDEX output_mask)),
        RESTORE_FROM_TLS DR_REG_RDX TLS_REG2_SLOT,
        RESTORE_FROM_TLS DR_REG_RCX TLS_REG3_SLOT,
        RESTORE_FROM_TLS DR_REG_RAX TLS_REG1_SLOT]
      | _ \<Rightarrow> RwCrash)"

definition rw_func_kunpckdq :: "instr \<Rightarrow> rw_result" where
  "rw_func_kunpckdq i = RwNull False"

definition rw_func_knotw :: "instr \<Rightarrow> rw_result" where
  "rw_func_knotw i =
     (case (src_reg i 0, dst_reg i 0) of
        (Some input_mask, Some output_mask) \<Rightarrow> Rw True
       [INSTR_CREATE_pushf,
        INSTR_CREATE_push (OReg DR_REG_RAX),
        RESTORE_FROM_SIZED_TLS DR_REG_AX (TLS_K_idx_SLOT (TO_K_REG_INDEX input_mask)) 2,
        INSTR_CREATE_not (OReg DR_REG_AX),
        INSTR_CREATE_and (OReg DR_REG_AX) (OPND_CREATE_INT16 0xffff),
        SAVE_TO_SIZED_TLS DR_REG_AX (TLS_K_idx_SLOT (TO_K_REG_INDEX output_mask)) 2,
        INSTR_CREATE_pop (OReg DR_REG_RAX),
        INSTR_CREATE_popf]
      | _ \<Rightarrow> RwCrash)"

definition rw_func_knotb :: "instr \<Rightarrow> rw_result" where
  "rw_func_knotb i =
     (case (src_reg i 0, dst_reg i 0) of
        (Some input_mask, Some output_mask) \<Rightarrow> Rw True
       [INSTR_CREATE_pushf,
        INSTR_CREATE_push (OReg DR_REG_RAX),
        RESTORE_FROM_SIZED_TLS DR_REG_AL (TLS_K_idx_SLOT (TO_K_REG_INDEX input_mask)) 1,
        INSTR_CREATE_not (OReg DR_REG_AL),
        INSTR_CREATE_and (OReg DR_REG_AL) (OPND_CREATE_INT8 0xff),
        SAVE_TO_SIZED_TLS DR_REG_AL (TLS_K_idx_SLOT (TO_K_REG_INDEX output_mask)) 1,
        INSTR_CREATE_pop (OReg DR_REG_RAX),
        INSTR_CREATE_popf]
      | _ \<Rightarrow> RwCrash)"

definition rw_func_knotq :: "instr \<Rightarrow> rw_result" where
  "rw_func_knotq i =
     (case (src_reg i 0, dst_reg i 0) of
        (Some input_mask, Some output_mask) \<Rightarrow> Rw True
       [INSTR_CREATE_pushf,
        INSTR_CREATE_push (OReg DR_REG_RAX),
        RESTORE_FROM_SIZED_TLS DR_REG_RAX (TLS_K_idx_SLOT (TO_K_REG_INDEX input_mask)) 8,
        INSTR_CREATE_not (OReg DR_REG_RAX),
        SAVE_TO_SIZED_TLS DR_REG_RAX (TLS_K_idx_SLOT (TO_K_REG_INDEX output_mask)) 8,
        INSTR_CREATE_pop (OReg DR_REG_RAX),
        INSTR_CREATE_popf]
      | _ \<Rightarrow> RwCrash)"

definition rw_func_knotd :: "instr \<Rightarrow> rw_result" where
  "rw_func_knotd i =
     (case (src_reg i 0, dst_reg i 0) of
        (Some input_mask, Some output_mask) \<Rightarrow> Rw True
       [INSTR_CREATE_pushf,
        INSTR_CREATE_push (OReg DR_REG_RAX),
        RESTORE_FROM_SIZED_TLS DR_REG_EAX (TLS_K_idx_SLOT (TO_K_REG_INDEX input_mask)) 4,
        INSTR_CREATE_not (OReg DR_REG_EAX),
        INSTR_CREATE_and (OReg DR_REG_EAX) (OPND_CREATE_INT32 0xffffffff),
        SAVE_TO_SIZED_TLS DR_REG_EAX (TLS_K_idx_SLOT (TO_K_REG_INDEX output_mask)) 4,
        INSTR_CREATE_pop (OReg DR_REG_RAX),
        INSTR_CREATE_popf]
      | _ \<Rightarrow> RwCrash)"

definition rw_func_korw :: "instr \<Rightarrow> rw_result" where
  "rw_func_korw i =
     (case (src_reg i 0, src_reg i 1, dst_reg i 0) of
        (Some input_mask1, Some input_mask2, Some output_mask) \<Rightarrow> Rw True
       [INSTR_CREATE_pushf,
        INSTR_CREATE_push (OReg DR_REG_RAX),
        INSTR_CREATE_push (OReg DR_REG_RBX),
        RESTORE_FROM_SIZED_TLS DR_REG_AX (TLS_K_idx_SLOT (TO_K_REG_INDEX input_mask1)) 2,
        RESTORE_FROM_SIZED_TLS DR_REG_BX (TLS_K_idx_SLOT (TO_K_REG_INDEX input_mask2)) 2,
        INSTR_CREATE_or (OReg DR_REG_AX) (OReg DR_REG_BX),
        INSTR_CREATE_and (OReg DR_REG_AX) (OPND_CREATE_INT16 0xffff),
        SAVE_TO_SIZED_TLS DR_REG_AX (TLS_K_idx_SLOT (TO_K_REG_INDEX output_mask)) 2,
        INSTR_CREATE_pop (OReg DR_REG_RBX),
        INSTR_CREATE_pop (OReg DR_REG_RAX),
        INSTR_CREATE_popf]
      | _ \<Rightarrow> RwCrash)"

definition rw_func_korb :: "instr \<Rightarrow> rw_result" where
  "rw_func_korb i =
     (case (src_reg i 0, src_reg i 1, dst_reg i 0) of
        (Some input_mask1, Some input_mask2, Some output_mask) \<Rightarrow> Rw True
       [INSTR_CREATE_pushf,
        INSTR_CREATE_push (OReg DR_REG_RAX),
        INSTR_CREATE_push (OReg DR_REG_RBX),
        RESTORE_FROM_SIZED_TLS DR_REG_AL (TLS_K_idx_SLOT (TO_K_REG_INDEX input_mask1)) 1,
        RESTORE_FROM_SIZED_TLS DR_REG_BL (TLS_K_idx_SLOT (TO_K_REG_INDEX input_mask2)) 1,
        INSTR_CREATE_or (OReg DR_REG_AL) (OReg DR_REG_BL),
        INSTR_CREATE_and (OReg DR_REG_AL) (OPND_CREATE_INT8 0xff),
        SAVE_TO_SIZED_TLS DR_REG_AL (TLS_K_idx_SLOT (TO_K_REG_INDEX output_mask)) 1,
        INSTR_CREATE_pop (OReg DR_REG_RBX),
        INSTR_CREATE_pop (OReg DR_REG_RAX),
        INSTR_CREATE_popf]
      | _ \<Rightarrow> RwCrash)"

definition rw_func_korq :: "instr \<Rightarrow> rw_result" where
  "rw_func_korq i =
     (case (src_reg i 0, src_reg i 1, dst_reg i 0) of
        (Some input_mask1, Some input_mask2, Some output_mask) \<Rightarrow> Rw True
       [INSTR_CREATE_pushf,
        INSTR_CREATE_push (OReg DR_REG_RAX),
        INSTR_CREATE_push (OReg DR_REG_RBX),
        RESTORE_FROM_SIZED_TLS DR_REG_RAX (TLS_K_idx_SLOT (TO_K_REG_INDEX input_mask1)) 8,
        RESTORE_FROM_SIZED_TLS DR_REG_RBX (TLS_K_idx_SLOT (TO_K_REG_INDEX input_mask2)) 8,
        INSTR_CREATE_or (OReg DR_REG_RAX) (OReg DR_REG_RBX),
        SAVE_TO_SIZED_TLS DR_REG_RAX (TLS_K_idx_SLOT (TO_K_REG_INDEX output_mask)) 8,
        INSTR_CREATE_pop (OReg DR_REG_RBX),
        INSTR_CREATE_pop (OReg DR_REG_RAX),
        INSTR_CREATE_popf]
      | _ \<Rightarrow> RwCrash)"

definition rw_func_kord :: "instr \<Rightarrow> rw_result" where
  "rw_func_kord i =
     (case (src_reg i 0, src_reg i 1, dst_reg i 0) of
        (Some input_mask1, Some input_mask2, Some output_mask) \<Rightarrow> Rw True
       [INSTR_CREATE_pushf,
        INSTR_CREATE_push (OReg DR_REG_RAX),
        INSTR_CREATE_push (OReg DR_REG_RBX),
        RESTORE_FROM_SIZED_TLS DR_REG_EAX (TLS_K_idx_SLOT (TO_K_REG_INDEX input_mask1)) 4,
        RESTORE_FROM_SIZED_TLS DR_REG_EBX (TLS_K_idx_SLOT (TO_K_REG_INDEX input_mask2)) 4,
        INSTR_CREATE_or (OReg DR_REG_EAX) (OReg DR_REG_EBX),
        INSTR_CREATE_and (OReg DR_REG_EAX) (OPND_CREATE_INT32 0xffffffff),
        SAVE_TO_SIZED_TLS DR_REG_EAX (TLS_K_idx_SLOT (TO_K_REG_INDEX output_mask)) 4,
        INSTR_CREATE_pop (OReg DR_REG_RBX),
        INSTR_CREATE_pop (OReg DR_REG_RAX),
        INSTR_CREATE_popf]
      | _ \<Rightarrow> RwCrash)"

definition rw_func_kxnorw :: "instr \<Rightarrow> rw_result" where
  "rw_func_kxnorw i =
     (case (src_reg i 0, src_reg i 1, dst_reg i 0) of
        (Some src_reg1, Some src_reg2, Some dst_mask) \<Rightarrow>
          if src_reg1 = src_reg2 then Rw True
       [INSTR_CREATE_push (OReg DR_REG_RAX),
        INSTR_CREATE_mov_imm (OReg DR_REG_RAX) (OPND_CREATE_INT64 0x000000000000ffff),
        SAVE_TO_TLS DR_REG_RAX (TLS_K_idx_SLOT (TO_K_REG_INDEX dst_mask)),
        INSTR_CREATE_pop (OReg DR_REG_RAX)]
          else Rw True
       [INSTR_CREATE_push (OReg DR_REG_RAX),
        INSTR_CREATE_push (OReg DR_REG_RCX),
        INSTR_CREATE_pushf,
        RESTORE_FROM_SIZED_TLS DR_REG_RAX (TLS_K_idx_SLOT (TO_K_REG_INDEX src_reg1)) 8,
        RESTORE_FROM_SIZED_TLS DR_REG_RCX (TLS_K_idx_SLOT (TO_K_REG_INDEX src_reg2)) 8,
        INSTR_CREATE_xor (OReg DR_REG_RAX) (OReg DR_REG_RCX),
        INSTR_CREATE_not (OReg DR_REG_RAX),
        INSTR_CREATE_and (OReg DR_REG_RAX) (OPND_CREATE_INT32 0xFFFF),
        SAVE_TO_TLS DR_REG_RAX (TLS_K_idx_SLOT (TO_K_REG_INDEX dst_mask)),
        INSTR_CREATE_popf,
        INSTR_CREATE_pop (OReg DR_REG_RCX),
        INSTR_CREATE_pop (OReg DR_REG_RAX)]
      | _ \<Rightarrow> RwCrash)"

definition rw_func_kxnorb :: "instr \<Rightarrow> rw_result" where
  "rw_func_kxnorb i =
     (case (src_reg i 0, src_reg i 1, dst_reg i 0) of
        (Some src_reg1, Some src_reg2, Some dst_mask) \<Rightarrow>
          if src_reg1 = src_reg2 then Rw True
       [INSTR_CREATE_push (OReg DR_REG_RAX),
        INSTR_CREATE_mov_imm (OReg DR_REG_RAX) (OPND_CREATE_INT64 0x00000000000000ff),
        SAVE_TO_TLS DR_REG_RAX (TLS_K_idx_SLOT (TO_K_REG_INDEX dst_mask)),
        INSTR_CREATE_pop (OReg DR_REG_RAX)]
          else Rw True
       [INSTR_CREATE_push (OReg DR_REG_RAX),
        INSTR_CREATE_push (OReg DR_REG_RCX),
        INSTR_CREATE_pushf,
        RESTORE_FROM_SIZED_TLS DR_REG_RAX (TLS_K_idx_SLOT (TO_K_REG_INDEX src_reg1)) 8,
        RESTORE_FROM_SIZED_TLS DR_REG_RCX (TLS_K_idx_SLOT (TO_K_REG_INDEX src_reg2)) 8,
        INSTR_CREATE_xor (OReg DR_REG_RAX) (OReg DR_REG_RCX),
        INSTR_CREATE_not (OReg DR_REG_RAX),
        INSTR_CREATE_and (OReg DR_REG_RAX) (OPND_CREATE_INT32 0xFF),
        SAVE_TO_TLS DR_REG_RAX (TLS_K_idx_SLOT (TO_K_REG_INDEX dst_mask)),
        INSTR_CREATE_popf,
        INSTR_CREATE_pop (OReg DR_REG_RCX),
        INSTR_CREATE_pop (OReg DR_REG_RAX)]
      | _ \<Rightarrow> RwCrash)"

definition rw_func_kxnorq :: "instr \<Rightarrow> rw_result" where
  "rw_func_kxnorq i =
     (case (src_reg i 0, src_reg i 1, dst_reg i 0) of
        (Some src_reg1, Some src_reg2, Some dst_mask) \<Rightarrow>
          if src_reg1 = src_reg2 then Rw True
       [INSTR_CREATE_push (OReg DR_REG_RAX),
        INSTR_CREATE_mov_imm (OReg DR_REG_RAX) (OPND_CREATE_INT64 0xffffffffffffffff),
        SAVE_TO_TLS DR_REG_RAX (TLS_K_idx_SLOT (TO_K_REG_INDEX dst_mask)),
        INSTR_CREATE_pop (OReg DR_REG_RAX)]
          else Rw True
       [INSTR_CREATE_push (OReg DR_REG_RAX),
        INSTR_CREATE_push (OReg DR_REG_RCX),
        INSTR_CREATE_pushf,
        RESTORE_FROM_SIZED_TLS DR_REG_RAX (TLS_K_idx_SLOT (TO_K_REG_INDEX src_reg1)) 8,
        RESTORE_FROM_SIZED_TLS DR_REG_RCX (TLS_K_idx_SLOT (TO_K_REG_INDEX src_reg2)) 8,
        INSTR_CREATE_xor (OReg DR_REG_RAX) (OReg DR_REG_RCX),
        INSTR_CREATE_not (OReg DR_REG_RAX),
        SAVE_TO_TLS DR_REG_RAX (TLS_K_idx_SLOT (TO_K_REG_INDEX dst_mask)),
        INSTR_CREATE_popf,
        INSTR_CREATE_pop (OReg DR_REG_RCX),
        INSTR_CREATE_pop (OReg DR_REG_RAX)]
      | _ \<Rightarrow> RwCrash)"

definition rw_func_kxnord :: "instr \<Rightarrow> rw_result" where
  "rw_func_kxnord i =
     (case (src_reg i 0, src_reg i 1, dst_reg i 0) of
        (Some src_reg1, Some src_reg2, Some dst_mask) \<Rightarrow>
          if src_reg1 = src_reg2 then Rw True
       [INSTR_CREATE_push (OReg DR_REG_RAX),
        INSTR_CREATE_mov_imm (OReg DR_REG_RAX) (OPND_CREATE_INT64 0x00ffffffff),
        SAVE_TO_TLS DR_REG_RAX (TLS_K_idx_SLOT (TO_K_REG_INDEX src_reg1)),
        INSTR_CREATE_pop (OReg DR_REG_RAX)]
          else Rw False
       [INSTR_CREATE_push (OReg DR_REG_RAX),
        INSTR_CREATE_push (OReg DR_REG_RCX),
        INSTR_CREATE_pushf,
        RESTORE_FROM_SIZED_TLS DR_REG_RAX (TLS_K_idx_SLOT (TO_K_REG_INDEX src_reg1)) 8,
        RESTORE_FROM_SIZED_TLS DR_REG_RCX (TLS_K_idx_SLOT (TO_K_REG_INDEX src_reg2)) 8,
        INSTR_CREATE_xor (OReg DR_REG_RAX) (OReg DR_REG_RCX),
        INSTR_CREATE_not (OReg DR_REG_RAX),
        INSTR_CREATE_mov_imm (OReg DR_REG_RCX) (OPND_CREATE_INT64 0x00000000FFFFFFFF),
        INSTR_CREATE_and (OReg DR_REG_RAX) (OReg DR_REG_RCX),
        SAVE_TO_TLS DR_REG_RAX (TLS_K_idx_SLOT (TO_K_REG_INDEX dst_mask)),
        INSTR_CREATE_popf,
        INSTR_CREATE_pop (OReg DR_REG_RCX),
        INSTR_CREATE_pop (OReg DR_REG_RAX)]
      | _ \<Rightarrow> RwCrash)"

definition rw_func_kxorw :: "instr \<Rightarrow> rw_result" where
  "rw_func_kxorw i =
     (case (src_reg i 0, src_reg i 1, dst_reg i 0) of
        (Some input_mask1, Some input_mask2, Some output_mask) \<Rightarrow> Rw True
       [INSTR_CREATE_pushf,
        INSTR_CREATE_push (OReg DR_REG_RAX),
        RESTORE_FROM_SIZED_TLS DR_REG_AX (TLS_K_idx_SLOT (TO_K_REG_INDEX input_mask1)) 2,
        INSTR_CREATE_xor (OReg DR_REG_AX) (OPND_CREATE_MEM16 DR_REG_NULL (int (TLS_K_idx_SLOT (TO_K_REG_INDEX input_mask2)))),
        SAVE_TO_SIZED_TLS DR_REG_AX (TLS_K_idx_SLOT (TO_K_REG_INDEX output_mask)) 2,
        INSTR_CREATE_pop (OReg DR_REG_RAX),
        INSTR_CREATE_popf]
      | _ \<Rightarrow> RwCrash)"

definition rw_func_kxorb :: "instr \<Rightarrow> rw_result" where
  "rw_func_kxorb i =
     (case (src_reg i 0, src_reg i 1, dst_reg i 0) of
        (Some input_mask1, Some input_mask2, Some output_mask) \<Rightarrow> Rw True
       [INSTR_CREATE_pushf,
        INSTR_CREATE_push (OReg DR_REG_RAX),
        RESTORE_FROM_SIZED_TLS DR_REG_AL (TLS_K_idx_SLOT (TO_K_REG_INDEX input_mask1)) 1,
        INSTR_CREATE_xor (OReg DR_REG_AL) (OPND_CREATE_MEM8 DR_REG_NULL (int (TLS_K_idx_SLOT (TO_K_REG_INDEX input_mask2)))),
        SAVE_TO_SIZED_TLS DR_REG_AL (TLS_K_idx_SLOT (TO_K_REG_INDEX output_mask)) 1,
        INSTR_CREATE_pop (OReg DR_REG_RAX),
        INSTR_CREATE_popf]
      | _ \<Rightarrow> RwCrash)"

definition rw_func_kxorq :: "instr \<Rightarrow> rw_result" where
  "rw_func_kxorq i =
     (case (src_reg i 0, src_reg i 1, dst_reg i 0) of
        (Some input_mask1, Some input_mask2, Some output_mask) \<Rightarrow> Rw True
       [INSTR_CREATE_pushf,
        INSTR_CREATE_push (OReg DR_REG_RAX),
        RESTORE_FROM_SIZED_TLS DR_REG_RAX (TLS_K_idx_SLOT (TO_K_REG_INDEX input_mask1)) 8,
        INSTR_CREATE_xor (OReg DR_REG_RAX) (OPND_CREATE_MEM64 DR_REG_NULL (int (TLS_K_idx_SLOT (TO_K_REG_INDEX input_mask2)))),
        SAVE_TO_SIZED_TLS DR_REG_RAX (TLS_K_idx_SLOT (TO_K_REG_INDEX output_mask)) 8,
        INSTR_CREATE_pop (OReg DR_REG_RAX),
        INSTR_CREATE_popf]
      | _ \<Rightarrow> RwCrash)"

definition rw_func_kxord :: "instr \<Rightarrow> rw_result" where
  "rw_func_kxord i =
     (case (src_reg i 0, src_reg i 1, dst_reg i 0) of
        (Some input_mask1, Some input_mask2, Some output_mask) \<Rightarrow> Rw True
       [INSTR_CREATE_pushf,
        INSTR_CREATE_push (OReg DR_REG_RAX),
        RESTORE_FROM_SIZED_TLS DR_REG_EAX (TLS_K_idx_SLOT (TO_K_REG_INDEX input_mask1)) 4,
        INSTR_CREATE_xor (OReg DR_REG_EAX) (OPND_CREATE_MEM32 DR_REG_NULL (int (TLS_K_idx_SLOT (TO_K_REG_INDEX input_mask2)))),
        SAVE_TO_SIZED_TLS DR_REG_EAX (TLS_K_idx_SLOT (TO_K_REG_INDEX output_mask)) 4,
        INSTR_CREATE_pop (OReg DR_REG_RAX),
        INSTR_CREATE_popf]
      | _ \<Rightarrow> RwCrash)"

definition rw_func_kaddw :: "instr \<Rightarrow> rw_result" where
  "rw_func_kaddw i =
     (case (src_reg i 0, src_reg i 1, dst_reg i 0) of
        (Some input_mask1, Some input_mask2, Some output_mask) \<Rightarrow> Rw True
       [INSTR_CREATE_pushf,
        INSTR_CREATE_push (OReg DR_REG_RAX),
        RESTORE_FROM_SIZED_TLS DR_REG_AX (TLS_K_idx_SLOT (TO_K_REG_INDEX input_mask1)) 2,
        INSTR_CREATE_add (OReg DR_REG_AX) (OPND_CREATE_MEM16 DR_REG_NULL (int (TLS_K_idx_SLOT (TO_K_REG_INDEX input_mask2)))),
        SAVE_TO_SIZED_TLS DR_REG_AX (TLS_K_idx_SLOT (TO_K_REG_INDEX output_mask)) 2,
        INSTR_CREATE_pop (OReg DR_REG_RAX),
        INSTR_CREATE_popf]
      | _ \<Rightarrow> RwCrash)"

definition rw_func_kaddb :: "instr \<Rightarrow> rw_result" where
  "rw_func_kaddb i =
     (case (src_reg i 0, src_reg i 1, dst_reg i 0) of
        (Some input_mask1, Some input_mask2, Some output_mask) \<Rightarrow> Rw True
       [INSTR_CREATE_pushf,
        INSTR_CREATE_push (OReg DR_REG_RAX),
        RESTORE_FROM_SIZED_TLS DR_REG_AL (TLS_K_idx_SLOT (TO_K_REG_INDEX input_mask1)) 1,
        INSTR_CREATE_add (OReg DR_REG_AL) (OPND_CREATE_MEM8 DR_REG_NULL (int (TLS_K_idx_SLOT (TO_K_REG_INDEX input_mask2)))),
        SAVE_TO_SIZED_TLS DR_REG_AL (TLS_K_idx_SLOT (TO_K_REG_INDEX output_mask)) 1,
        INSTR_CREATE_pop (OReg DR_REG_RAX),
        INSTR_CREATE_popf]
      | _ \<Rightarrow> RwCrash)"

definition rw_func_kaddq :: "instr \<Rightarrow> rw_result" where
  "rw_func_kaddq i =
     (case (src_reg i 0, src_reg i 1, dst_reg i 0) of
        (Some input_mask1, Some input_mask2, Some output_mask) \<Rightarrow> Rw True
       [INSTR_CREATE_pushf,
        INSTR_CREATE_push (OReg DR_REG_RAX),
        RESTORE_FROM_SIZED_TLS DR_REG_RAX (TLS_K_idx_SLOT (TO_K_REG_INDEX input_mask1)) 8,
        INSTR_CREATE_add (OReg DR_REG_RAX) (OPND_CREATE_MEM64 DR_REG_NULL (int (TLS_K_idx_SLOT (TO_K_REG_INDEX input_mask2)))),
        SAVE_TO_SIZED_TLS DR_REG_RAX (TLS_K_idx_SLOT (TO_K_REG_INDEX output_mask)) 8,
        INSTR_CREATE_pop (OReg DR_REG_RAX),
        INSTR_CREATE_popf]
      | _ \<Rightarrow> RwCrash)"

definition rw_func_kaddd :: "instr \<Rightarrow> rw_result" where
  "rw_func_kaddd i =
     (case (src_reg i 0, src_reg i 1, dst_reg i 0) of
        (Some input_mask1, Some input_mask2, Some output_mask) \<Rightarrow> Rw True
       [INSTR_CREATE_pushf,
        INSTR_CREATE_push (OReg DR_REG_RAX),
        RESTORE_FROM_SIZED_TLS DR_REG_EAX (TLS_K_idx_SLOT (TO_K_REG_INDEX input_mask1)) 4,
        INSTR_CREATE_add (OReg DR_REG_EAX) (OPND_CREATE_MEM32 DR_REG_NULL (int (TLS_K_idx_SLOT (TO_K_REG_INDEX input_mask2)))),
        SAVE_TO_SIZED_TLS DR_REG_EAX (TLS_K_idx_SLOT (TO_K_REG_INDEX output_mask)) 4,
        INSTR_CREATE_pop (OReg DR_REG_RAX),
        INSTR_CREATE_popf]
      | _ \<Rightarrow> RwCrash)"

section \<open>Executing the sequences\<close>

text \<open>The two ways the sequences save the flags and their scratch registers.\<close>

lemma effect_saved1:
  assumes "effect 0 {0} True (\<lambda>u. tls u = \<sigma>) (\<lambda>t. tls t = \<tau>) core"
  shows "effect 16 {} False (\<lambda>u. tls u = \<sigma>) (\<lambda>t. tls t = \<tau>)
    (INSTR_CREATE_pushf # INSTR_CREATE_push (OReg DR_REG_RAX) # core
       @ [INSTR_CREATE_pop (OReg DR_REG_RAX), INSTR_CREATE_popf])"
  using effect_pushf [OF effect_push [OF assms, where r = DR_REG_RAX and k = 0]] by simp

lemma effect_saved2:
  assumes "effect 0 {0, 3} True (\<lambda>u. tls u = \<sigma>) (\<lambda>t. tls t = \<tau>) core"
  shows "effect 24 {} False (\<lambda>u. tls u = \<sigma>) (\<lambda>t. tls t = \<tau>)
    (INSTR_CREATE_pushf # INSTR_CREATE_push (OReg DR_REG_RAX) # INSTR_CREATE_push (OReg DR_REG_RBX) # core
       @ [INSTR_CREATE_pop (OReg DR_REG_RBX), INSTR_CREATE_pop (OReg DR_REG_RAX), INSTR_CREATE_popf])"
  using effect_pushf [OF effect_push [OF effect_push [OF assms, where r = DR_REG_RBX and k = 3],
        where r = DR_REG_RAX and k = 0]]
  by (simp add: insert_Diff_if)

lemma effect_saved_flags_inside:
  assumes "effect 0 {0, 1} True (\<lambda>u. tls u = \<sigma>) (\<lambda>t. tls t = \<tau>) core"
  shows "effect 24 {} False (\<lambda>u. tls u = \<sigma>) (\<lambda>t. tls t = \<tau>)
    (INSTR_CREATE_push (OReg DR_REG_RAX) # INSTR_CREATE_push (OReg DR_REG_RCX) # INSTR_CREATE_pushf # core
       @ [INSTR_CREATE_popf, INSTR_CREATE_pop (OReg DR_REG_RCX), INSTR_CREATE_pop (OReg DR_REG_RAX)])"
  using effect_push [OF effect_push [OF effect_pushf [OF assms], where r = DR_REG_RCX and k = 1],
        where r = DR_REG_RAX and k = 0]
  by (simp add: insert_Diff_if)

text \<open>The low bytes of a mask register, as loaded from its slot.\<close>

lemma le_slot: "k < 8 \<Longrightarrow> n \<le> 8 \<Longrightarrow> le n (tls_get (tls s) (kslot k)) = take_bit (8 * n) (abs_k s k)"
  by (rule bit_word_eqI) (auto simp: abs_k_def bit_simps)

lemma tls_put_take_bit: "8 * n \<le> m \<Longrightarrow> tls_put f off n (byte_of (take_bit m v)) = tls_put f off n (byte_of v)"
    for v :: "64 word"
  by (auto simp: tls_put_def fun_eq_iff bit_eq_iff bit_simps)

lemma tls_put_take_bit_and:
  "tls_put f off n (byte_of (take_bit (8 * n) v AND w)) = tls_put f off n (byte_of (v AND w))"
    for v w :: "64 word"
  by (auto simp: tls_put_def fun_eq_iff bit_eq_iff bit_simps)

lemmas tls_put_simps = tls_put_take_bit tls_put_take_bit_and

definition slot_val :: "nat \<Rightarrow> vec \<Rightarrow> nat \<Rightarrow> 64 word" where
  "slot_val n \<sigma> off = le n (tls_get \<sigma> off)"

lemma slot_val_kslot: "k < 8 \<Longrightarrow> n \<le> 8 \<Longrightarrow> slot_val n (tls s) (kslot k) = take_bit (8 * n) (abs_k s k)"
  by (simp add: slot_val_def le_slot)

lemma kand_core:
  assumes "gpart a 0 n" "gpart b 3 n"
  shows "effect 0 {0, 3} True (\<lambda>u. tls u = \<sigma>)
     (\<lambda>t. tls t = tls_put \<sigma> od n (byte_of (slot_val n \<sigma> o1 AND slot_val n \<sigma> o2)))
     [RESTORE_FROM_SIZED_TLS a o1 n, RESTORE_FROM_SIZED_TLS b o2 n,
      INSTR_CREATE_and (OReg a) (OReg b), SAVE_TO_SIZED_TLS a od n]"
  using assms
  by (intro effect_core) (auto simp: step_simps reg_simps take_bit_le tls_put_simps slot_val_def)

lemma kandn_core:
  assumes "gpart a 0 n" "gpart b 3 n"
  shows "effect 0 {0, 3} True (\<lambda>u. tls u = \<sigma>)
     (\<lambda>t. tls t = tls_put \<sigma> od n (byte_of (NOT (slot_val n \<sigma> o1) AND slot_val n \<sigma> o2)))
     [RESTORE_FROM_SIZED_TLS a o1 n, RESTORE_FROM_SIZED_TLS b o2 n, INSTR_CREATE_not (OReg a),
      INSTR_CREATE_and (OReg a) (OReg b), SAVE_TO_SIZED_TLS a od n]"
  using assms
  by (intro effect_core) (auto simp: step_simps reg_simps take_bit_le tls_put_simps slot_val_def)

lemma kor_core:
  assumes "gpart a 0 n" "gpart b 3 n"
  shows "effect 0 {0, 3} True (\<lambda>u. tls u = \<sigma>)
     (\<lambda>t. tls t = tls_put \<sigma> od n (byte_of (slot_val n \<sigma> o1 OR slot_val n \<sigma> o2)))
     [RESTORE_FROM_SIZED_TLS a o1 n, RESTORE_FROM_SIZED_TLS b o2 n,
      INSTR_CREATE_or (OReg a) (OReg b), SAVE_TO_SIZED_TLS a od n]"
  using assms
  by (intro effect_core) (auto simp: step_simps reg_simps take_bit_le tls_put_simps slot_val_def)

lemma knot_core:
  assumes "gpart a 0 n"
  shows "effect 0 {0} True (\<lambda>u. tls u = \<sigma>)
     (\<lambda>t. tls t = tls_put \<sigma> od n (byte_of (NOT (slot_val n \<sigma> o1))))
     [RESTORE_FROM_SIZED_TLS a o1 n, INSTR_CREATE_not (OReg a), SAVE_TO_SIZED_TLS a od n]"
  using assms
  by (intro effect_core) (auto simp: step_simps reg_simps take_bit_le tls_put_simps slot_val_def)

lemma set_low_slots:
  fixes x y :: "64 word"
  assumes "8 * n \<le> m"
  shows "set_low n old (take_bit m x AND take_bit m y) = set_low n old (x AND y)"
    and "set_low n old (NOT (take_bit m x) AND take_bit m y) = set_low n old (NOT x AND y)"
    and "set_low n old (take_bit m x OR take_bit m y) = set_low n old (x OR y)"
    and "set_low n old (NOT (take_bit m x)) = set_low n old (NOT x)"
  using assms by (auto intro!: bit_word_eqI simp: bit_simps)

lemma set_low_8 [simp]: "set_low 8 old v = v" for v :: "64 word"
  by (simp add: set_low_full)

text \<open>\<open>kxnor\<close> masks its result with an immediate, with a register, or not at all.\<close>

lemma kxnor_core_imm:
  assumes "gpart a 0 8" "gpart b 1 8" "immed_size_ok v 4"
  shows "effect 0 {0, 1} True (\<lambda>u. tls u = \<sigma>)
     (\<lambda>t. tls t = tls_put \<sigma> od 8
        (byte_of (NOT (slot_val 8 \<sigma> o1 XOR slot_val 8 \<sigma> o2) AND word_of_int v)))
     [RESTORE_FROM_SIZED_TLS a o1 8, RESTORE_FROM_SIZED_TLS b o2 8,
      INSTR_CREATE_xor (OReg a) (OReg b), INSTR_CREATE_not (OReg a),
      INSTR_CREATE_and (OReg a) (OImm v 4), SAVE_TO_TLS a od]"
  using assms
  by (intro effect_core) (auto simp: step_simps reg_simps take_bit_le tls_put_simps slot_val_def)

lemma kxnor_core_reg:
  assumes "gpart a 0 8" "gpart b 1 8"
  shows "effect 0 {0, 1} True (\<lambda>u. tls u = \<sigma>)
     (\<lambda>t. tls t = tls_put \<sigma> od 8
        (byte_of (NOT (slot_val 8 \<sigma> o1 XOR slot_val 8 \<sigma> o2) AND word_of_int v)))
     [RESTORE_FROM_SIZED_TLS a o1 8, RESTORE_FROM_SIZED_TLS b o2 8,
      INSTR_CREATE_xor (OReg a) (OReg b), INSTR_CREATE_not (OReg a),
      INSTR_CREATE_mov_imm (OReg b) (OImm v 8), INSTR_CREATE_and (OReg a) (OReg b), SAVE_TO_TLS a od]"
  using assms
  by (intro effect_core)
    (auto simp: step_simps reg_simps take_bit_le tls_put_simps slot_val_def immed_size_ok_def)

lemma kxnor_core:
  assumes "gpart a 0 8" "gpart b 1 8"
  shows "effect 0 {0, 1} True (\<lambda>u. tls u = \<sigma>)
     (\<lambda>t. tls t = tls_put \<sigma> od 8 (byte_of (NOT (slot_val 8 \<sigma> o1 XOR slot_val 8 \<sigma> o2))))
     [RESTORE_FROM_SIZED_TLS a o1 8, RESTORE_FROM_SIZED_TLS b o2 8,
      INSTR_CREATE_xor (OReg a) (OReg b), INSTR_CREATE_not (OReg a), SAVE_TO_TLS a od]"
  using assms
  by (intro effect_core) (auto simp: step_simps reg_simps take_bit_le tls_put_simps slot_val_def)

lemma kones_core:
  assumes "gpart a 0 8"
  shows "effect 0 {0} False (\<lambda>u. tls u = \<sigma>)
     (\<lambda>t. tls t = tls_put \<sigma> od 8 (byte_of (word_of_int v :: 64 word)))
     [INSTR_CREATE_mov_imm (OReg a) (OImm v 8), SAVE_TO_TLS a od]"
  using assms
  by (intro effect_core) (auto simp: step_simps reg_simps immed_size_ok_def)

lemma effect_saved_rax:
  assumes "effect 0 {0} False (\<lambda>u. tls u = \<sigma>) (\<lambda>t. tls t = \<tau>) core"
  shows "effect 8 {} False (\<lambda>u. tls u = \<sigma>) (\<lambda>t. tls t = \<tau>)
    (INSTR_CREATE_push (OReg DR_REG_RAX) # core @ [INSTR_CREATE_pop (OReg DR_REG_RAX)])"
  using effect_push [OF assms, where r = DR_REG_RAX and k = 0] by simp

section \<open>Correctness of the logic instructions\<close>

text \<open>The scratch registers of each width.\<close>

definition acc :: "nat \<Rightarrow> reg_id" where
  "acc n = (if n = 1 then DR_REG_AL else if n = 2 then DR_REG_AX else if n = 4 then DR_REG_EAX else DR_REG_RAX)"

definition bas :: "nat \<Rightarrow> reg_id" where
  "bas n = (if n = 1 then DR_REG_BL else if n = 2 then DR_REG_BX else if n = 4 then DR_REG_EBX else DR_REG_RBX)"

lemma gpart_acc: "n = 1 \<or> n = 2 \<or> n = 4 \<or> n = 8 \<Longrightarrow> gpart (acc n) 0 n"
  by (auto simp: acc_def)

lemma gpart_bas: "n = 1 \<or> n = 2 \<or> n = 4 \<or> n = 8 \<Longrightarrow> gpart (bas n) 3 n"
  by (auto simp: bas_def)

lemma rewrite_set_k:
  assumes "effect m {} False (\<lambda>u. tls u = tls s)
      (\<lambda>t. tls t = tls_put (tls s) (kslot d) n (byte_of v)) chain"
    and "d < 8" "n \<le> 8" "stack_room m s" "r = Rw rm chain" "m \<le> m'"
    and "set_low n (ak (abs_state s) d) v = w"
  shows "\<exists>chain t. r = Rw rm chain \<and> exec chain s = Inr t
     \<and> agree m' (abs_state t) (set_k d w (abs_state s))"
proof -
  obtain t where "exec chain s = Inr t" "agree m (abs_state t) (set_k d w (abs_state s))"
    using effect_set_k [OF assms(1-3) refl assms(4)] assms(7) by blast
  then show ?thesis using assms(5,6) agree_mono by blast
qed

lemma rewrite_set_low_iff:
  assumes "\<exists>chain t. r = Rw rm chain \<and> exec chain s = Inr t
     \<and> agree m (abs_state t) (set_k d (set_low n (ak (abs_state s) d) v) (abs_state s))"
    and "spec = take_bit (8 * n) v"
  shows "\<exists>chain t. r = Rw rm chain \<and> exec chain s = Inr t
     \<and> agree m (abs_state t) (set_k d (set_low n (ak (abs_state s) d) v) (abs_state s))
     \<and> (ak (abs_state t) d = spec \<longleftrightarrow> drop_bit (8 * n) (ak (abs_state s) d) = 0)"
proof -
  obtain chain t where t: "r = Rw rm chain" "exec chain s = Inr t"
      "agree m (abs_state t) (set_k d (set_low n (ak (abs_state s) d) v) (abs_state s))"
    using assms(1) by blast
  then have "ak (abs_state t) d = set_low n (ak (abs_state s) d) v" by (simp add: agree_def set_k_def)
  with t show ?thesis using assms(2) by (intro exI [of _ chain] exI [of _ t]) (simp add: set_low_eq_take_bit_iff)
qed

lemma witness_k_iff:
  assumes "\<exists>chain t. r = Rw rm chain \<and> exec chain s = Inr t \<and> agree m (abs_state t) (set_k d v a)
      \<and> (ak (abs_state t) d = spec \<longleftrightarrow> u = 0)" "v = w" "u \<noteq> 0" "spec = spec'"
  shows "\<exists>chain t. r = Rw rm chain \<and> exec chain s = Inr t \<and> ak (abs_state t) d = w \<and> ak (abs_state t) d \<noteq> spec'"
  using assms unfolding agree_def set_k_def by force

lemma kand_run:
  assumes "(f, n) \<in> set [(rw_func_kandw, 2), (rw_func_kandb, 1), (rw_func_kandq, 8), (rw_func_kandd, 4)]"
    and "d < 8" "k1 < 8" "k2 < 8" "stack_room 24 s"
  shows "\<exists>chain t. f (Instr opc [K d] [K k1, K k2]) = Rw False chain \<and> exec chain s = Inr t
     \<and> agree 24 (abs_state t) (set_k d
         (set_low n (ak (abs_state s) d) (ak (abs_state s) k1 AND ak (abs_state s) k2)) (abs_state s))
     \<and> (ak (abs_state t) d = spec_kand (8 * n) (ak (abs_state s) k1) (ak (abs_state s) k2)
          \<longleftrightarrow> drop_bit (8 * n) (ak (abs_state s) d) = 0)"
proof (rule rewrite_set_low_iff [OF _ spec_kand_def])
  have n: "n = 1 \<or> n = 2 \<or> n = 4 \<or> n = 8" and "n \<le> 8" using assms(1) by auto
  note core = effect_saved2 [OF kand_core [OF gpart_acc [OF n] gpart_bas [OF n]]]
  show "\<exists>chain t. f (Instr opc [K d] [K k1, K k2]) = Rw False chain \<and> exec chain s = Inr t
     \<and> agree 24 (abs_state t) (set_k d
         (set_low n (ak (abs_state s) d) (ak (abs_state s) k1 AND ak (abs_state s) k2)) (abs_state s))"
    using assms \<open>n \<le> 8\<close>
    by (intro rewrite_set_k [OF core])
      (auto simp: rw_func_kandw_def rw_func_kandb_def rw_func_kandq_def rw_func_kandd_def slot_simps
        acc_def bas_def slot_val_kslot set_low_slots abs_state_def)
qed



lemma kandn_run:
  assumes "(f, n) \<in> set [(rw_func_kandnw, 2), (rw_func_kandnb, 1), (rw_func_kandnq, 8), (rw_func_kandnd, 4)]"
    and "d < 8" "k1 < 8" "k2 < 8" "stack_room 24 s"
  shows "\<exists>chain t. f (Instr opc [K d] [K k1, K k2]) = Rw False chain \<and> exec chain s = Inr t
     \<and> agree 24 (abs_state t) (set_k d
         (set_low n (ak (abs_state s) d) (NOT (ak (abs_state s) k1) AND ak (abs_state s) k2)) (abs_state s))
     \<and> (ak (abs_state t) d = spec_kandn (8 * n) (ak (abs_state s) k1) (ak (abs_state s) k2)
          \<longleftrightarrow> drop_bit (8 * n) (ak (abs_state s) d) = 0)"
proof (rule rewrite_set_low_iff [OF _ spec_kandn_def])
  have n: "n = 1 \<or> n = 2 \<or> n = 4 \<or> n = 8" and "n \<le> 8" using assms(1) by auto
  note core = effect_saved2 [OF kandn_core [OF gpart_acc [OF n] gpart_bas [OF n]]]
  show "\<exists>chain t. f (Instr opc [K d] [K k1, K k2]) = Rw False chain \<and> exec chain s = Inr t
     \<and> agree 24 (abs_state t) (set_k d
         (set_low n (ak (abs_state s) d) (NOT (ak (abs_state s) k1) AND ak (abs_state s) k2)) (abs_state s))"
    using assms \<open>n \<le> 8\<close>
    by (intro rewrite_set_k [OF core])
      (auto simp: rw_func_kandnw_def rw_func_kandnb_def rw_func_kandnq_def rw_func_kandnd_def slot_simps
        acc_def bas_def slot_val_kslot set_low_slots abs_state_def)
qed

text \<open>
  C23. \<open>kand\<close> and \<open>kandn\<close> in every width run to their end and set the low bytes of the
  destination mask register to the conjunction of the sources, of the complement of the first
  for \<open>kandn\<close>, keeping the destination's upper bytes, every other mask and vector register, the
  general-purpose registers, the flags and the memory outside the 24 bytes below the stack
  pointer. The original instruction is left in the list. The destination is the documented
  result, with the upper bits cleared, if and only if its upper bits were clear before.
\<close>

theorem kand_rewrite:
  assumes "(f, n, op, spec) \<in> set
      [(rw_func_kandw, 2, (AND), spec_kand), (rw_func_kandb, 1, (AND), spec_kand), (rw_func_kandq, 8, (AND), spec_kand),
       (rw_func_kandd, 4, (AND), spec_kand), (rw_func_kandnw, 2, \<lambda>x y. NOT x AND y, spec_kandn),
       (rw_func_kandnb, 1, \<lambda>x y. NOT x AND y, spec_kandn), (rw_func_kandnq, 8, \<lambda>x y. NOT x AND y, spec_kandn),
       (rw_func_kandnd, 4, \<lambda>x y. NOT x AND y, spec_kandn)]"
    and "d < 8" "k1 < 8" "k2 < 8" "stack_room 24 s"
  shows "\<exists>chain t. f (Instr opc [K d] [K k1, K k2]) = Rw False chain \<and> exec chain s = Inr t
     \<and> agree 24 (abs_state t) (set_k d
         (set_low n (ak (abs_state s) d) (op (ak (abs_state s) k1) (ak (abs_state s) k2))) (abs_state s))
     \<and> (ak (abs_state t) d = spec (8 * n) (ak (abs_state s) k1) (ak (abs_state s) k2)
          \<longleftrightarrow> drop_bit (8 * n) (ak (abs_state s) d) = 0)"
proof -
  consider "(f, n) \<in> set [(rw_func_kandw, 2), (rw_func_kandb, 1), (rw_func_kandq, 8), (rw_func_kandd, 4)]" "op = (AND)" "spec = spec_kand"
    | "(f, n) \<in> set [(rw_func_kandnw, 2), (rw_func_kandnb, 1), (rw_func_kandnq, 8), (rw_func_kandnd, 4)]"
      "op = (\<lambda>x y. NOT x AND y)" "spec = spec_kandn"
    using assms(1) by auto
  then show ?thesis
    using kand_run [OF _ assms(2-5), of f n opc] kandn_run [OF _ assms(2-5), of f n opc] by cases (simp_all only:)
qed

theorem kand_rewrite_witness:
  "\<exists>chain t. rw_func_kandnb (Instr (OP_AVX512 481) [K 1] [K 2, K 3]) = Rw False chain
     \<and> exec chain (sample (\<lambda>_. True) [0, 0x1234ABCD, 0xF0, 0x3C, 0, 0, 0, 0]) = Inr t
     \<and> ak (abs_state t) 1 = 0x1234AB0C \<and> ak (abs_state t) 1 \<noteq> spec_kandn 8 0xF0 0x3C"
  by (rule witness_k_iff [OF kand_rewrite [where n = 1 and op = "\<lambda>x y. NOT x AND y" and spec = spec_kandn]])
    (simp_all add: ak_sample set_low_def mask_eq_exp_minus_1 drop_bit_eq_div)

lemma korq_knotq_run:
  assumes "d < 8" "k1 < 8" "k2 < 8" "stack_room 24 s"
  shows "(\<exists>chain t. rw_func_korq (Instr opc [K d] [K k1, K k2]) = Rw True chain \<and> exec chain s = Inr t
      \<and> agree 24 (abs_state t) (set_k d (spec_kor 64 (ak (abs_state s) k1) (ak (abs_state s) k2)) (abs_state s)))
    \<and> (\<exists>chain t. rw_func_knotq (Instr opc [K d] [K k1]) = Rw True chain \<and> exec chain s = Inr t
      \<and> agree 16 (abs_state t) (set_k d (spec_knot 64 (ak (abs_state s) k1)) (abs_state s)))"
    (is "?kor \<and> ?knot")
proof
  show ?kor
    using assms
    by (intro rewrite_set_k [OF effect_saved2 [OF kor_core [of DR_REG_RAX 8 DR_REG_RBX]]])
      (auto simp: rw_func_korq_def slot_simps slot_val_kslot abs_state_def spec_kor_def)
  show ?knot
    using assms stack_room_mono [of 24 s 16]
    by (intro rewrite_set_k [OF effect_saved1 [OF knot_core [of DR_REG_RAX 8]]])
      (auto simp: rw_func_knotq_def slot_simps slot_val_kslot abs_state_def spec_knot_def)
qed

text \<open>The immediates that mask the results of \<open>kxnor\<close>.\<close>

lemma immed_values:
  "OPND_CREATE_INT32 0xFFFF = OImm 0xFFFF 4" "OPND_CREATE_INT32 0xFF = OImm 0xFF 4"
  "OPND_CREATE_INT32 0xff00 = OImm 0xff00 4"
  "OPND_CREATE_INT64 0xFFFFFFFF = OImm 0xFFFFFFFF 8" "OPND_CREATE_INT64 0xFFFF = OImm 0xFFFF 8"
  "OPND_CREATE_INT64 0xFF = OImm 0xFF 8" "OPND_CREATE_INT64 0xffffffffffffffff = OImm (- 1) 8"
  "OPND_CREATE_INT64 0xffff0000 = OImm 0xffff0000 8"
  "OPND_CREATE_INT8 0x08 = OImm 8 1" "OPND_CREATE_INT8 0x10 = OImm 16 1"
  by (simp_all add: immed_defs)

lemma and_low_mask:
  "w AND 0xFF = take_bit 8 w" "w AND 0xFFFF = take_bit 16 w" "w AND 0xFFFFFFFF = take_bit 32 w"
    for w :: "64 word"
  by (simp_all add: take_bit_eq_mask mask_eq_exp_minus_1)

lemma kxnor_same: "spec_kxnor w a a = mask w"
  by (simp add: spec_kxnor_def)

lemma kxnor_same_effect:
  assumes "d < 8" "stack_room 24 s" "w = word_of_int v"
    and "r = Rw rm [INSTR_CREATE_push (OReg DR_REG_RAX),
      INSTR_CREATE_mov_imm (OReg DR_REG_RAX) (OImm v 8), SAVE_TO_TLS DR_REG_RAX (kslot d),
      INSTR_CREATE_pop (OReg DR_REG_RAX)]"
  shows "\<exists>chain t. r = Rw rm chain \<and> exec chain s = Inr t \<and> agree 24 (abs_state t) (set_k d w (abs_state s))"
  using assms stack_room_mono [of 24 s 8]
  by (intro rewrite_set_k [OF effect_saved_rax [OF kones_core [of DR_REG_RAX]]]) auto

lemma kxnor_diff_effect:
  assumes "d < 8" "k1 < 8" "k2 < 8" "k1 \<noteq> k2" "stack_room 24 s"
    and "(f, w, rm) \<in> set [(rw_func_kxnorw, 16, True), (rw_func_kxnorb, 8, True),
      (rw_func_kxnorq, 64, True), (rw_func_kxnord, 32, False)]"
  shows "\<exists>chain t. f (Instr opc [K d] [K k1, K k2]) = Rw rm chain \<and> exec chain s = Inr t
     \<and> agree 24 (abs_state t) (set_k d (spec_kxnor w (ak (abs_state s) k1) (ak (abs_state s) k2)) (abs_state s))"
proof -
  note regs = gpart_simps(1,2)
  note simps = slot_simps slot_val_kslot abs_state_def spec_kxnor_def immed_values and_low_mask
  consider "f = rw_func_kxnorw" "w = 16" "rm" | "f = rw_func_kxnorb" "w = 8" "rm"
    | "f = rw_func_kxnorq" "w = 64" "rm" | "f = rw_func_kxnord" "w = 32" "\<not> rm"
    using assms(6) by auto
  then show ?thesis
  proof cases
    case 1
    then show ?thesis using assms
      by (intro rewrite_set_k [OF effect_saved_flags_inside [OF kxnor_core_imm [OF regs, where v = "0xFFFF"]]])
        (auto simp: rw_func_kxnorw_def simps immed_size_ok_def)
  next
    case 2
    then show ?thesis using assms
      by (intro rewrite_set_k [OF effect_saved_flags_inside [OF kxnor_core_imm [OF regs, where v = "0xFF"]]])
        (auto simp: rw_func_kxnorb_def simps immed_size_ok_def)
  next
    case 3
    then show ?thesis using assms
      by (intro rewrite_set_k [OF effect_saved_flags_inside [OF kxnor_core [OF regs]]])
        (auto simp: rw_func_kxnorq_def simps)
  next
    case 4
    then show ?thesis using assms
      by (intro rewrite_set_k [OF effect_saved_flags_inside [OF kxnor_core_reg [OF regs, where v = "0xFFFFFFFF"]]])
        (auto simp: rw_func_kxnord_def simps)
  qed
qed

lemma kxnor_run:
  assumes "(f, w) \<in> set [(rw_func_kxnorw, 16), (rw_func_kxnorb, 8), (rw_func_kxnorq, 64)]"
    and "d < 8" "k1 < 8" "k2 < 8" "stack_room 24 s"
  shows "\<exists>chain t. f (Instr opc [K d] [K k1, K k2]) = Rw True chain \<and> exec chain s = Inr t
     \<and> agree 24 (abs_state t) (set_k d (spec_kxnor w (ak (abs_state s) k1) (ak (abs_state s) k2)) (abs_state s))"
proof (cases "k1 = k2")
  case True
  note simps = slot_simps immed_values kxnor_same mask_eq_exp_minus_1
  consider "f = rw_func_kxnorw" "w = 16" | "f = rw_func_kxnorb" "w = 8" | "f = rw_func_kxnorq" "w = 64"
    using assms(1) by auto
  then show ?thesis
  proof cases
    case 1
    then show ?thesis using assms True
      by (intro kxnor_same_effect [where v = "0xFFFF"]) (auto simp: rw_func_kxnorw_def simps)
  next
    case 2
    then show ?thesis using assms True
      by (intro kxnor_same_effect [where v = "0xFF"]) (auto simp: rw_func_kxnorb_def simps)
  next
    case 3
    then show ?thesis using assms True
      by (intro kxnor_same_effect [where v = "- 1"]) (auto simp: rw_func_kxnorq_def simps)
  qed
next
  case False
  then show ?thesis using assms by (intro kxnor_diff_effect) auto
qed

text \<open>
  C13. \<open>kxnorw\<close>, \<open>kxnorb\<close> and \<open>kxnorq\<close> remove the original and leave exactly the
  reference result in the destination, with the sources equal (a constant of ones is
  stored) or different, and change nothing else the application sees but the 24 bytes
  below its stack pointer.
\<close>

theorem kxnor_rewrite:
  assumes "(f, w) \<in> set [(rw_func_kxnorw, 16), (rw_func_kxnorb, 8), (rw_func_kxnorq, 64)]"
    and "d < 8" "k1 < 8" "k2 < 8" "stack_room 24 s"
  shows "\<exists>chain t. f (Instr opc [K d] [K k1, K k2]) = Rw True chain \<and> exec chain s = Inr t
     \<and> agree 24 (abs_state t) (set_k d (spec_kxnor w (ak (abs_state s) k1) (ak (abs_state s) k2)) (abs_state s))"
  using assms by (rule kxnor_run)

theorem kxnor_rewrite_witness:
  "\<exists>chain t. rw_func_kxnorw (Instr (OP_AVX512 495) [K 1] [K 2, K 3]) = Rw True chain
     \<and> exec chain (sample (\<lambda>_. True) [0, 0x1234ABCD, 0xFF00, 0xF0F0, 0, 0, 0, 0]) = Inr t
     \<and> ak (abs_state t) 1 = 0xF00F"
  by (rule witness_k [OF kxnor_rewrite [where w = 16]]) (simp_all add: ak_sample spec_kxnor_def)

lemma kxnord_run:
  assumes "d < 8" "k1 < 8" "k2 < 8" "stack_room 24 s"
  shows "\<exists>chain t. rw_func_kxnord (Instr opc [K d] [K k1, K k2]) = Rw (k1 = k2) chain \<and> exec chain s = Inr t
     \<and> agree 24 (abs_state t) (set_k (if k1 = k2 then k1 else d)
         (spec_kxnor 32 (ak (abs_state s) k1) (ak (abs_state s) k2)) (abs_state s))"
proof (cases "k1 = k2")
  case True
  then show ?thesis using assms
    by (intro kxnor_same_effect [where v = "0xFFFFFFFF"])
      (auto simp: rw_func_kxnord_def slot_simps immed_values kxnor_same mask_eq_exp_minus_1)
next
  case False
  then show ?thesis using assms kxnor_diff_effect [of d k1 k2 s rw_func_kxnord 32 False opc] by simp
qed

text \<open>
  C25. \<open>korq\<close> and \<open>knotq\<close> remove the original and leave exactly the reference result.
  \<open>kxnord\<close> with different sources leaves the reference result but keeps the original in the
  list; with equal sources it stores the constant to the \<^emph>\<open>source's\<close> slot, so that the
  destination keeps its old value unless it is that source.
\<close>

theorem korq_knotq_kxnord_rewrite:
  assumes "d < 8" "k1 < 8" "k2 < 8" "stack_room 24 s"
  shows "(\<exists>chain t. rw_func_korq (Instr opc [K d] [K k1, K k2]) = Rw True chain \<and> exec chain s = Inr t
      \<and> agree 24 (abs_state t) (set_k d (spec_kor 64 (ak (abs_state s) k1) (ak (abs_state s) k2)) (abs_state s)))
    \<and> (\<exists>chain t. rw_func_knotq (Instr opc [K d] [K k1]) = Rw True chain \<and> exec chain s = Inr t
      \<and> agree 16 (abs_state t) (set_k d (spec_knot 64 (ak (abs_state s) k1)) (abs_state s)))
    \<and> (\<exists>chain t. rw_func_kxnord (Instr opc [K d] [K k1, K k2]) = Rw (k1 = k2) chain \<and> exec chain s = Inr t
      \<and> agree 24 (abs_state t) (set_k (if k1 = k2 then k1 else d)
          (spec_kxnor 32 (ak (abs_state s) k1) (ak (abs_state s) k2)) (abs_state s)))"
  using korq_knotq_run [OF assms, of opc] kxnord_run [OF assms, of opc] by (simp only: conj_assoc [symmetric] simp_thms)

theorem korq_knotq_kxnord_rewrite_witness:
  "(\<exists>chain t. rw_func_korq (Instr (OP_AVX512 493) [K 1] [K 2, K 2]) = Rw True chain
      \<and> exec chain (sample (\<lambda>_. True) [0, 5, 0xF0, 0x0F, 0, 0, 0, 0]) = Inr t \<and> ak (abs_state t) 1 = 0xF0)
   \<and> (\<exists>chain t. rw_func_kxnord (Instr (OP_AVX512 493) [K 1] [K 2, K 2]) = Rw True chain
      \<and> exec chain (sample (\<lambda>_. True) [0, 5, 0xF0, 0x0F, 0, 0, 0, 0]) = Inr t \<and> ak (abs_state t) 2 = 0xFFFFFFFF)"
proof -
  note run = korq_knotq_kxnord_rewrite [of 1 2 2 "sample (\<lambda>_. True) [0, 5, 0xF0, 0x0F, 0, 0, 0, 0]" "OP_AVX512 493"]
  show ?thesis
    using witness_k [OF run [THEN conjunct1], OF _ _ _ _ refl] witness_k [OF run [THEN conjunct2, THEN conjunct2], OF _ _ _ _ refl]
    by (simp add: ak_sample spec_kor_def kxnor_same mask_eq_exp_minus_1)
qed


section \<open>Sequences that cannot run\<close>

lemma knot_kor_encoding:
  assumes "(f, i) \<in> set [(rw_func_knotw, Instr opc [K d] [K k1]), (rw_func_knotb, Instr opc [K d] [K k1]),
      (rw_func_knotd, Instr opc [K d] [K k1]), (rw_func_korw, Instr opc [K d] [K k1, K k2]),
      (rw_func_korb, Instr opc [K d] [K k1, K k2]), (rw_func_kord, Instr opc [K d] [K k1, K k2])]"
  shows "\<exists>chain. f i = Rw True chain \<and> \<not> list_all encodable chain"
  using assms
  by (auto simp: rw_func_knotw_def rw_func_knotb_def rw_func_knotd_def rw_func_korw_def rw_func_korb_def
      rw_func_kord_def create_defs immed_defs immed_size_ok_def gpr_size_def reg_part_def)

lemma step_abs_mem:
  assumes "gpart a 0 n" "\<not> mapped u (of_nat off)"
  shows "step (INSTR_CREATE_xor (OReg a) (OMem DR_REG_NULL DR_REG_NULL 0 (int off) n)) u = Trap PageFault"
    and "step (INSTR_CREATE_add (OReg a) (OMem DR_REG_NULL DR_REG_NULL 0 (int off) n)) u = Trap PageFault"
proof -
  have "\<not> mapped_range u (of_nat off) n"
    using assms gpart_gp_size [of a 0 n] by (auto simp: mapped_range_def list_all_iff intro!: bexI [of _ 0])
  moreover have "gpr_read u DR_REG_NULL = 0" by (simp add: gpr_read_def reg_part_def)
  ultimately show "step (INSTR_CREATE_xor (OReg a) (OMem DR_REG_NULL DR_REG_NULL 0 (int off) n)) u = Trap PageFault"
    and "step (INSTR_CREATE_add (OReg a) (OMem DR_REG_NULL DR_REG_NULL 0 (int off) n)) u = Trap PageFault"
    using assms gpart_gp_size [of a 0 n]
    by (simp_all add: step_def step_exec_def create_defs rm_ok_def gp_size_def gpart_size do_alu2_def ea_def)
qed

lemma exec_saved1_trap:
  assumes "stack_room 16 s" "gpart a 0 n" "\<And>u. mapped u = mapped s \<Longrightarrow> step i u = Trap f"
  shows "exec (INSTR_CREATE_pushf # INSTR_CREATE_push (OReg DR_REG_RAX)
      # RESTORE_FROM_SIZED_TLS a off n # i # rest) s = Inl f"
  using assms stack_room_pushed [of 8 s] push_word_room [of 8 s] push_word_room [of 0]
  by (simp add: step_pushf step_push_reg [OF gpart_simps(1), simplified] step_simps)

lemma kxor_kadd_run:
  assumes "f \<in> set [rw_func_kxorw, rw_func_kxorb, rw_func_kxorq, rw_func_kxord,
      rw_func_kaddw, rw_func_kaddb, rw_func_kaddq, rw_func_kaddd]"
    and "d < 8" "k1 < 8" "k2 < 8" "stack_room 16 s" "\<not> mapped s (of_nat (kslot k2))"
  shows "\<exists>chain. f (Instr opc [K d] [K k1, K k2]) = Rw True chain \<and> exec chain s = Inl PageFault"
  using assms
  by (auto simp: rw_func_kxorw_def rw_func_kxorb_def rw_func_kxorq_def rw_func_kxord_def
      rw_func_kaddw_def rw_func_kaddb_def rw_func_kaddq_def rw_func_kaddd_def slot_simps
      OPND_CREATE_MEM8_def OPND_CREATE_MEM16_def OPND_CREATE_MEM32_def OPND_CREATE_MEM64_def
      step_abs_mem simp del: exec.simps intro!: exec_saved1_trap [unfolded One_nat_def])

text \<open>
  C27. Mask operations whose sequence cannot run. \<open>kxor\<close> and \<open>kadd\<close>, in every width, address
  the second source by its slot's offset without the TLS segment, so the sequence faults
  whenever that absolute address is not mapped, as it is not in a process whose first page is
  unmapped. The sequences of \<open>knot\<close> and \<open>kor\<close> for 8, 16 and 32 bits mask their result with an
  immediate of ones that does not fit its size as a signed number: they contain an
  instruction the encoder has no encoding for.
\<close>

theorem mask_logic_failures:
  assumes "f \<in> set [rw_func_kxorw, rw_func_kxorb, rw_func_kxorq, rw_func_kxord,
      rw_func_kaddw, rw_func_kaddb, rw_func_kaddq, rw_func_kaddd]"
    and "(g, i) \<in> set [(rw_func_knotw, Instr opc [K d] [K k1]), (rw_func_knotb, Instr opc [K d] [K k1]),
      (rw_func_knotd, Instr opc [K d] [K k1]), (rw_func_korw, Instr opc [K d] [K k1, K k2]),
      (rw_func_korb, Instr opc [K d] [K k1, K k2]), (rw_func_kord, Instr opc [K d] [K k1, K k2])]"
    and "d < 8" "k1 < 8" "k2 < 8" "stack_room 16 s" "\<not> mapped s (of_nat (kslot k2))"
  shows "(\<exists>chain. f (Instr opc [K d] [K k1, K k2]) = Rw True chain \<and> exec chain s = Inl PageFault)
    \<and> (\<exists>chain. g i = Rw True chain \<and> \<not> list_all encodable chain)"
  using kxor_kadd_run [OF assms(1,3-7)] knot_kor_encoding [OF assms(2)] by (rule conjI)

theorem mask_logic_failures_witness:
  "(\<exists>chain. rw_func_kxorw (Instr (OP_AVX512 499) [K 1] [K 2, K 3]) = Rw True chain
     \<and> exec chain (sample (\<lambda>x. 0x400 \<le> x) [0, 0, 0, 0, 0, 0, 0, 0]) = Inl PageFault)
   \<and> (\<exists>chain. rw_func_korw (Instr (OP_AVX512 499) [K 1] [K 2, K 3]) = Rw True chain \<and> \<not> list_all encodable chain)"
proof -
  have "stack_room 16 (sample (\<lambda>x. 0x400 \<le> x) [0, 0, 0, 0, 0, 0, 0, 0])"
    unfolding stack_room_def below_def
  proof (intro allI impI)
    fix x :: "64 word" assume "unat (gpr (sample (\<lambda>x. 0x400 \<le> x) [0, 0, 0, 0, 0, 0, 0, 0]) 4 - 1 - x) < 16"
    then have "0xFFF - x < 16" by (simp add: word_less_nat_alt)
    then have "0x400 \<le> x" by (simp add: word_le_nat_alt word_less_nat_alt unat_sub_if_size word_size split: if_splits)
    then show "mapped (sample (\<lambda>x. 0x400 \<le> x) [0, 0, 0, 0, 0, 0, 0, 0]) x" by simp
  qed
  then show ?thesis
    using mask_logic_failures [of rw_func_kxorw rw_func_korw "Instr (OP_AVX512 499) [K 1] [K 2, K 3]" "OP_AVX512 499" 1 2 3 "sample (\<lambda>x. 0x400 \<le> x) [0, 0, 0, 0, 0, 0, 0, 0]"]
    by (simp add: kslot_def del: exec.simps)
qed


section \<open>Interleaving masks\<close>

text \<open>Slots that are saved first and restored last.\<close>

lemma abs_k_scratch:
  assumes "off + n \<le> 32" "tls t = tls_put (tls s) off n f"
  shows "abs_k t = abs_k s"
proof
  fix k
  have "kslot k \<ge> 32" by (simp add: kslot_def)
  then show "abs_k t k = abs_k s k" using assms by (simp add: abs_k_def le_get_put_disj)
qed

lemma le8_restored:
  assumes "off' + 8 \<le> off \<or> off + 8 \<le> off'"
  shows "le 8 (tls_get (tls_put (tls_put f off' 8 (byte_of w)) off 8 g) off') = (w :: 64 word)"
  using assms by (simp add: le_get_put_disj le_get_put_same le_byte_of)

lemma kunpckbw_core:
  assumes "gpart a 0 8" "gpart b 1 8" "32 \<le> o1" "32 \<le> o2" "32 \<le> od"
    and v: "v = (slot_val 8 (tls s) o2 AND 0xff) OR (push_bit 8 (slot_val 8 (tls s) o1) AND 0xff00)"
  shows "\<exists>t. exec [SAVE_TO_TLS a 8, SAVE_TO_TLS b 24, RESTORE_FROM_TLS a o1, RESTORE_FROM_TLS b o2,
      INSTR_CREATE_shl (OReg a) (OImm 8 1), INSTR_CREATE_and (OReg a) (OImm 0xff00 4),
      INSTR_CREATE_and (OReg b) (OImm 0xff 4), INSTR_CREATE_or (OReg b) (OReg a), SAVE_TO_TLS b od,
      RESTORE_FROM_TLS b 24, RESTORE_FROM_TLS a 8] s = Inr t
    \<and> tls t = tls_put (tls_put (tls_put (tls s) 8 8 (byte_of (gpr s 0))) 24 8 (byte_of (gpr s 1))) od 8 (byte_of v)
    \<and> (\<forall>k. gpr t k = gpr s k) \<and> ymm t = ymm s \<and> mem t = mem s \<and> mapped t = mapped s
    \<and> flg t = logic_flags (undef_bit s) 8 v"
proof -
  have base: "gpr_read s a = gpr s 0" "gpr_read s b = gpr s 1"
    using assms(1,2) by (simp_all add: gpr_read_gpart)
  have other: "gpr (gpr_write (gpr_write u b (gpr s (Suc 0))) a (gpr s 0)) k = gpr s k"
    if "\<And>j. j \<noteq> 0 \<Longrightarrow> j \<noteq> Suc 0 \<Longrightarrow> gpr u j = gpr s j" for u k
    using that [of k] assms(1,2) by (simp add: gpr_write_gpart put_part_def)
  show ?thesis
    using assms
    by (simp add: step_simps reg_simps immed_size_ok_def le_get_put_disj le_get_put_same le_byte_of base other
        imm_count_nonneg slot_val_def take_bit_le flg_alu_write)
qed

lemma kunpckwd_core:
  assumes "gpart a 0 8" "gpart b 1 8" "gpart c 2 8" "32 \<le> o1" "32 \<le> o2" "32 \<le> od"
    and v: "v = (slot_val 8 (tls s) o2 AND 0xffff) OR (push_bit 16 (slot_val 8 (tls s) o1) AND 0xffff0000)"
  shows "\<exists>t. exec [SAVE_TO_TLS a 8, SAVE_TO_TLS b 24, SAVE_TO_TLS c 16, RESTORE_FROM_TLS a o1,
      RESTORE_FROM_TLS b o2, INSTR_CREATE_shl (OReg a) (OImm 16 1),
      INSTR_CREATE_mov_imm (OReg c) (OImm 0xffff0000 8), INSTR_CREATE_and (OReg a) (OReg c),
      INSTR_CREATE_mov_imm (OReg c) (OImm 0xffff 8), INSTR_CREATE_and (OReg b) (OReg c),
      INSTR_CREATE_or (OReg b) (OReg a), SAVE_TO_TLS b od,
      RESTORE_FROM_TLS c 16, RESTORE_FROM_TLS b 24, RESTORE_FROM_TLS a 8] s = Inr t
    \<and> tls t = tls_put (tls_put (tls_put (tls_put (tls s) 8 8 (byte_of (gpr s 0))) 24 8 (byte_of (gpr s 1)))
        16 8 (byte_of (gpr s 2))) od 8 (byte_of v)
    \<and> (\<forall>k. gpr t k = gpr s k) \<and> ymm t = ymm s \<and> mem t = mem s \<and> mapped t = mapped s
    \<and> flg t = logic_flags (undef_bit s) 8 v"
proof -
  have base: "gpr_read s a = gpr s 0" "gpr_read s b = gpr s 1" "gpr_read s c = gpr s 2"
    using assms(1-3) by (simp_all add: gpr_read_gpart)
  have other: "gpr (gpr_write (gpr_write (gpr_write u c (gpr s 2)) b (gpr s (Suc 0))) a (gpr s 0)) k = gpr s k"
    if "\<And>j. j \<noteq> 0 \<Longrightarrow> j \<noteq> Suc 0 \<Longrightarrow> j \<noteq> 2 \<Longrightarrow> gpr u j = gpr s j" for u k
    using that [of k] assms(1-3) by (simp add: gpr_write_gpart put_part_def)
  show ?thesis
    using assms
    by (simp add: step_simps reg_simps immed_size_ok_def le_get_put_disj le_get_put_same le_byte_of base other
        imm_count_nonneg slot_val_def take_bit_le flg_alu_write)
qed

lemma spec_kunpck_masks:
  "(b AND 0xff) OR (push_bit 8 a AND 0xff00) = spec_kunpck 8 a b"
  "(b AND 0xffff) OR (push_bit 16 a AND 0xffff0000) = spec_kunpck 16 a b"
proof -
  have "push_bit 8 a AND 0xff00 = push_bit 8 (a AND 0xff)"
    and "push_bit 16 a AND 0xffff0000 = push_bit 16 (a AND 0xffff)" by simp_all
  then show "(b AND 0xff) OR (push_bit 8 a AND 0xff00) = spec_kunpck 8 a b"
    and "(b AND 0xffff) OR (push_bit 16 a AND 0xffff0000) = spec_kunpck 16 a b"
    by (simp_all add: spec_kunpck_def and_low_mask or.commute)
qed

lemma kunpck_view:
  assumes "tls t = tls_put \<tau> (kslot d) 8 (byte_of v)" "abs_k (s\<lparr>tls := \<tau>\<rparr>) = abs_k s"
    and "abs_zmm (s\<lparr>tls := \<tau>\<rparr>) = abs_zmm s" "d < 8" "\<forall>k. gpr t k = gpr s k" "ymm t = ymm s"
    and "mem t = mem s" "mapped t = mapped s" "flg t = f"
  shows "agree 0 (abs_state t) ((set_k d v (abs_state s))\<lparr>aflg := f\<rparr>)"
proof -
  have "gpr t = gpr s" using assms(5) by auto
  moreover have "abs_k t = (abs_k s)(d := v)"
    using abs_k_put [of d 8 t "s\<lparr>tls := \<tau>\<rparr>" v] assms by simp
  moreover have "kslot d + 8 \<le> 128" using assms(4) by (simp add: kslot_def)
  then have "abs_zmm t = abs_zmm s"
    using abs_zmm_put_low [of t "s\<lparr>tls := \<tau>\<rparr>" "kslot d" 8 "byte_of v"] assms by simp
  ultimately show ?thesis using assms by (simp add: agree_def abs_state_def set_k_def)
qed

lemma scratch_view:
  assumes "off + 8 \<le> 32" "abs_k (s\<lparr>tls := \<tau>\<rparr>) = abs_k s" "abs_zmm (s\<lparr>tls := \<tau>\<rparr>) = abs_zmm s"
  shows "abs_k (s\<lparr>tls := tls_put \<tau> off 8 f\<rparr>) = abs_k s" "abs_zmm (s\<lparr>tls := tls_put \<tau> off 8 f\<rparr>) = abs_zmm s"
  using assms abs_k_scratch [of off 8 "s\<lparr>tls := tls_put \<tau> off 8 f\<rparr>" "s\<lparr>tls := \<tau>\<rparr>" f]
    abs_zmm_put_low [of "s\<lparr>tls := tls_put \<tau> off 8 f\<rparr>" "s\<lparr>tls := \<tau>\<rparr>" off 8 f]
  by simp_all

lemma kunpck_agree:
  assumes "\<exists>t. exec chain s = Inr t \<and> tls t = tls_put \<tau> (kslot d) 8 (byte_of v)
      \<and> (\<forall>k. gpr t k = gpr s k) \<and> ymm t = ymm s \<and> mem t = mem s \<and> mapped t = mapped s \<and> flg t = f"
    and "abs_k (s\<lparr>tls := \<tau>\<rparr>) = abs_k s" "abs_zmm (s\<lparr>tls := \<tau>\<rparr>) = abs_zmm s" "d < 8" "r = Rw True chain"
  shows "\<exists>chain t. r = Rw True chain \<and> exec chain s = Inr t
      \<and> agree 0 (abs_state t) ((set_k d v (abs_state s))\<lparr>aflg := f\<rparr>)"
  using assms kunpck_view [of _ \<tau> d v s f] by blast

text \<open>
  C26. \<open>kunpckbw\<close> and \<open>kunpckwd\<close> remove the original and leave the reference result,
  using spill slots and no stack; the application's flags are not saved and end up as
  those of the last \<open>or\<close>.
\<close>

theorem kunpck_rewrite:
  assumes "(f, w) \<in> set [(rw_func_kunpckbw, 8), (rw_func_kunpckwd, 16)]"
    and "d < 8" "k1 < 8" "k2 < 8"
    and v: "v = spec_kunpck w (ak (abs_state s) k1) (ak (abs_state s) k2)"
  shows "\<exists>chain t. f (Instr opc [K d] [K k1, K k2]) = Rw True chain \<and> exec chain s = Inr t
     \<and> agree 0 (abs_state t) ((set_k d v (abs_state s))\<lparr>aflg := logic_flags (undef_bit s) 8 v\<rparr>)"
proof -
  have ge: "32 \<le> kslot k" for k by (simp add: kslot_def)
  have sl: "slot_val 8 (tls s) (kslot k) = ak (abs_state s) k" if "k < 8" for k
    using that by (simp add: slot_val_kslot abs_state_def)
  consider "f = rw_func_kunpckbw" "w = 8" | "f = rw_func_kunpckwd" "w = 16" using assms(1) by auto
  then show ?thesis
  proof cases
    case 1
    then have "v = (slot_val 8 (tls s) (kslot k2) AND 0xff) OR (push_bit 8 (slot_val 8 (tls s) (kslot k1)) AND 0xff00)"
      using assms by (simp only: sl spec_kunpck_masks)
    note core = kunpckbw_core [OF gpart_simps(1,2) ge [of k1] ge [of k2] ge [of d] this]
    show ?thesis using 1 assms(2-4)
      by (intro kunpck_agree [OF core]) (auto simp: rw_func_kunpckbw_def slot_simps immed_values intro!: scratch_view)
  next
    case 2
    then have "v = (slot_val 8 (tls s) (kslot k2) AND 0xffff) OR (push_bit 16 (slot_val 8 (tls s) (kslot k1)) AND 0xffff0000)"
      using assms by (simp only: sl spec_kunpck_masks)
    note core = kunpckwd_core [OF gpart_simps(1-3) ge [of k1] ge [of k2] ge [of d] this]
    show ?thesis using 2 assms(2-4)
      by (intro kunpck_agree [OF core]) (auto simp: rw_func_kunpckwd_def slot_simps immed_values intro!: scratch_view)
  qed
qed

theorem kunpck_rewrite_witness:
  "\<exists>chain t. rw_func_kunpckbw (Instr (OP_AVX512 484) [K 1] [K 2, K 3]) = Rw True chain
     \<and> exec chain (sample (\<lambda>_. True) [0, 0x77, 0x1AB, 0x2CD, 0, 0, 0, 0]) = Inr t
     \<and> ak (abs_state t) 1 = 0xABCD \<and> SF (aflg (abs_state t)) = False"
  using kunpck_rewrite [of rw_func_kunpckbw 8 1 2 3 "0xABCD" "sample (\<lambda>_. True) [0, 0x77, 0x1AB, 0x2CD, 0, 0, 0, 0]" "OP_AVX512 484"]
  by (auto simp: ak_sample spec_kunpck_def agree_def set_k_def logic_flags_def top_bit_def simp del: exec.simps)

end
