(* ===== verification/Mask_Shift_Test.thy ===== *)
theory Mask_Shift_Test
  imports Mask_Logic
begin

text \<open>
  Rewriting of the mask shifts \<open>kshiftl\<close> and \<open>kshiftr\<close> and of the mask tests \<open>kortest\<close>
  and \<open>ktest\<close> (\<open>core/arch/rewrite.c\<close>). The shifts are specialised on the immediate count
  when they are rewritten; \<open>kortestw\<close> and \<open>kortestb\<close> branch on the mask when they run.
\<close>

section \<open>The rewrite functions\<close>

text \<open>The three labels of a \<open>kortest\<close> sequence are created afresh for each instruction.\<close>

definition rw_func_kortestw :: "nat \<Rightarrow> nat \<Rightarrow> nat \<Rightarrow> instr \<Rightarrow> rw_result" where
  "rw_func_kortestw l_zero l_ffff l_done i =
     (case (src_reg i 0, dst_reg i 0) of
        (Some src_reg1, Some dst_mask) \<Rightarrow>
          if src_reg1 = dst_mask then Rw True
       [INSTR_CREATE_push (OReg DR_REG_RAX),
        RESTORE_FROM_TLS DR_REG_RAX (TLS_K_idx_SLOT (TO_K_REG_INDEX src_reg1)),
        INSTR_CREATE_movzx (OReg DR_REG_EAX) (OReg DR_REG_AX),
        INSTR_CREATE_test (OReg DR_REG_AX) (OReg DR_REG_AX),
        INSTR_CREATE_jcc OP_jz (OInstr l_zero),
        INSTR_CREATE_cmp (OReg DR_REG_EAX) (opnd_create_immed_int 0x00FFFF 4),
        INSTR_CREATE_jcc OP_jz (OInstr l_ffff),
        INSTR_CREATE_clc,
        INSTR_CREATE_jmp (OInstr l_done),
        INSTR_CREATE_label l_zero,
        INSTR_CREATE_clc,
        INSTR_CREATE_jmp (OInstr l_done),
        INSTR_CREATE_label l_ffff,
        INSTR_CREATE_test (OReg DR_REG_AX) (OReg DR_REG_AX),
        INSTR_CREATE_stc,
        INSTR_CREATE_label l_done,
        INSTR_CREATE_pop (OReg DR_REG_RAX)]
          else Rw True
       [INSTR_CREATE_push (OReg DR_REG_RAX),
        INSTR_CREATE_push (OReg DR_REG_RDX),
        RESTORE_FROM_TLS DR_REG_RAX (TLS_K_idx_SLOT (TO_K_REG_INDEX src_reg1)),
        RESTORE_FROM_TLS DR_REG_RDX (TLS_K_idx_SLOT (TO_K_REG_INDEX dst_mask)),
        INSTR_CREATE_movzx (OReg DR_REG_EAX) (OReg DR_REG_AX),
        INSTR_CREATE_movzx (OReg DR_REG_EDX) (OReg DR_REG_DX),
        INSTR_CREATE_or (OReg DR_REG_AX) (OReg DR_REG_DX),
        INSTR_CREATE_test (OReg DR_REG_AX) (OReg DR_REG_AX),
        INSTR_CREATE_jcc OP_jz (OInstr l_zero),
        INSTR_CREATE_cmp (OReg DR_REG_EAX) (opnd_create_immed_int 0x00FFFF 4),
        INSTR_CREATE_jcc OP_jz (OInstr l_ffff),
        INSTR_CREATE_clc,
        INSTR_CREATE_jmp (OInstr l_done),
        INSTR_CREATE_label l_zero,
        INSTR_CREATE_clc,
        INSTR_CREATE_jmp (OInstr l_done),
        INSTR_CREATE_label l_ffff,
        INSTR_CREATE_test (OReg DR_REG_AX) (OReg DR_REG_AX),
        INSTR_CREATE_stc,
        INSTR_CREATE_label l_done,
        INSTR_CREATE_pop (OReg DR_REG_RDX),
        INSTR_CREATE_pop (OReg DR_REG_RAX)]
      | _ \<Rightarrow> RwCrash)"

definition rw_func_kortestb :: "nat \<Rightarrow> nat \<Rightarrow> nat \<Rightarrow> instr \<Rightarrow> rw_result" where
  "rw_func_kortestb l_zero l_ffff l_done i =
     (case (src_reg i 0, dst_reg i 0) of
        (Some src_reg1, Some dst_mask) \<Rightarrow>
          if src_reg1 = dst_mask then Rw True
       [INSTR_CREATE_push (OReg DR_REG_RAX),
        RESTORE_FROM_TLS DR_REG_RAX (TLS_K_idx_SLOT (TO_K_REG_INDEX src_reg1)),
        INSTR_CREATE_movzx (OReg DR_REG_EAX) (OReg DR_REG_AL),
        INSTR_CREATE_test (OReg DR_REG_AL) (OReg DR_REG_AL),
        INSTR_CREATE_jcc OP_jz (OInstr l_zero),
        INSTR_CREATE_cmp (OReg DR_REG_EAX) (opnd_create_immed_int 0x00FF 4),
        INSTR_CREATE_jcc OP_jz (OInstr l_ffff),
        INSTR_CREATE_clc,
        INSTR_CREATE_jmp (OInstr l_done),
        INSTR_CREATE_label l_zero,
        INSTR_CREATE_clc,
        INSTR_CREATE_jmp (OInstr l_done),
        INSTR_CREATE_label l_ffff,
        INSTR_CREATE_test (OReg DR_REG_AL) (OReg DR_REG_AL),
        INSTR_CREATE_stc,
        INSTR_CREATE_label l_done,
        INSTR_CREATE_pop (OReg DR_REG_RAX)]
          else Rw True
       [INSTR_CREATE_push (OReg DR_REG_RAX),
        INSTR_CREATE_push (OReg DR_REG_RDX),
        RESTORE_FROM_TLS DR_REG_RAX (TLS_K_idx_SLOT (TO_K_REG_INDEX src_reg1)),
        RESTORE_FROM_TLS DR_REG_RDX (TLS_K_idx_SLOT (TO_K_REG_INDEX dst_mask)),
        INSTR_CREATE_movzx (OReg DR_REG_EAX) (OReg DR_REG_AL),
        INSTR_CREATE_movzx (OReg DR_REG_EDX) (OReg DR_REG_DL),
        INSTR_CREATE_or (OReg DR_REG_AL) (OReg DR_REG_DL),
        INSTR_CREATE_test (OReg DR_REG_AL) (OReg DR_REG_AL),
        INSTR_CREATE_jcc OP_jz (OInstr l_zero),
        INSTR_CREATE_cmp (OReg DR_REG_EAX) (opnd_create_immed_int 0x00FF 4),
        INSTR_CREATE_jcc OP_jz (OInstr l_ffff),
        INSTR_CREATE_clc,
        INSTR_CREATE_jmp (OInstr l_done),
        INSTR_CREATE_label l_zero,
        INSTR_CREATE_clc,
        INSTR_CREATE_jmp (OInstr l_done),
        INSTR_CREATE_label l_ffff,
        INSTR_CREATE_test (OReg DR_REG_AL) (OReg DR_REG_AL),
        INSTR_CREATE_stc,
        INSTR_CREATE_label l_done,
        INSTR_CREATE_pop (OReg DR_REG_RDX),
        INSTR_CREATE_pop (OReg DR_REG_RAX)]
      | _ \<Rightarrow> RwCrash)"

definition rw_func_kortestq :: "instr \<Rightarrow> rw_result" where
  "rw_func_kortestq i =
     (case (src_reg i 0, src_reg i 1) of
        (Some input_mask1, Some input_mask2) \<Rightarrow> Rw False
       [INSTR_CREATE_pushf,
        INSTR_CREATE_push (OReg DR_REG_RAX),
        INSTR_CREATE_push (OReg DR_REG_RBX),
        RESTORE_FROM_SIZED_TLS DR_REG_RAX (TLS_K_idx_SLOT (TO_K_REG_INDEX input_mask1)) 8,
        RESTORE_FROM_SIZED_TLS DR_REG_RBX (TLS_K_idx_SLOT (TO_K_REG_INDEX input_mask2)) 8,
        INSTR_CREATE_or (OReg DR_REG_RAX) (OReg DR_REG_RBX),
        RESTORE_FROM_SIZED_TLS DR_REG_RAX (TLS_K_idx_SLOT (TO_K_REG_INDEX input_mask1)) 8,
        INSTR_CREATE_and (OReg DR_REG_RAX) (OReg DR_REG_RBX),
        INSTR_CREATE_pop (OReg DR_REG_RBX),
        INSTR_CREATE_pop (OReg DR_REG_RAX),
        INSTR_CREATE_popf]
      | _ \<Rightarrow> RwCrash)"

definition rw_func_kortestd :: "instr \<Rightarrow> rw_result" where
  "rw_func_kortestd i =
     (case (src_reg i 0, src_reg i 1) of
        (Some input_mask1, Some input_mask2) \<Rightarrow> Rw False
       [INSTR_CREATE_pushf,
        INSTR_CREATE_push (OReg DR_REG_RAX),
        INSTR_CREATE_push (OReg DR_REG_RBX),
        RESTORE_FROM_SIZED_TLS DR_REG_EAX (TLS_K_idx_SLOT (TO_K_REG_INDEX input_mask1)) 4,
        RESTORE_FROM_SIZED_TLS DR_REG_EBX (TLS_K_idx_SLOT (TO_K_REG_INDEX input_mask2)) 4,
        INSTR_CREATE_or (OReg DR_REG_EAX) (OReg DR_REG_EBX),
        RESTORE_FROM_SIZED_TLS DR_REG_EAX (TLS_K_idx_SLOT (TO_K_REG_INDEX input_mask1)) 4,
        INSTR_CREATE_and (OReg DR_REG_EAX) (OReg DR_REG_EBX),
        INSTR_CREATE_pop (OReg DR_REG_RBX),
        INSTR_CREATE_pop (OReg DR_REG_RAX),
        INSTR_CREATE_popf]
      | _ \<Rightarrow> RwCrash)"

definition rw_func_kshiftlw :: "instr \<Rightarrow> rw_result" where
  "rw_func_kshiftlw i =
     (case (src_reg i 0, instr_get_src i 1, dst_reg i 0) of
        (Some input_mask, Some imm_opnd, Some output_mask) \<Rightarrow>
          (case opnd_get_immed_int imm_opnd of
             Some imm8 \<Rightarrow>
               if imm8 \<le> 15 then Rw False
       [INSTR_CREATE_pushf,
        INSTR_CREATE_push (OReg DR_REG_RAX),
        RESTORE_FROM_SIZED_TLS DR_REG_AX (TLS_K_idx_SLOT (TO_K_REG_INDEX input_mask)) 2,
        INSTR_CREATE_movzx (OReg DR_REG_RAX) (OReg DR_REG_AX),
        INSTR_CREATE_shl (OReg DR_REG_RAX) imm_opnd,
        SAVE_TO_SIZED_TLS DR_REG_AX (TLS_K_idx_SLOT (TO_K_REG_INDEX output_mask)) 2,
        INSTR_CREATE_pop (OReg DR_REG_RAX),
        INSTR_CREATE_popf]
               else Rw False
       [INSTR_CREATE_pushf,
        INSTR_CREATE_push (OReg DR_REG_RAX),
        INSTR_CREATE_xor (OReg DR_REG_RAX) (OReg DR_REG_RAX),
        SAVE_TO_SIZED_TLS DR_REG_AX (TLS_K_idx_SLOT (TO_K_REG_INDEX output_mask)) 2,
        INSTR_CREATE_pop (OReg DR_REG_RAX),
        INSTR_CREATE_popf]
           | None \<Rightarrow> RwCrash)
      | _ \<Rightarrow> RwCrash)"

definition rw_func_kshiftlb :: "instr \<Rightarrow> rw_result" where
  "rw_func_kshiftlb i =
     (case (src_reg i 0, instr_get_src i 1, dst_reg i 0) of
        (Some input_mask, Some imm_opnd, Some output_mask) \<Rightarrow>
          (case opnd_get_immed_int imm_opnd of
             Some imm8 \<Rightarrow>
               if imm8 \<le> 7 then Rw False
       [INSTR_CREATE_pushf,
        INSTR_CREATE_push (OReg DR_REG_RAX),
        RESTORE_FROM_SIZED_TLS DR_REG_AL (TLS_K_idx_SLOT (TO_K_REG_INDEX input_mask)) 1,
        INSTR_CREATE_movzx (OReg DR_REG_RAX) (OReg DR_REG_AL),
        INSTR_CREATE_shl (OReg DR_REG_RAX) imm_opnd,
        SAVE_TO_SIZED_TLS DR_REG_AL (TLS_K_idx_SLOT (TO_K_REG_INDEX output_mask)) 1,
        INSTR_CREATE_pop (OReg DR_REG_RAX),
        INSTR_CREATE_popf]
               else Rw False
       [INSTR_CREATE_pushf,
        INSTR_CREATE_push (OReg DR_REG_RAX),
        INSTR_CREATE_xor (OReg DR_REG_RAX) (OReg DR_REG_RAX),
        SAVE_TO_SIZED_TLS DR_REG_AL (TLS_K_idx_SLOT (TO_K_REG_INDEX output_mask)) 1,
        INSTR_CREATE_pop (OReg DR_REG_RAX),
        INSTR_CREATE_popf]
           | None \<Rightarrow> RwCrash)
      | _ \<Rightarrow> RwCrash)"

definition rw_func_kshiftlq :: "instr \<Rightarrow> rw_result" where
  "rw_func_kshiftlq i =
     (case (src_reg i 0, instr_get_src i 1, dst_reg i 0) of
        (Some input_mask, Some imm_opnd, Some output_mask) \<Rightarrow>
          (case opnd_get_immed_int imm_opnd of
             Some imm8 \<Rightarrow>
               if imm8 \<le> 63 then Rw False
       [INSTR_CREATE_pushf,
        INSTR_CREATE_push (OReg DR_REG_RAX),
        RESTORE_FROM_SIZED_TLS DR_REG_RAX (TLS_K_idx_SLOT (TO_K_REG_INDEX input_mask)) 8,
        INSTR_CREATE_shl (OReg DR_REG_RAX) imm_opnd,
        SAVE_TO_SIZED_TLS DR_REG_RAX (TLS_K_idx_SLOT (TO_K_REG_INDEX output_mask)) 8,
        INSTR_CREATE_pop (OReg DR_REG_RAX),
        INSTR_CREATE_popf]
               else Rw False
       [INSTR_CREATE_pushf,
        INSTR_CREATE_push (OReg DR_REG_RAX),
        INSTR_CREATE_xor (OReg DR_REG_RAX) (OReg DR_REG_RAX),
        SAVE_TO_SIZED_TLS DR_REG_RAX (TLS_K_idx_SLOT (TO_K_REG_INDEX output_mask)) 8,
        INSTR_CREATE_pop (OReg DR_REG_RAX),
        INSTR_CREATE_popf]
           | None \<Rightarrow> RwCrash)
      | _ \<Rightarrow> RwCrash)"

definition rw_func_kshiftld :: "instr \<Rightarrow> rw_result" where
  "rw_func_kshiftld i =
     (case (src_reg i 0, instr_get_src i 1, dst_reg i 0) of
        (Some input_mask, Some imm_opnd, Some output_mask) \<Rightarrow>
          (case opnd_get_immed_int imm_opnd of
             Some imm8 \<Rightarrow>
               if imm8 \<le> 31 then Rw False
       [INSTR_CREATE_pushf,
        INSTR_CREATE_push (OReg DR_REG_RAX),
        RESTORE_FROM_SIZED_TLS DR_REG_EAX (TLS_K_idx_SLOT (TO_K_REG_INDEX input_mask)) 4,
        INSTR_CREATE_shl (OReg DR_REG_EAX) imm_opnd,
        SAVE_TO_SIZED_TLS DR_REG_EAX (TLS_K_idx_SLOT (TO_K_REG_INDEX output_mask)) 4,
        INSTR_CREATE_pop (OReg DR_REG_RAX),
        INSTR_CREATE_popf]
               else Rw False
       [INSTR_CREATE_pushf,
        INSTR_CREATE_push (OReg DR_REG_RAX),
        INSTR_CREATE_xor (OReg DR_REG_RAX) (OReg DR_REG_RAX),
        SAVE_TO_SIZED_TLS DR_REG_EAX (TLS_K_idx_SLOT (TO_K_REG_INDEX output_mask)) 4,
        INSTR_CREATE_pop (OReg DR_REG_RAX),
        INSTR_CREATE_popf]
           | None \<Rightarrow> RwCrash)
      | _ \<Rightarrow> RwCrash)"

definition rw_func_kshiftrw :: "instr \<Rightarrow> rw_result" where
  "rw_func_kshiftrw i =
     (case (src_reg i 0, instr_get_src i 1, dst_reg i 0) of
        (Some input_mask, Some imm_opnd, Some output_mask) \<Rightarrow>
          (case opnd_get_immed_int imm_opnd of
             Some imm8 \<Rightarrow>
               if imm8 \<le> 15 then Rw False
       [INSTR_CREATE_pushf,
        INSTR_CREATE_push (OReg DR_REG_RAX),
        RESTORE_FROM_SIZED_TLS DR_REG_AX (TLS_K_idx_SLOT (TO_K_REG_INDEX input_mask)) 2,
        INSTR_CREATE_movzx (OReg DR_REG_RAX) (OReg DR_REG_AX),
        INSTR_CREATE_shr (OReg DR_REG_RAX) imm_opnd,
        SAVE_TO_SIZED_TLS DR_REG_AX (TLS_K_idx_SLOT (TO_K_REG_INDEX output_mask)) 2,
        INSTR_CREATE_pop (OReg DR_REG_RAX),
        INSTR_CREATE_popf]
               else Rw False
       [INSTR_CREATE_pushf,
        INSTR_CREATE_push (OReg DR_REG_RAX),
        INSTR_CREATE_xor (OReg DR_REG_RAX) (OReg DR_REG_RAX),
        SAVE_TO_SIZED_TLS DR_REG_AX (TLS_K_idx_SLOT (TO_K_REG_INDEX output_mask)) 2,
        INSTR_CREATE_pop (OReg DR_REG_RAX),
        INSTR_CREATE_popf]
           | None \<Rightarrow> RwCrash)
      | _ \<Rightarrow> RwCrash)"

definition rw_func_kshiftrb :: "instr \<Rightarrow> rw_result" where
  "rw_func_kshiftrb i =
     (case (src_reg i 0, instr_get_src i 1, dst_reg i 0) of
        (Some input_mask, Some imm_opnd, Some output_mask) \<Rightarrow>
          (case opnd_get_immed_int imm_opnd of
             Some imm8 \<Rightarrow>
               if imm8 \<le> 7 then Rw True
       [INSTR_CREATE_pushf,
        INSTR_CREATE_push (OReg DR_REG_RAX),
        RESTORE_FROM_SIZED_TLS DR_REG_AL (TLS_K_idx_SLOT (TO_K_REG_INDEX input_mask)) 1,
        INSTR_CREATE_movzx (OReg DR_REG_RAX) (OReg DR_REG_AL),
        INSTR_CREATE_shr (OReg DR_REG_RAX) imm_opnd,
        SAVE_TO_SIZED_TLS DR_REG_RAX (TLS_K_idx_SLOT (TO_K_REG_INDEX output_mask)) 8,
        INSTR_CREATE_pop (OReg DR_REG_RAX),
        INSTR_CREATE_popf]
               else Rw True
       [INSTR_CREATE_pushf,
        INSTR_CREATE_push (OReg DR_REG_RAX),
        INSTR_CREATE_xor (OReg DR_REG_RAX) (OReg DR_REG_RAX),
        SAVE_TO_SIZED_TLS DR_REG_RAX (TLS_K_idx_SLOT (TO_K_REG_INDEX output_mask)) 8,
        INSTR_CREATE_pop (OReg DR_REG_RAX),
        INSTR_CREATE_popf]
           | None \<Rightarrow> RwCrash)
      | _ \<Rightarrow> RwCrash)"

definition rw_func_kshiftrq :: "instr \<Rightarrow> rw_result" where
  "rw_func_kshiftrq i =
     (case (src_reg i 0, instr_get_src i 1, dst_reg i 0) of
        (Some input_mask, Some imm_opnd, Some output_mask) \<Rightarrow>
          (case opnd_get_immed_int imm_opnd of
             Some imm8 \<Rightarrow>
               if imm8 \<le> 63 then Rw False
       [INSTR_CREATE_pushf,
        INSTR_CREATE_push (OReg DR_REG_RAX),
        RESTORE_FROM_SIZED_TLS DR_REG_RAX (TLS_K_idx_SLOT (TO_K_REG_INDEX input_mask)) 8,
        INSTR_CREATE_shr (OReg DR_REG_RAX) imm_opnd,
        SAVE_TO_SIZED_TLS DR_REG_RAX (TLS_K_idx_SLOT (TO_K_REG_INDEX output_mask)) 8,
        INSTR_CREATE_pop (OReg DR_REG_RAX),
        INSTR_CREATE_popf]
               else Rw False
       [INSTR_CREATE_pushf,
        INSTR_CREATE_push (OReg DR_REG_RAX),
        INSTR_CREATE_xor (OReg DR_REG_RAX) (OReg DR_REG_RAX),
        SAVE_TO_SIZED_TLS DR_REG_RAX (TLS_K_idx_SLOT (TO_K_REG_INDEX output_mask)) 8,
        INSTR_CREATE_pop (OReg DR_REG_RAX),
        INSTR_CREATE_popf]
           | None \<Rightarrow> RwCrash)
      | _ \<Rightarrow> RwCrash)"

definition rw_func_kshiftrd :: "instr \<Rightarrow> rw_result" where
  "rw_func_kshiftrd i =
     (case (src_reg i 0, instr_get_src i 1, dst_reg i 0) of
        (Some input_mask, Some imm_opnd, Some output_mask) \<Rightarrow>
          (case opnd_get_immed_int imm_opnd of
             Some imm8 \<Rightarrow>
               if imm8 \<le> 31 then Rw False
       [INSTR_CREATE_pushf,
        INSTR_CREATE_push (OReg DR_REG_RAX),
        RESTORE_FROM_SIZED_TLS DR_REG_EAX (TLS_K_idx_SLOT (TO_K_REG_INDEX input_mask)) 4,
        INSTR_CREATE_shr (OReg DR_REG_EAX) imm_opnd,
        SAVE_TO_SIZED_TLS DR_REG_EAX (TLS_K_idx_SLOT (TO_K_REG_INDEX output_mask)) 4,
        INSTR_CREATE_pop (OReg DR_REG_RAX),
        INSTR_CREATE_popf]
               else Rw False
       [INSTR_CREATE_pushf,
        INSTR_CREATE_push (OReg DR_REG_RAX),
        INSTR_CREATE_xor (OReg DR_REG_RAX) (OReg DR_REG_RAX),
        SAVE_TO_SIZED_TLS DR_REG_EAX (TLS_K_idx_SLOT (TO_K_REG_INDEX output_mask)) 4,
        INSTR_CREATE_pop (OReg DR_REG_RAX),
        INSTR_CREATE_popf]
           | None \<Rightarrow> RwCrash)
      | _ \<Rightarrow> RwCrash)"

definition rw_func_ktestw :: "instr \<Rightarrow> rw_result" where
  "rw_func_ktestw i =
     (case src_reg i 0 of
        Some input_mask \<Rightarrow> Rw False
       [INSTR_CREATE_pushf,
        INSTR_CREATE_push (OReg DR_REG_RAX),
        RESTORE_FROM_SIZED_TLS DR_REG_AX (TLS_K_idx_SLOT (TO_K_REG_INDEX input_mask)) 2,
        INSTR_CREATE_test (OReg DR_REG_AX) (OReg DR_REG_AX),
        INSTR_CREATE_cmp (OReg DR_REG_AX) (opnd_create_immed_int 0xFFFF 2),
        INSTR_CREATE_pop (OReg DR_REG_RAX),
        INSTR_CREATE_popf]
      | None \<Rightarrow> RwCrash)"

definition rw_func_ktestb :: "instr \<Rightarrow> rw_result" where
  "rw_func_ktestb i =
     (case src_reg i 0 of
        Some input_mask \<Rightarrow> Rw False
       [INSTR_CREATE_pushf,
        INSTR_CREATE_push (OReg DR_REG_RAX),
        RESTORE_FROM_SIZED_TLS DR_REG_AL (TLS_K_idx_SLOT (TO_K_REG_INDEX input_mask)) 1,
        INSTR_CREATE_test (OReg DR_REG_AL) (OReg DR_REG_AL),
        INSTR_CREATE_cmp (OReg DR_REG_AL) (opnd_create_immed_int 0xFF 1),
        INSTR_CREATE_pop (OReg DR_REG_RAX),
        INSTR_CREATE_popf]
      | None \<Rightarrow> RwCrash)"

definition rw_func_ktestq :: "instr \<Rightarrow> rw_result" where
  "rw_func_ktestq i =
     (case src_reg i 0 of
        Some input_mask \<Rightarrow> Rw False
       [INSTR_CREATE_pushf,
        INSTR_CREATE_push (OReg DR_REG_RAX),
        RESTORE_FROM_SIZED_TLS DR_REG_RAX (TLS_K_idx_SLOT (TO_K_REG_INDEX input_mask)) 8,
        INSTR_CREATE_test (OReg DR_REG_RAX) (OReg DR_REG_RAX),
        INSTR_CREATE_cmp (OReg DR_REG_RAX) (opnd_create_immed_int (- 1) 8),
        INSTR_CREATE_pop (OReg DR_REG_RAX),
        INSTR_CREATE_popf]
      | None \<Rightarrow> RwCrash)"

definition rw_func_ktestd :: "instr \<Rightarrow> rw_result" where
  "rw_func_ktestd i =
     (case src_reg i 0 of
        Some input_mask \<Rightarrow> Rw False
       [INSTR_CREATE_pushf,
        INSTR_CREATE_push (OReg DR_REG_RAX),
        RESTORE_FROM_SIZED_TLS DR_REG_EAX (TLS_K_idx_SLOT (TO_K_REG_INDEX input_mask)) 4,
        INSTR_CREATE_test (OReg DR_REG_EAX) (OReg DR_REG_EAX),
        INSTR_CREATE_cmp (OReg DR_REG_EAX) (opnd_create_immed_int (- 1) 4),
        INSTR_CREATE_pop (OReg DR_REG_RAX),
        INSTR_CREATE_popf]
      | None \<Rightarrow> RwCrash)"

section \<open>Shifts\<close>

lemma kshiftl_core_narrow:
  assumes "gpart a 0 n" "gpart r 0 8" "n \<le> 2" "immed_size_ok v 1"
  shows "effect 0 {0} True (\<lambda>u. tls u = \<sigma>)
     (\<lambda>t. tls t = tls_put \<sigma> od n (byte_of (push_bit (imm_count 8 v) (slot_val n \<sigma> o1))))
     [RESTORE_FROM_SIZED_TLS a o1 n, INSTR_CREATE_movzx (OReg r) (OReg a),
      INSTR_CREATE_shl (OReg r) (OImm v 1), SAVE_TO_SIZED_TLS a od n]"
  using assms
  by (intro effect_core)
    (auto simp: step_simps reg_simps gpr_read_write_narrow gpr_read_shift_narrow take_bit_le tls_put_simps slot_val_def)

lemma kshiftr_core_narrow:
  assumes "gpart a 0 n" "gpart r 0 8" "n \<le> 2" "immed_size_ok v 1"
  shows "effect 0 {0} True (\<lambda>u. tls u = \<sigma>)
     (\<lambda>t. tls t = tls_put \<sigma> od n (byte_of (drop_bit (imm_count 8 v) (slot_val n \<sigma> o1))))
     [RESTORE_FROM_SIZED_TLS a o1 n, INSTR_CREATE_movzx (OReg r) (OReg a),
      INSTR_CREATE_shr (OReg r) (OImm v 1), SAVE_TO_SIZED_TLS a od n]"
  using assms
  by (intro effect_core)
    (auto simp: step_simps reg_simps gpr_read_write_narrow gpr_read_shift_narrow take_bit_le tls_put_simps slot_val_def)

lemma kshiftr_core_full:
  assumes "gpart a 0 n" "gpart r 0 8" "n \<le> 2" "immed_size_ok v 1"
  shows "effect 0 {0} True (\<lambda>u. tls u = \<sigma>)
     (\<lambda>t. tls t = tls_put \<sigma> od 8 (byte_of (drop_bit (imm_count 8 v) (slot_val n \<sigma> o1))))
     [RESTORE_FROM_SIZED_TLS a o1 n, INSTR_CREATE_movzx (OReg r) (OReg a),
      INSTR_CREATE_shr (OReg r) (OImm v 1), SAVE_TO_SIZED_TLS r od 8]"
  using assms
  by (intro effect_core)
    (auto simp: step_simps reg_simps take_bit_le tls_put_simps slot_val_def)

lemma kshiftl_core_wide:
  assumes "gpart a 0 n" "immed_size_ok v 1"
  shows "effect 0 {0} True (\<lambda>u. tls u = \<sigma>)
     (\<lambda>t. tls t = tls_put \<sigma> od n (byte_of (push_bit (imm_count n v) (slot_val n \<sigma> o1))))
     [RESTORE_FROM_SIZED_TLS a o1 n, INSTR_CREATE_shl (OReg a) (OImm v 1), SAVE_TO_SIZED_TLS a od n]"
  using assms
  by (intro effect_core) (auto simp: step_simps reg_simps take_bit_le tls_put_simps slot_val_def)

lemma kshiftr_core_wide:
  assumes "gpart a 0 n" "immed_size_ok v 1"
  shows "effect 0 {0} True (\<lambda>u. tls u = \<sigma>)
     (\<lambda>t. tls t = tls_put \<sigma> od n (byte_of (drop_bit (imm_count n v) (slot_val n \<sigma> o1))))
     [RESTORE_FROM_SIZED_TLS a o1 n, INSTR_CREATE_shr (OReg a) (OImm v 1), SAVE_TO_SIZED_TLS a od n]"
  using assms
  by (intro effect_core) (auto simp: step_simps reg_simps take_bit_le tls_put_simps slot_val_def)

lemma kshift_core_zero:
  assumes "gpart a 0 n" "gpart r 0 8"
  shows "effect 0 {0} True (\<lambda>u. tls u = \<sigma>) (\<lambda>t. tls t = tls_put \<sigma> od n (byte_of (0 :: 64 word)))
     [INSTR_CREATE_xor (OReg r) (OReg r), SAVE_TO_SIZED_TLS a od n]"
  using assms
  by (intro effect_core) (auto simp: step_simps reg_simps gpr_read_alu_narrow)

lemma set_low_shifts:
  fixes a :: "64 word"
  shows "w = 8 * n \<Longrightarrow> c < w \<Longrightarrow> set_low n old (push_bit c (take_bit w a)) = set_low n old (spec_kshiftl w c a)"
    and "w = 8 * n \<Longrightarrow> c < w \<Longrightarrow> set_low n old (drop_bit c (take_bit w a)) = set_low n old (spec_kshiftr w c a)"
    and "w \<le> c \<Longrightarrow> spec_kshiftl w c a = 0" "w \<le> c \<Longrightarrow> spec_kshiftr w c a = 0"
    and "c < 64 \<Longrightarrow> spec_kshiftl 64 c a = push_bit c a" "c < 64 \<Longrightarrow> spec_kshiftr 64 c a = drop_bit c a"
  by (auto intro!: bit_word_eqI simp: bit_simps spec_kshiftl_def spec_kshiftr_def)

lemma spec_kshift_take:
  "spec_kshiftl w c a = take_bit w (spec_kshiftl w c a)" "spec_kshiftr w c a = take_bit w (spec_kshiftr w c a)"
  by (auto simp: spec_kshiftl_def spec_kshiftr_def bit_eq_iff bit_simps)

lemma count_small: "0 \<le> v \<Longrightarrow> v \<le> 127 \<Longrightarrow> nat v < 8 * n \<Longrightarrow> n \<le> 8 \<Longrightarrow> n \<noteq> 8 \<longrightarrow> n \<le> 4 \<Longrightarrow> imm_count n v = nat v"
  by (auto simp: imm_count_nonneg)

lemma immed_byte: "0 \<le> v \<Longrightarrow> v \<le> 127 \<Longrightarrow> immed_size_ok v 1"
  by (simp add: immed_size_ok_def)

lemma kshiftl_run:
  assumes "(f, n) \<in> set [(rw_func_kshiftlw, 2), (rw_func_kshiftlb, 1), (rw_func_kshiftlq, 8), (rw_func_kshiftld, 4)]"
    and "d < 8" "k < 8" "stack_room 16 s" "0 \<le> v" "v \<le> 127"
  shows "\<exists>chain t. f (Instr opc [K d] [K k, OImm v 1]) = Rw False chain \<and> exec chain s = Inr t
     \<and> agree 16 (abs_state t) (set_k d
         (set_low n (ak (abs_state s) d) (spec_kshiftl (8 * n) (nat v) (ak (abs_state s) k))) (abs_state s))
     \<and> (ak (abs_state t) d = spec_kshiftl (8 * n) (nat v) (ak (abs_state s) k)
          \<longleftrightarrow> drop_bit (8 * n) (ak (abs_state s) d) = 0)"
proof (rule rewrite_set_low_iff [OF _ spec_kshift_take(1)])
  have n: "n = 1 \<or> n = 2 \<or> n = 4 \<or> n = 8" and "n \<le> 8" using assms(1) by auto
  note imm = immed_byte [OF assms(5,6)] and simps = slot_simps acc_def slot_val_kslot abs_state_def set_low_shifts
    rw_func_kshiftlw_def rw_func_kshiftlb_def rw_func_kshiftlq_def rw_func_kshiftld_def instr_get_src_def
  consider (zero) "8 * n \<le> nat v" | (narrow) "nat v < 8 * n" "n \<le> 2" | (wide) "nat v < 8 * n" "n = 4 \<or> n = 8"
    using n by (cases "8 * n \<le> nat v") auto
  then show "\<exists>chain t. f (Instr opc [K d] [K k, OImm v 1]) = Rw False chain \<and> exec chain s = Inr t
     \<and> agree 16 (abs_state t) (set_k d
         (set_low n (ak (abs_state s) d) (spec_kshiftl (8 * n) (nat v) (ak (abs_state s) k))) (abs_state s))"
  proof cases
    case zero
    then show ?thesis using assms \<open>n \<le> 8\<close>
      by (intro rewrite_set_k [OF effect_saved1 [OF kshift_core_zero [OF gpart_acc [OF n] gpart_simps(1)]]])
        (auto simp: simps)
  next
    case narrow
    then show ?thesis using assms \<open>n \<le> 8\<close> count_small [of v 8]
      by (intro rewrite_set_k [OF effect_saved1 [OF kshiftl_core_narrow [OF gpart_acc [OF n] gpart_simps(1) _ imm]]])
        (auto simp: simps)
  next
    case wide
    then show ?thesis using assms \<open>n \<le> 8\<close> count_small [of v n]
      by (intro rewrite_set_k [OF effect_saved1 [OF kshiftl_core_wide [OF gpart_acc [OF n] imm]]])
        (auto simp: simps)
  qed
qed

lemma kshiftr_run:
  assumes "(f, n) \<in> set [(rw_func_kshiftrw, 2), (rw_func_kshiftrq, 8), (rw_func_kshiftrd, 4)]"
    and "d < 8" "k < 8" "stack_room 16 s" "0 \<le> v" "v \<le> 127"
  shows "\<exists>chain t. f (Instr opc [K d] [K k, OImm v 1]) = Rw False chain \<and> exec chain s = Inr t
     \<and> agree 16 (abs_state t) (set_k d
         (set_low n (ak (abs_state s) d) (spec_kshiftr (8 * n) (nat v) (ak (abs_state s) k))) (abs_state s))
     \<and> (ak (abs_state t) d = spec_kshiftr (8 * n) (nat v) (ak (abs_state s) k)
          \<longleftrightarrow> drop_bit (8 * n) (ak (abs_state s) d) = 0)"
proof (rule rewrite_set_low_iff [OF _ spec_kshift_take(2)])
  have n: "n = 1 \<or> n = 2 \<or> n = 4 \<or> n = 8" and "n \<le> 8" using assms(1) by auto
  note imm = immed_byte [OF assms(5,6)] and simps = slot_simps acc_def slot_val_kslot abs_state_def set_low_shifts
    rw_func_kshiftrw_def rw_func_kshiftrq_def rw_func_kshiftrd_def instr_get_src_def
  consider (zero) "8 * n \<le> nat v" | (narrow) "nat v < 8 * n" "n = 2" | (wide) "nat v < 8 * n" "n = 4 \<or> n = 8"
    using assms(1) by (cases "8 * n \<le> nat v") auto
  then show "\<exists>chain t. f (Instr opc [K d] [K k, OImm v 1]) = Rw False chain \<and> exec chain s = Inr t
     \<and> agree 16 (abs_state t) (set_k d
         (set_low n (ak (abs_state s) d) (spec_kshiftr (8 * n) (nat v) (ak (abs_state s) k))) (abs_state s))"
  proof cases
    case zero
    then show ?thesis using assms \<open>n \<le> 8\<close>
      by (intro rewrite_set_k [OF effect_saved1 [OF kshift_core_zero [OF gpart_acc [OF n] gpart_simps(1)]]])
        (auto simp: simps)
  next
    case narrow
    then show ?thesis using assms \<open>n \<le> 8\<close> count_small [of v 8]
      by (intro rewrite_set_k [OF effect_saved1 [OF kshiftr_core_narrow [OF gpart_acc [OF n] gpart_simps(1) _ imm]]])
        (auto simp: simps)
  next
    case wide
    then show ?thesis using assms \<open>n \<le> 8\<close> count_small [of v n]
      by (intro rewrite_set_k [OF effect_saved1 [OF kshiftr_core_wide [OF gpart_acc [OF n] imm]]])
        (auto simp: simps)
  qed
qed

lemma kshiftrb_run:
  assumes "d < 8" "k < 8" "stack_room 16 s" "- 128 \<le> v" "v \<le> 127"
  shows "\<exists>chain t. rw_func_kshiftrb (Instr opc [K d] [K k, OImm v 1]) = Rw True chain \<and> exec chain s = Inr t
     \<and> agree 16 (abs_state t) (set_k d
         (if 0 \<le> v then spec_kshiftr 8 (nat v) (ak (abs_state s) k)
          else drop_bit (nat (v mod 256) mod 64) (take_bit 8 (ak (abs_state s) k))) (abs_state s))"
proof (cases "v \<le> 7")
  case False
  then show ?thesis using assms
    by (intro rewrite_set_k [OF effect_saved1 [OF kshift_core_zero [OF gpart_simps(1) gpart_simps(1)]]])
      (auto simp: slot_simps rw_func_kshiftrb_def set_low_shifts instr_get_src_def)
next
  case True
  have imm: "immed_size_ok v 1" using assms by (simp add: immed_size_ok_def)
  show ?thesis using assms True
    by (intro rewrite_set_k [OF effect_saved1 [OF kshiftr_core_full [OF gpart_simps(16) gpart_simps(1) _ imm]]])
      (auto simp: slot_simps rw_func_kshiftrb_def instr_get_src_def slot_val_kslot abs_state_def imm_count_eq
        spec_kshiftr_def)
qed

text \<open>
  C24. Shifts. For a count from 0 to 127 \<open>kshiftl\<close> of every width and \<open>kshiftr\<close> of 16, 32 and 64
  bits set the low bytes of the destination to the reference result (0 if the count is not
  below the width) and keep its upper bytes; the original stays in the list, and the
  destination is the documented result exactly if its upper bits were clear. \<open>kshiftrb\<close> removes
  the original and stores the full register: for such a count the destination is exactly the
  reference result. The immediate is decoded as a signed byte, so a count from 128 to 255 takes
  the shifting branch as well and the processor reduces it modulo 64, although the reference
  result is then 0.
\<close>

theorem kshift_rewrite:
  assumes "(f, n, spec) \<in> set [(rw_func_kshiftlw, 2, spec_kshiftl), (rw_func_kshiftlb, 1, spec_kshiftl),
      (rw_func_kshiftlq, 8, spec_kshiftl), (rw_func_kshiftld, 4, spec_kshiftl), (rw_func_kshiftrw, 2, spec_kshiftr),
      (rw_func_kshiftrq, 8, spec_kshiftr), (rw_func_kshiftrd, 4, spec_kshiftr)]"
    and "d < 8" "k < 8" "stack_room 16 s" "0 \<le> v" "v \<le> 127" "- 128 \<le> u" "u \<le> 127"
  shows "(\<exists>chain t. f (Instr opc [K d] [K k, OImm v 1]) = Rw False chain \<and> exec chain s = Inr t
     \<and> agree 16 (abs_state t) (set_k d
         (set_low n (ak (abs_state s) d) (spec (8 * n) (nat v) (ak (abs_state s) k))) (abs_state s))
     \<and> (ak (abs_state t) d = spec (8 * n) (nat v) (ak (abs_state s) k)
          \<longleftrightarrow> drop_bit (8 * n) (ak (abs_state s) d) = 0))
   \<and> (\<exists>chain t. rw_func_kshiftrb (Instr opc [K d] [K k, OImm u 1]) = Rw True chain \<and> exec chain s = Inr t
     \<and> agree 16 (abs_state t) (set_k d
         (if 0 \<le> u then spec_kshiftr 8 (nat u) (ak (abs_state s) k)
          else drop_bit (nat (u mod 256) mod 64) (take_bit 8 (ak (abs_state s) k))) (abs_state s)))"
proof (rule conjI)
  consider "(f, n) \<in> set [(rw_func_kshiftlw, 2), (rw_func_kshiftlb, 1), (rw_func_kshiftlq, 8), (rw_func_kshiftld, 4)]" "spec = spec_kshiftl"
    | "(f, n) \<in> set [(rw_func_kshiftrw, 2), (rw_func_kshiftrq, 8), (rw_func_kshiftrd, 4)]" "spec = spec_kshiftr"
    using assms(1) by auto
  then show "\<exists>chain t. f (Instr opc [K d] [K k, OImm v 1]) = Rw False chain \<and> exec chain s = Inr t
     \<and> agree 16 (abs_state t) (set_k d
         (set_low n (ak (abs_state s) d) (spec (8 * n) (nat v) (ak (abs_state s) k))) (abs_state s))
     \<and> (ak (abs_state t) d = spec (8 * n) (nat v) (ak (abs_state s) k)
          \<longleftrightarrow> drop_bit (8 * n) (ak (abs_state s) d) = 0)"
    using kshiftl_run [OF _ assms(2-6), of f n opc] kshiftr_run [OF _ assms(2-6), of f n opc] by cases (simp_all only:)
qed (rule kshiftrb_run [OF assms(2-4,7,8)])

theorem kshift_rewrite_witness:
  "(\<exists>chain t. rw_func_kshiftlb (Instr (OP_AVX512 512) [K 1] [K 2, OImm 4 1]) = Rw False chain
     \<and> exec chain (sample (\<lambda>_. True) [0, 0x1234, 0xAB, 0, 0, 0, 0, 0]) = Inr t
     \<and> ak (abs_state t) 1 = 0x12B0 \<and> ak (abs_state t) 1 \<noteq> spec_kshiftl 8 4 0xAB)
   \<and> (\<exists>chain t. rw_func_kshiftrb (Instr (OP_AVX512 512) [K 1] [K 2, OImm (- 128) 1]) = Rw True chain
     \<and> exec chain (sample (\<lambda>_. True) [0, 0x1234, 0xAB, 0, 0, 0, 0, 0]) = Inr t \<and> ak (abs_state t) 1 = 0xAB)"
proof -
  note run = kshift_rewrite [where n = 1 and spec = spec_kshiftl and v = 4 and u = "- 128" and f = rw_func_kshiftlb]
  show ?thesis
    by (rule conjI; rule witness_k_iff [OF run [THEN conjunct1]] witness_k [OF run [THEN conjunct2]])
      (simp_all add: ak_sample set_low_def mask_eq_exp_minus_1 drop_bit_eq_div spec_kshiftl_def)
qed


section \<open>Tests\<close>

text \<open>The flags the branching part of \<open>kortest\<close> computes from the disjunction \<open>v\<close> of the masks.\<close>

definition kortest_flags :: "bool \<Rightarrow> nat \<Rightarrow> 64 word \<Rightarrow> eflags" where
  "kortest_flags u n v =
     (if v = 0 then logic_flags u n 0
      else if v = mask (8 * n) then (logic_flags u n v)\<lparr>CF := True\<rparr>
      else (sub_flags 4 v (mask (8 * n)) (take_bit 32 (v - mask (8 * n))))\<lparr>CF := False\<rparr>)"

lemma mod_32_diff: "a < 2 ^ 32 \<Longrightarrow> b < 2 ^ 32 \<Longrightarrow> a < b \<Longrightarrow> (a + 2 ^ 64 - b) mod 2 ^ 32 \<noteq> (0::nat)"
proof -
  assume "a < 2 ^ 32" "b < 2 ^ 32" "a < b"
  then have "a + 2 ^ 64 - b = (2 ^ 32 - (b - a)) + (2 ^ 32 - 1) * (2 ^ 32 :: nat)" by simp
  then have "(a + 2 ^ 64 - b) mod 2 ^ 32 = (2 ^ 32 - (b - a)) mod (2 ^ 32 :: nat)"
    by (simp only: mod_mult_self1)
  with \<open>a < b\<close> \<open>b < 2 ^ 32\<close> show ?thesis by simp
qed

lemma take_bit_32_diff_zero:
  fixes v m :: "64 word"
  assumes "take_bit 32 v = v" "take_bit 32 m = m"
  shows "take_bit 32 (v - m) = 0 \<longleftrightarrow> v = m"
proof -
  have bound: "unat w < 2 ^ 32" if "take_bit 32 w = w" for w :: "64 word"
    by (subst that [symmetric]) (simp only: unsigned_take_bit_eq take_bit_nat_less_exp)
  have "take_bit 32 (v - m) = 0 \<longleftrightarrow> unat (take_bit 32 (v - m)) = 0" by (simp only: unat_eq_zero)
  also have "\<dots> \<longleftrightarrow> unat (v - m) mod 2 ^ 32 = 0" by (simp only: unsigned_take_bit_eq take_bit_nat_def)
  also have "\<dots> \<longleftrightarrow> unat v = unat m"
  proof (cases "unat m \<le> unat v")
    case True
    then show ?thesis using bound [OF assms(1)] by (simp add: unat_sub_if_size)
  next
    case False
    then show ?thesis using mod_32_diff [OF bound [OF assms(1)] bound [OF assms(2)]]
      by (simp add: unat_sub_if_size word_size)
  qed
  finally show ?thesis by (simp only: word_unat_eq_iff)
qed

lemma kortest_tail:
  assumes a: "gpart a 0 n" "gpart r 0 4" and n: "n = 1 \<or> n = 2" and dist: "distinct [z, f, d]"
    and v: "gpr_read s a = v" "gpr_read s r = v" "take_bit (8 * n) v = v" and imm: "m = 2 ^ (8 * n) - 1"
  shows "exec ([INSTR_CREATE_test (OReg a) (OReg a), INSTR_CREATE_jcc OP_jz (OInstr z),
      INSTR_CREATE_cmp (OReg r) (OImm m 4), INSTR_CREATE_jcc OP_jz (OInstr f), INSTR_CREATE_clc,
      INSTR_CREATE_jmp (OInstr d), INSTR_CREATE_label z, INSTR_CREATE_clc, INSTR_CREATE_jmp (OInstr d),
      INSTR_CREATE_label f, INSTR_CREATE_test (OReg a) (OReg a), INSTR_CREATE_stc, INSTR_CREATE_label d]) s
    = Inr (s\<lparr>flg := kortest_flags (undef_bit s) n v\<rparr>)"
proof -
  have m: "take_bit 32 (word_of_int m) = (mask (8 * n) :: 64 word)" "immed_size_ok m 4"
    using n by (auto simp: imm immed_size_ok_def mask_eq_exp_minus_1)
  have "take_bit 32 (take_bit (8 * n) v) = take_bit (8 * n) v" using n by auto
  then have "take_bit 32 v = v" by (simp only: v(3))
  then have "take_bit 32 (v - mask (8 * n)) = 0 \<longleftrightarrow> v = mask (8 * n)"
    using n by (intro take_bit_32_diff_zero) (auto simp: mask_eq_exp_minus_1)
  then show ?thesis using a v dist m
    by (simp add: step_simps kortest_flags_def logic_flags_def sub_flags_def Let_def)
qed


lemma kortest_flags_spec:
  assumes n: "n = 1 \<or> n = 2" and v: "v = take_bit (8 * n) (a OR b)"
  shows "ZF (kortest_flags u n v) = ZF (spec_kortest (8 * n) a b)"
    and "CF (kortest_flags u n v) = CF (spec_kortest (8 * n) a b)"
proof -
  have "take_bit 32 v = v" using n v by auto
  then have "take_bit 32 (v - mask (8 * n)) = 0 \<longleftrightarrow> v = mask (8 * n)"
    using n by (intro take_bit_32_diff_zero) (auto simp: mask_eq_exp_minus_1)
  moreover have "(0 :: 64 word) \<noteq> mask (8 * n)" using n by (auto simp: mask_eq_exp_minus_1)
  ultimately show "ZF (kortest_flags u n v) = ZF (spec_kortest (8 * n) a b)"
    and "CF (kortest_flags u n v) = CF (spec_kortest (8 * n) a b)"
    using v by (auto simp: kortest_flags_def spec_kortest_def logic_flags_def sub_flags_def Let_def)
qed


text \<open>The two sequences up to the branching part.\<close>

definition kortest_tail_of :: "nat \<Rightarrow> nat \<Rightarrow> nat \<Rightarrow> nat \<Rightarrow> int \<Rightarrow> instr list" where
  "kortest_tail_of z f d n m =
     [INSTR_CREATE_test (OReg (acc n)) (OReg (acc n)), INSTR_CREATE_jcc OP_jz (OInstr z),
      INSTR_CREATE_cmp (OReg DR_REG_EAX) (OImm m 4), INSTR_CREATE_jcc OP_jz (OInstr f), INSTR_CREATE_clc,
      INSTR_CREATE_jmp (OInstr d), INSTR_CREATE_label z, INSTR_CREATE_clc, INSTR_CREATE_jmp (OInstr d),
      INSTR_CREATE_label f, INSTR_CREATE_test (OReg (acc n)) (OReg (acc n)), INSTR_CREATE_stc, INSTR_CREATE_label d]"

lemma exec_kortest_tail:
  assumes n: "n = 1 \<or> n = 2" and "distinct [z, f, d]" "m = 2 ^ (8 * n) - 1"
    and v: "gpr s 0 = v" "take_bit (8 * n) v = v"
  shows "exec (kortest_tail_of z f d n m) s = Inr (s\<lparr>flg := kortest_flags (undef_bit s) n v\<rparr>)"
proof -
  have a: "gpart (acc n) 0 n" using n by (intro gpart_acc) auto
  have "take_bit 32 (take_bit (8 * n) v) = take_bit (8 * n) v" using n by auto
  then have "take_bit 32 v = v" by (simp only: v(2))
  then show ?thesis unfolding kortest_tail_of_def
    using assms kortest_tail [OF a gpart_simps(8) n assms(2), of s v m]
    by (simp add: gpr_read_gpart [OF a] gpr_read_gpart [OF gpart_simps(8)] del: exec.simps)
qed

lemma kortest_core_same:
  assumes n: "n = 1 \<or> n = 2" and l: "distinct [z, f, d]" "m = 2 ^ (8 * n) - 1"
    and r: "gpart r 0 8" "gpart e 0 4" "gpart a 0 n"
  shows "effect 0 {0} True (\<lambda>u. tls u = \<sigma> \<and> undef_bit u = b)
     (\<lambda>t. tls t = \<sigma> \<and> flg t = kortest_flags b n (take_bit (8 * n) (slot_val 8 \<sigma> o1)))
     ([RESTORE_FROM_TLS r o1, INSTR_CREATE_movzx (OReg e) (OReg a)] @ kortest_tail_of z f d n m)"
proof (rule effectI)
  fix s :: mstate assume s: "tls s = \<sigma> \<and> undef_bit s = b"
  let ?v = "take_bit (8 * n) (slot_val 8 \<sigma> o1)"
  let ?u = "gpr_write (gpr_write s r (slot_val 8 \<sigma> o1)) e ?v"
  have sz: "n \<le> 2" "n < 4" "8 * n \<le> 32" using n by auto
  have "exec [RESTORE_FROM_TLS r o1, INSTR_CREATE_movzx (OReg e) (OReg a)] s = Inr ?u"
    using r sz s by (simp add: step_simps gpr_read_write_narrow slot_val_def)
  moreover have "gpr ?u 0 = ?v" using r sz by (simp add: gpr_write_gpart put_part_def)
  then have "exec (kortest_tail_of z f d n m) ?u = Inr (?u\<lparr>flg := kortest_flags b n ?v\<rparr>)"
    using exec_kortest_tail [OF n l, of ?u ?v] s by simp
  ultimately show "\<exists>t. exec ([RESTORE_FROM_TLS r o1, INSTR_CREATE_movzx (OReg e) (OReg a)] @ kortest_tail_of z f d n m) s = Inr t
      \<and> (tls t = \<sigma> \<and> flg t = kortest_flags b n ?v) \<and> ymm t = ymm s
      \<and> (\<forall>n. n \<notin> {0} \<longrightarrow> gpr t n = gpr s n) \<and> (True \<or> flg t = flg s) \<and> keeps 0 s t"
    using r s by (intro exI [of _ "?u\<lparr>flg := kortest_flags b n ?v\<rparr>"])
      (simp add: exec_append gpr_write_other keeps_def del: exec.simps append_Cons)
qed

lemma set_low_or:
  "set_low n (take_bit (8 * n) p) (take_bit (8 * n) p OR take_bit (8 * n) q) = take_bit (8 * n) (p OR q)"
    for p q :: "64 word"
  by (rule bit_word_eqI) (auto simp: bit_simps)

lemma kortest_core_diff:
  assumes n: "n = 1 \<or> n = 2" and l: "distinct [z, f, d]" "m = 2 ^ (8 * n) - 1"
    and r: "gpart r 0 8" "gpart e 0 4" "gpart a 0 n" "gpart r' 2 8" "gpart e' 2 4" "gpart a' 2 n"
  shows "effect 0 {0, 2} True (\<lambda>u. tls u = \<sigma> \<and> undef_bit u = b)
     (\<lambda>t. tls t = \<sigma> \<and> flg t = kortest_flags b n (take_bit (8 * n) (slot_val 8 \<sigma> o1 OR slot_val 8 \<sigma> o2)))
     ([RESTORE_FROM_TLS r o1, RESTORE_FROM_TLS r' o2, INSTR_CREATE_movzx (OReg e) (OReg a),
       INSTR_CREATE_movzx (OReg e') (OReg a'), INSTR_CREATE_or (OReg a) (OReg a')] @ kortest_tail_of z f d n m)"
    (is "effect 0 _ True _ ?Q (?pre @ _)")
proof (rule effectI)
  fix s :: mstate assume s: "tls s = \<sigma> \<and> undef_bit s = b"
  let ?x = "take_bit (8 * n) (slot_val 8 \<sigma> o1)" and ?y = "take_bit (8 * n) (slot_val 8 \<sigma> o2)"
  let ?v = "take_bit (8 * n) (slot_val 8 \<sigma> o1 OR slot_val 8 \<sigma> o2)"
  let ?u = "gpr_write (gpr_write (gpr_write (gpr_write s r (slot_val 8 \<sigma> o1)) r' (slot_val 8 \<sigma> o2)) e ?x) e' ?y"
  let ?w = "alu_write OP_or a n ?y ?u"
  have sz: "n \<le> 2" "n < 4" "n \<noteq> 8" "n \<noteq> 4" "8 * n \<le> 32" using n by auto
  have rd: "gpr_read ?u a' = ?y" "gpr_read ?u a = ?x" and g: "gpr ?u 0 = ?x"
    using r sz by (simp_all add: gpr_read_gpart gpr_write_gpart put_part_def)
  have "exec ?pre s = Inr ?w"
    using r sz s rd by (simp add: step_simps gpr_read_write_narrow gpr_read_write_other slot_val_def)
  moreover have "gpr ?w 0 = set_low n ?x (?x OR ?y)"
    using r sz rd g by (simp add: alu_write_def gpr_write_gpart [of a] put_part_def alu2_def)
  then have "gpr ?w 0 = ?v" by (simp only: set_low_or)
  then have "exec (kortest_tail_of z f d n m) ?w = Inr (?w\<lparr>flg := kortest_flags b n ?v\<rparr>)"
    using exec_kortest_tail [OF n l, of ?w ?v] s by simp
  ultimately show "\<exists>t. exec (?pre @ kortest_tail_of z f d n m) s = Inr t \<and> ?Q t \<and> ymm t = ymm s
      \<and> (\<forall>n. n \<notin> {0, 2} \<longrightarrow> gpr t n = gpr s n) \<and> (True \<or> flg t = flg s) \<and> keeps 0 s t"
    using r s by (intro exI [of _ "?w\<lparr>flg := kortest_flags b n ?v\<rparr>"])
      (simp add: exec_append gpr_write_other alu_write_other keeps_def del: exec.simps append_Cons)
qed


lemma rewrite_flags:
  assumes e: "effect m {} True (\<lambda>u. tls u = tls s \<and> undef_bit u = undef_bit s)
      (\<lambda>t. tls t = tls s \<and> flg t = f) chain"
    and s: "stack_room m s" "m \<le> m'" "r = Rw rm chain"
  shows "\<exists>chain t. r = Rw rm chain \<and> exec chain s = Inr t \<and> agree m' (abs_state t) ((abs_state s)\<lparr>aflg := f\<rparr>)"
proof -
  obtain t where t: "exec chain s = Inr t" "tls t = tls s" "flg t = f" "ymm t = ymm s"
      "\<And>n. gpr t n = gpr s n" "keeps m s t"
    using effectD [OF e _ s(1)] by auto
  then have "gpr t = gpr s" "abs_k t = abs_k s" by (auto simp: abs_k_def)
  moreover have "abs_zmm t = abs_zmm s" using t by (simp add: abs_zmm_def fun_eq_iff)
  ultimately have "agree m (abs_state t) ((abs_state s)\<lparr>aflg := f\<rparr>)"
    using t by (simp add: agree_def abs_state_def keeps_def)
  then show ?thesis using s(2,3) t(1) agree_mono by blast
qed

lemma kortest_same_effect:
  assumes n: "n = 1 \<or> n = 2" and l: "distinct [z, f, d]" "m = 2 ^ (8 * n) - 1" and r: "gpart a 0 n"
  shows "effect 8 {} True (\<lambda>u. tls u = \<sigma> \<and> undef_bit u = b)
     (\<lambda>t. tls t = \<sigma> \<and> flg t = kortest_flags b n (take_bit (8 * n) (slot_val 8 \<sigma> o1)))
     ([INSTR_CREATE_push (OReg DR_REG_RAX), RESTORE_FROM_TLS DR_REG_RAX o1,
       INSTR_CREATE_movzx (OReg DR_REG_EAX) (OReg a)] @ kortest_tail_of z f d n m
       @ [INSTR_CREATE_pop (OReg DR_REG_RAX)])"
  using effect_push [OF kortest_core_same [OF n l gpart_simps(1) gpart_simps(8) r], where r = DR_REG_RAX and k = 0]
  by simp

lemma kortest_diff_effect:
  assumes n: "n = 1 \<or> n = 2" and l: "distinct [z, f, d]" "m = 2 ^ (8 * n) - 1"
    and r: "gpart a 0 n" "gpart a' 2 n"
  shows "effect 16 {} True (\<lambda>u. tls u = \<sigma> \<and> undef_bit u = b)
     (\<lambda>t. tls t = \<sigma> \<and> flg t = kortest_flags b n (take_bit (8 * n) (slot_val 8 \<sigma> o1 OR slot_val 8 \<sigma> o2)))
     ([INSTR_CREATE_push (OReg DR_REG_RAX), INSTR_CREATE_push (OReg DR_REG_RDX), RESTORE_FROM_TLS DR_REG_RAX o1,
       RESTORE_FROM_TLS DR_REG_RDX o2, INSTR_CREATE_movzx (OReg DR_REG_EAX) (OReg a),
       INSTR_CREATE_movzx (OReg DR_REG_EDX) (OReg a'), INSTR_CREATE_or (OReg a) (OReg a')]
       @ kortest_tail_of z f d n m
       @ [INSTR_CREATE_pop (OReg DR_REG_RDX), INSTR_CREATE_pop (OReg DR_REG_RAX)])"
  using effect_push [OF effect_push [OF kortest_core_diff [OF n l gpart_simps(1) gpart_simps(8) r(1)
        gpart_simps(3) gpart_simps(10) r(2)], where r = DR_REG_RDX and k = 2], where r = DR_REG_RAX and k = 0]
  by (simp add: insert_Diff_if)

text \<open>
  C17. \<open>kortestw\<close> and \<open>kortestb\<close> remove the original, run to the end through
  whichever of their branches the masks select, set \<open>ZF\<close> and \<open>CF\<close> as the reference does
  and change nothing else but the other arithmetic flags and the 16 bytes below the stack
  pointer, for equal and for different operands.
\<close>

theorem kortest_rewrite:
  assumes "(f, n) \<in> set [(rw_func_kortestw, 2), (rw_func_kortestb, 1)]" "distinct [z, l, e]"
    and "k1 < 8" "k2 < 8" "stack_room 16 s"
  shows "\<exists>chain t. f z l e (Instr opc [K k2] [K k1]) = Rw True chain \<and> exec chain s = Inr t
     \<and> agree 16 (abs_state t) ((abs_state s)\<lparr>aflg := aflg (abs_state t)\<rparr>)
     \<and> ZF (aflg (abs_state t)) = ZF (spec_kortest (8 * n) (ak (abs_state s) k1) (ak (abs_state s) k2))
     \<and> CF (aflg (abs_state t)) = CF (spec_kortest (8 * n) (ak (abs_state s) k1) (ak (abs_state s) k2))"
proof -
  let ?a = "ak (abs_state s) k1" and ?b = "ak (abs_state s) k2"
  let ?F = "kortest_flags (undef_bit s) n (take_bit (8 * n) (?a OR ?b))"
  have n: "n = 1 \<or> n = 2" using assms(1) by auto
  have "stack_room 8 s" using assms(5) by (rule stack_room_mono) simp
  have v: "take_bit (8 * n) (slot_val 8 (tls s) (kslot k1) OR slot_val 8 (tls s) (kslot k2)) = take_bit (8 * n) (?a OR ?b)"
    using assms(3,4) by (simp add: slot_val_kslot abs_state_def)
  have regs: "gpart (acc n) 0 n" "gpart (if n = 1 then DR_REG_DL else DR_REG_DX) 2 n"
    using n by (auto simp: gpart_acc)
  note defs = rw_func_kortestw_def rw_func_kortestb_def slot_simps immed_defs kortest_tail_of_def acc_def
  note same = kortest_same_effect [OF n assms(2) refl regs(1), of "tls s" "undef_bit s" "kslot k1"]
  note diff = kortest_diff_effect [OF n assms(2) refl regs, of "tls s" "undef_bit s" "kslot k1" "kslot k2"]
  have "\<exists>chain t. f z l e (Instr opc [K k2] [K k1]) = Rw True chain \<and> exec chain s = Inr t
      \<and> agree 16 (abs_state t) ((abs_state s)\<lparr>aflg := ?F\<rparr>)"
  proof (cases "k1 = k2")
    case True
    then have "slot_val 8 (tls s) (kslot k1) = ?a OR ?b" using assms(3) by (simp add: slot_val_kslot abs_state_def)
    then show ?thesis using True assms(1,3,4)
      by (intro rewrite_flags [OF same [unfolded \<open>slot_val _ _ _ = _\<close>] \<open>stack_room 8 s\<close>]) (auto simp: defs)
  next
    case False
    then show ?thesis using assms(1,3,4)
      by (intro rewrite_flags [OF diff [unfolded v] assms(5)]) (auto simp: defs)
  qed
  then show ?thesis using kortest_flags_spec [OF n refl, of "undef_bit s" ?a ?b]
    by (auto simp: agree_def)
qed


theorem kortest_rewrite_witness:
  "\<exists>chain t. rw_func_kortestw 0 1 2 (Instr (OP_AVX512 507) [K 3] [K 2]) = Rw True chain
     \<and> exec chain (sample (\<lambda>_. True) [0, 0, 0x1FF00, 0x500FF, 0, 0, 0, 0]) = Inr t
     \<and> \<not> ZF (aflg (abs_state t)) \<and> CF (aflg (abs_state t))"
proof -
  let ?s = "sample (\<lambda>_. True) [0, 0, 0x1FF00, 0x500FF, 0, 0, 0, 0]"
  have "spec_kortest (8 * 2) (ak (abs_state ?s) 2) (ak (abs_state ?s) 3)
      = \<lparr>CF = True, PF = False, AF = False, ZF = False, SF = False, OF = False\<rparr>"
    by (simp add: ak_sample spec_kortest_def mask_eq_exp_minus_1)
  then show ?thesis
    using kortest_rewrite [of rw_func_kortestw 2 0 1 2 2 3 ?s "OP_AVX512 507"]
    by (auto simp del: exec.simps)
qed

lemma ktest_core:
  assumes "gpart a 0 4"
  shows "effect 0 {0} True (\<lambda>u. tls u = \<sigma>) (\<lambda>t. tls t = \<sigma>)
     [RESTORE_FROM_SIZED_TLS a o1 4, INSTR_CREATE_test (OReg a) (OReg a), INSTR_CREATE_cmp (OReg a) (OImm (- 1) 4)]"
  using assms
  by (intro effect_core) (auto simp: step_simps reg_simps immed_size_ok_def)

lemma effect_nothing:
  assumes e: "effect m {} False (\<lambda>u. tls u = tls s) (\<lambda>t. tls t = tls s) chain" and s: "stack_room m s"
  shows "\<exists>t. exec chain s = Inr t \<and> agree m (abs_state t) (abs_state s)"
proof -
  obtain t where t: "exec chain s = Inr t" "tls t = tls s" "flg t = flg s" "ymm t = ymm s"
      "\<And>n. gpr t n = gpr s n" "keeps m s t"
    using effectD [OF e _ s] by auto
  then have "gpr t = gpr s" "abs_k t = abs_k s" by (auto simp: abs_k_def)
  moreover have "abs_zmm t = abs_zmm s" using t by (simp add: abs_zmm_def fun_eq_iff)
  ultimately show ?thesis using t by (auto simp: agree_def abs_state_def keeps_def)
qed

lemma ktestd_run:
  assumes "k < 8" "stack_room 16 s"
  shows "\<exists>chain t. rw_func_ktestd (Instr opc [K d] [K k]) = Rw False chain \<and> exec chain s = Inr t
     \<and> agree 16 (abs_state t) (abs_state s)"
  using effect_nothing [OF effect_saved1 [OF ktest_core [OF gpart_simps(8)]] assms(2), of "kslot k"] assms(1)
  by (simp add: rw_func_ktestd_def slot_simps immed_defs del: exec.simps)

text \<open>
  C30. The tests that do not reach the application's flags. \<open>ktestd\<close> computes its flags between
  \<open>pushf\<close> and \<open>popf\<close>, so the sequence has no effect the application can see, and the original
  stays in the list. The sequences of \<open>ktestw\<close>, \<open>ktestb\<close> and \<open>ktestq\<close> contain a comparison whose
  immediate has no encoding; \<open>kortestq\<close> and \<open>kortestd\<close> ask for a second source operand, which
  their decoded form, one destination and one source, does not have.
\<close>

theorem ktest_kortest_fail:
  assumes "k < 8" "stack_room 16 s"
  shows "(\<exists>chain t. rw_func_ktestd (Instr opc [K d] [K k]) = Rw False chain \<and> exec chain s = Inr t
      \<and> agree 16 (abs_state t) (abs_state s))
   \<and> (\<forall>f \<in> set [rw_func_ktestw, rw_func_ktestb, rw_func_ktestq].
      \<exists>chain. f (Instr opc [K d] [K k]) = Rw False chain \<and> \<not> list_all encodable chain)
   \<and> rw_func_kortestq (Instr opc [K d] [K k]) = RwCrash
   \<and> rw_func_kortestd (Instr opc [K d] [K k]) = RwCrash"
  using ktestd_run [OF assms, of opc d]
  by (simp add: rw_func_ktestw_def rw_func_ktestb_def rw_func_ktestq_def rw_func_kortestq_def rw_func_kortestd_def
      create_defs immed_defs immed_size_ok_def gpr_size_def reg_part_def src_reg_def instr_get_src_def del: exec.simps)

theorem ktest_kortest_fail_witness:
  "(\<exists>chain t. rw_func_ktestd (Instr (OP_AVX512 522) [K 1] [K 2]) = Rw False chain
     \<and> exec chain (sample (\<lambda>_. True) [0, 0, 0, 0, 0, 0, 0, 0]) = Inr t \<and> \<not> ZF (aflg (abs_state t)))
   \<and> (\<exists>chain. rw_func_ktestq (Instr (OP_AVX512 522) [K 1] [K 2]) = Rw False chain \<and> \<not> list_all encodable chain)
   \<and> rw_func_kortestq (Instr (OP_AVX512 522) [K 1] [K 2]) = RwCrash"
  using ktest_kortest_fail [of 2 "sample (\<lambda>_. True) [0, 0, 0, 0, 0, 0, 0, 0]" "OP_AVX512 522" 1]
  by (auto simp: agree_def simp del: exec.simps)

end
