(* ===== verification/Mask_Move.thy ===== *)
theory Mask_Move
  imports Mask_Logic
begin

text \<open>
  Rewriting of the mask moves \<open>kmovw\<close>, \<open>kmovb\<close>, \<open>kmovq\<close> and \<open>kmovd\<close>
  (\<open>core/arch/rewrite.c\<close>): from a mask register to a general-purpose register, back, and
  between mask registers. The theorems give, for every register, what each emitted sequence
  leaves in the application's state, and for which registers that is the documented move.
\<close>

section \<open>The rewrite functions\<close>

text \<open>Which of the two operands is a mask register: 1 the source, 2 the destination, 3 both.\<close>

definition mask_flag :: "reg_id \<Rightarrow> reg_id \<Rightarrow> nat" where
  "mask_flag src dst = (if IS_MASK_REG src then 1 else 0) OR (if IS_MASK_REG dst then 2 else 0)"

definition to_word_gpr :: "reg_id \<Rightarrow> reg_id" where
  "to_word_gpr r =
     (if IS_DWORD_GPR r then GPR_DWORD_TO_WORD r
      else if IS_QWORD_GPR r then GPR_QWORD_TO_WORD r else r)"

definition rw_func_kmovw :: "instr \<Rightarrow> rw_result" where
  "rw_func_kmovw i =
     (case (src_reg i 0, dst_reg i 0) of
        (Some sreg, Some dreg) \<Rightarrow>
          if mask_flag sreg dreg = 1 then Rw True
            [RESTORE_FROM_SIZED_TLS (to_word_gpr dreg) (TLS_K_idx_SLOT (TO_K_REG_INDEX sreg)) 2,
             INSTR_CREATE_movzx (OReg DR_REG_EAX) (OReg DR_REG_AX)]
          else if mask_flag sreg dreg = 2 then Rw True
            [SAVE_TO_TLS DR_REG_RAX TLS_REG1_SLOT,
             INSTR_CREATE_xor (OReg DR_REG_RAX) (OReg DR_REG_RAX),
             SAVE_TO_TLS DR_REG_RAX (TLS_K_idx_SLOT (TO_K_REG_INDEX dreg)),
             SAVE_TO_SIZED_TLS (to_word_gpr sreg) (TLS_K_idx_SLOT (TO_K_REG_INDEX dreg)) 2,
             RESTORE_FROM_TLS DR_REG_RAX TLS_REG1_SLOT]
          else if mask_flag sreg dreg = 3 then Rw True
            [SAVE_TO_TLS DR_REG_RAX TLS_REG1_SLOT,
             RESTORE_FROM_SIZED_TLS DR_REG_RAX (TLS_K_idx_SLOT (TO_K_REG_INDEX sreg)) 8,
             SAVE_TO_SIZED_TLS (GPR_QWORD_TO_WORD DR_REG_RAX) (TLS_K_idx_SLOT (TO_K_REG_INDEX dreg)) 2,
             RESTORE_FROM_TLS DR_REG_RAX TLS_REG1_SLOT]
          else RwNull True
      | _ \<Rightarrow> RwCrash)"

definition rw_func_kmovb :: "instr \<Rightarrow> rw_result" where
  "rw_func_kmovb i =
     (case (src_reg i 0, dst_reg i 0) of
        (Some sreg, Some dreg) \<Rightarrow>
          if mask_flag sreg dreg = 1 then
            (if IS_QWORD_GPR dreg then Rw True
               [INSTR_CREATE_pushf,
                INSTR_CREATE_xor (OReg dreg) (OReg dreg),
                RESTORE_FROM_SIZED_TLS (GPR_QWORD_TO_BYTE dreg) (TLS_K_idx_SLOT (TO_K_REG_INDEX sreg)) 1,
                INSTR_CREATE_popf]
             else if IS_DWORD_GPR dreg then Rw True
               [INSTR_CREATE_pushf,
                INSTR_CREATE_xor (OReg dreg) (OReg dreg),
                RESTORE_FROM_SIZED_TLS (GPR_DWORD_TO_BYTE dreg) (TLS_K_idx_SLOT (TO_K_REG_INDEX sreg)) 1,
                INSTR_CREATE_popf]
             else RwNull True)
          else if mask_flag sreg dreg = 2 then
            (let sbyte = (if IS_DWORD_GPR sreg then GPR_DWORD_TO_BYTE sreg
                          else if IS_QWORD_GPR sreg then GPR_QWORD_TO_BYTE sreg
                          else if IS_WORD_GPR sreg then GPR_WORD_TO_BYTE sreg else sreg) in
             Rw True
               [INSTR_CREATE_pushf,
                INSTR_CREATE_push (OReg DR_REG_R15),
                INSTR_CREATE_xor (OReg DR_REG_R15) (OReg DR_REG_R15),
                SAVE_TO_TLS DR_REG_R15 (TLS_K_idx_SLOT (TO_K_REG_INDEX dreg)),
                SAVE_TO_SIZED_TLS sbyte (TLS_K_idx_SLOT (TO_K_REG_INDEX dreg)) 1,
                INSTR_CREATE_pop (OReg DR_REG_R15),
                INSTR_CREATE_popf])
          else if mask_flag sreg dreg = 3 then Rw True
            [INSTR_CREATE_pushf,
             SAVE_TO_TLS DR_REG_R11 TLS_REG1_SLOT,
             SAVE_TO_TLS DR_REG_R12 TLS_REG2_SLOT,
             INSTR_CREATE_xor (OReg DR_REG_R12) (OReg DR_REG_R12),
             SAVE_TO_TLS DR_REG_R12 (TLS_K_idx_SLOT (TO_K_REG_INDEX dreg)),
             RESTORE_FROM_SIZED_TLS (GPR_QWORD_TO_BYTE DR_REG_R11) (TLS_K_idx_SLOT (TO_K_REG_INDEX sreg)) 1,
             SAVE_TO_SIZED_TLS (GPR_QWORD_TO_BYTE DR_REG_R11) (TLS_K_idx_SLOT (TO_K_REG_INDEX dreg)) 1,
             RESTORE_FROM_TLS DR_REG_R12 TLS_REG2_SLOT,
             RESTORE_FROM_TLS DR_REG_R11 TLS_REG1_SLOT,
             INSTR_CREATE_popf]
          else RwNull True
      | _ \<Rightarrow> RwCrash)"

definition rw_func_kmovq :: "instr \<Rightarrow> rw_result" where
  "rw_func_kmovq i =
     (case (src_reg i 0, dst_reg i 0) of
        (Some sreg, Some dreg) \<Rightarrow>
          if mask_flag sreg dreg = 1 then Rw True
            [RESTORE_FROM_TLS dreg (TLS_K_idx_SLOT (TO_K_REG_INDEX sreg))]
          else if mask_flag sreg dreg = 2 then Rw True
            [SAVE_TO_TLS sreg (TLS_K_idx_SLOT (TO_K_REG_INDEX dreg))]
          else if mask_flag sreg dreg = 3 then Rw True
            [SAVE_TO_TLS DR_REG_RAX TLS_REG1_SLOT,
             RESTORE_FROM_TLS DR_REG_RAX (TLS_K_idx_SLOT (TO_K_REG_INDEX sreg)),
             SAVE_TO_TLS DR_REG_RAX (TLS_K_idx_SLOT (TO_K_REG_INDEX dreg)),
             RESTORE_FROM_TLS DR_REG_RAX TLS_REG1_SLOT]
          else RwNull True
      | _ \<Rightarrow> RwCrash)"

definition rw_func_kmovd :: "instr \<Rightarrow> rw_result" where
  "rw_func_kmovd i =
     (case (src_reg i 0, dst_reg i 0) of
        (Some sreg, Some dreg) \<Rightarrow>
          if mask_flag sreg dreg = 1 then Rw True
            [RESTORE_FROM_SIZED_TLS dreg (TLS_K_idx_SLOT (TO_K_REG_INDEX sreg)) 4]
          else if mask_flag sreg dreg = 2 then Rw True
            [SAVE_TO_TLS DR_REG_RAX TLS_REG1_SLOT,
             INSTR_CREATE_xor (OReg DR_REG_RAX) (OReg DR_REG_RAX),
             SAVE_TO_TLS DR_REG_RAX (TLS_K_idx_SLOT (TO_K_REG_INDEX dreg)),
             SAVE_TO_SIZED_TLS sreg (TLS_K_idx_SLOT (TO_K_REG_INDEX dreg)) 4,
             RESTORE_FROM_TLS DR_REG_RAX TLS_REG1_SLOT]
          else if mask_flag sreg dreg = 3 then Rw True
            [SAVE_TO_TLS DR_REG_RAX TLS_REG1_SLOT,
             SAVE_TO_TLS DR_REG_RCX TLS_REG2_SLOT,
             INSTR_CREATE_xor (OReg DR_REG_RCX) (OReg DR_REG_RCX),
             SAVE_TO_TLS DR_REG_RCX (TLS_K_idx_SLOT (TO_K_REG_INDEX dreg)),
             RESTORE_FROM_SIZED_TLS DR_REG_RAX (TLS_K_idx_SLOT (TO_K_REG_INDEX sreg)) 4,
             SAVE_TO_SIZED_TLS DR_REG_RAX (TLS_K_idx_SLOT (TO_K_REG_INDEX dreg)) 4,
             RESTORE_FROM_TLS DR_REG_RCX TLS_REG2_SLOT,
             RESTORE_FROM_TLS DR_REG_RAX TLS_REG1_SLOT]
          else RwNull True
      | _ \<Rightarrow> RwCrash)"

section \<open>Operands\<close>

lemma mask_flag_simps [simp]:
  "k < 8 \<Longrightarrow> g < 100 \<Longrightarrow> mask_flag (DR_REG_K0 + k) g = Suc 0"
  "k < 8 \<Longrightarrow> g < 100 \<Longrightarrow> mask_flag g (DR_REG_K0 + k) = 2"
  "k < 8 \<Longrightarrow> d < 8 \<Longrightarrow> mask_flag (DR_REG_K0 + k) (DR_REG_K0 + d) = 3"
  by (simp_all add: mask_flag_def IS_MASK_REG_def)

text \<open>The part of register \<open>g\<close> that a name stands for, and the names the macros convert to.\<close>

lemma gpr_cases:
  "g < 16 \<Longrightarrow> g = 0 \<or> g = 1 \<or> g = 2 \<or> g = 3 \<or> g = 4 \<or> g = 5 \<or> g = 6 \<or> g = 7 \<or> g = 8 \<or> g = 9 \<or> g = 10
     \<or> g = 11 \<or> g = 12 \<or> g = 13 \<or> g = 14 \<or> g = (15 :: nat)"
  by arith

lemma gpart_full: "g < 16 \<Longrightarrow> gpart (DR_REG_RAX + g) g 8" "g < 16 \<Longrightarrow> gpart (DR_REG_EAX + g) g 4"
  by (simp_all add: gpart_def reg_part_def)

lemma gpart_to_word:
  assumes "g < 16"
  shows "gpart (to_word_gpr (DR_REG_EAX + g)) g 2" "gpart (to_word_gpr (DR_REG_RAX + g)) g 2"
  using gpr_cases [OF assms]
  by (elim disjE; simp add: to_word_gpr_def gpart_def reg_part_def reg_class_defs reg_conv_defs)+

lemma gpart_to_byte:
  assumes "g < 16"
  shows "gpart (GPR_QWORD_TO_BYTE (DR_REG_RAX + g)) g 1" "gpart (GPR_DWORD_TO_BYTE (DR_REG_EAX + g)) g 1"
  using gpr_cases [OF assms] by (elim disjE; simp add: gpart_def reg_part_def reg_conv_defs)+

lemma gpr_class:
  assumes "g < 16"
  shows "IS_QWORD_GPR (DR_REG_RAX + g)" "IS_DWORD_GPR (DR_REG_EAX + g)" "\<not> IS_QWORD_GPR (DR_REG_EAX + g)"
    "\<not> IS_DWORD_GPR (DR_REG_RAX + g)"
  using assms by (simp_all add: reg_class_defs)

section \<open>The application's view after a move\<close>

definition set_r :: "nat \<Rightarrow> 64 word \<Rightarrow> astate \<Rightarrow> astate" where
  "set_r g v a = a\<lparr>agpr := (agpr a)(g := v)\<rparr>"

lemma view_set_k:
  assumes "tls t = tls_put \<tau> (kslot d) n (byte_of v)" "abs_k (s\<lparr>tls := \<tau>\<rparr>) = abs_k s"
    and "abs_zmm (s\<lparr>tls := \<tau>\<rparr>) = abs_zmm s" "d < 8" "n \<le> 8" "\<And>k. gpr t k = gpr s k" "ymm t = ymm s"
    and "keeps m s t" "flg t = f"
  shows "agree m (abs_state t) ((set_k d (set_low n (ak (abs_state s) d) v) (abs_state s))\<lparr>aflg := f\<rparr>)"
proof -
  have "gpr t = gpr s" using assms(6) by auto
  moreover have "abs_k t = (abs_k s)(d := set_low n (abs_k s d) v)"
    using abs_k_put [of d n t "s\<lparr>tls := \<tau>\<rparr>" v] assms by simp
  moreover have "kslot d + n \<le> 128" using assms(4,5) by (simp add: kslot_def)
  then have "abs_zmm t = abs_zmm s"
    using abs_zmm_put_low [of t "s\<lparr>tls := \<tau>\<rparr>" "kslot d" n "byte_of v"] assms by simp
  ultimately show ?thesis using assms by (simp add: agree_def abs_state_def set_k_def keeps_def)
qed

lemma view_set_r:
  assumes "tls t = tls s" "\<And>k. gpr t k = (if k = g then v else gpr s k)" "ymm t = ymm s" "mapped t = mapped s"
    and "flg t = flg s" "\<And>x. \<not> below (gpr t 4) m x \<Longrightarrow> mem t x = mem s x"
  shows "agree m (abs_state t) (set_r g v (abs_state s))"
proof -
  have "abs_k t = abs_k s" using assms(1) by (auto simp: abs_k_def)
  moreover have "abs_zmm t = abs_zmm s" using assms(1,3) by (simp add: abs_zmm_def fun_eq_iff)
  moreover have "gpr t = (gpr s)(g := v)" using assms(2) by (auto simp: fun_eq_iff)
  ultimately show ?thesis using assms by (simp add: agree_def abs_state_def set_r_def)
qed

text \<open>Zeroing the slot first and storing the low bytes clears the rest of the register.\<close>

lemma tls_put_zero_low:
  "n \<le> 8 \<Longrightarrow> tls_put (tls_put \<tau> off 8 (byte_of 0)) off n (byte_of v)
     = tls_put \<tau> off 8 (byte_of (take_bit (8 * n) v))" for v :: "64 word"
  by (auto simp: tls_put_def fun_eq_iff bit_eq_iff bit_simps)

lemma scratch1:
  "abs_k (s\<lparr>tls := tls_put (tls s) 8 8 f\<rparr>) = abs_k s" "abs_zmm (s\<lparr>tls := tls_put (tls s) 8 8 f\<rparr>) = abs_zmm s"
  by (rule scratch_view; simp)+

lemma scratch2:
  "abs_k (s\<lparr>tls := tls_put (tls_put (tls s) 8 8 f) 16 8 h\<rparr>) = abs_k s"
  "abs_zmm (s\<lparr>tls := tls_put (tls_put (tls s) 8 8 f) 16 8 h\<rparr>) = abs_zmm s"
  by (rule scratch_view; simp add: scratch1)+

section \<open>Executing the sequences\<close>

lemma full_tls:
  "RESTORE_FROM_TLS r off = RESTORE_FROM_SIZED_TLS r off 8" "SAVE_TO_TLS r off = SAVE_TO_SIZED_TLS r off 8"
  by (simp_all add: create_defs)

lemma kmov_from_core:
  assumes "gpart a 0 8" "gpart r g n" "32 \<le> od"
    and v: "v = (if g = 0 then 0 else take_bit (8 * n) (gpr s g))"
  shows "\<exists>t. exec [SAVE_TO_TLS a 8, INSTR_CREATE_xor (OReg a) (OReg a), SAVE_TO_TLS a od,
      SAVE_TO_SIZED_TLS r od n, RESTORE_FROM_TLS a 8] s = Inr t
    \<and> tls t = tls_put (tls_put (tls s) 8 8 (byte_of (gpr s 0))) od 8 (byte_of v)
    \<and> (\<forall>k. gpr t k = gpr s k) \<and> ymm t = ymm s \<and> mem t = mem s \<and> mapped t = mapped s
    \<and> flg t = logic_flags (undef_bit s) 8 0"
proof -
  have "n \<le> 8" using gpart_gp_size [OF assms(2)] by auto
  have base: "gpr_read s a = gpr s 0" "gpr_read s r = take_bit (8 * n) (gpr s g)"
    using assms(1,2) by (simp_all add: gpr_read_gpart)
  have other: "gpr (gpr_write u a (gpr s 0)) k = gpr s k"
    if "\<And>j. j \<noteq> 0 \<Longrightarrow> gpr u j = gpr s j" for u k
    using that [of k] assms(1) by (simp add: gpr_write_gpart put_part_def)
  have read: "gpr_read (alu_write OP_xor a 8 (gpr s 0) u) r = v"
    if "u = s\<lparr>tls := \<tau>\<rparr>" for u \<tau>
    using that assms base by (cases "g = 0") (simp_all add: gpr_read_alu_narrow gpr_read_alu_other)
  show ?thesis
    using assms(1-3) \<open>n \<le> 8\<close>
    by (simp add: step_simps reg_simps le_get_put_disj le_get_put_same le_byte_of base other read
        tls_put_zero_low flg_alu_write v)
qed

lemma kmovb_to_core:
  assumes "gpart r g n" "n = 4 \<or> n = 8" "gpart b g 1" "g \<noteq> 4"
  shows "effect 0 {g} True (\<lambda>u. tls u = \<sigma>) (\<lambda>t. tls t = \<sigma> \<and> gpr t g = slot_val 1 \<sigma> off)
     [INSTR_CREATE_xor (OReg r) (OReg r), RESTORE_FROM_SIZED_TLS b off 1]"
proof -
  have zero: "gpr (alu_write OP_xor r n (gpr_read u r) u) g = 0" for u
    using assms(1,2) by (auto simp: alu_write_def alu2_def gpr_write_gpart put_part_def)
  have byte: "set_low (Suc 0) 0 (ucast w) = (ucast w :: 64 word)" for w :: "8 word"
    by (rule bit_word_eqI) (auto simp: bit_simps dest: bit_imp_le_length)
  show ?thesis
    using assms(1,3,4)
    by (intro effect_core)
      (auto simp: step_simps reg_simps slot_val_def gpr_write_gpart zero put_part_def byte)
qed

lemma kmovb_from_core:
  assumes "gpart a 15 8" "gpart b g 1" "g \<noteq> 15"
  shows "effect 0 {15} True (\<lambda>u. tls u = \<sigma> \<and> gpr u g = x)
     (\<lambda>t. tls t = tls_put \<sigma> od 8 (byte_of (take_bit 8 x)))
     [INSTR_CREATE_xor (OReg a) (OReg a), SAVE_TO_TLS a od, SAVE_TO_SIZED_TLS b od 1]"
  using assms
  by (intro effect_core)
    (auto simp: step_simps reg_simps tls_put_zero_low [of 1, simplified] gpr_read_gpart [of b])

lemma kmovb_from_r15_core:
  assumes "gpart a 15 8" "gpart b 15 1"
  shows "effect 0 {15} True (\<lambda>u. tls u = \<sigma>) (\<lambda>t. tls t = tls_put \<sigma> od 8 (byte_of (0 :: 64 word)))
     [INSTR_CREATE_xor (OReg a) (OReg a), SAVE_TO_TLS a od, SAVE_TO_SIZED_TLS b od 1]"
  using assms
  by (intro effect_core)
    (auto simp: step_simps reg_simps gpr_read_alu_narrow tls_put_zero_low [of 1, simplified])

lemma kmovb_between_exec:
  assumes "gpart a 11 8" "gpart b 12 8" "gpart c 11 1" "32 \<le> o1" "32 \<le> od"
    and o: "o1 = od \<or> o1 + 8 \<le> od \<or> od + 8 \<le> o1"
    and v: "v = (if o1 = od then 0 else slot_val 1 (tls s) o1)"
  shows "\<exists>t. exec [SAVE_TO_TLS a 8, SAVE_TO_TLS b 16, INSTR_CREATE_xor (OReg b) (OReg b), SAVE_TO_TLS b od,
      RESTORE_FROM_SIZED_TLS c o1 1, SAVE_TO_SIZED_TLS c od 1, RESTORE_FROM_TLS b 16, RESTORE_FROM_TLS a 8] s = Inr t
    \<and> tls t = tls_put (tls_put (tls_put (tls s) 8 8 (byte_of (gpr s 11))) 16 8 (byte_of (gpr s 12))) od 8 (byte_of v)
    \<and> (\<forall>k. gpr t k = gpr s k) \<and> ymm t = ymm s \<and> mem t = mem s \<and> mapped t = mapped s"
proof -
  let ?\<tau> = "tls_put (tls_put (tls s) 8 8 (byte_of (gpr s 11))) 16 8 (byte_of (gpr s 12))"
  have load: "ucast (tls_get (tls_put ?\<tau> od 8 (byte_of (0 :: 64 word))) o1 0) = v"
    using assms(4) o v by (cases "o1 = od") (auto simp: tls_get_def tls_put_def slot_val_def byte_of_def)
  have vb: "take_bit 8 v = v" using v by (simp add: slot_val_def take_bit_le [of 1, simplified])
  have base: "gpr_read s a = gpr s 11" "gpr_read s b = gpr s 12" using assms(1,2) by (simp_all add: gpr_read_gpart)
  have other: "gpr (gpr_write (gpr_write (gpr_write u c z) b (gpr s 12)) a (gpr s 11)) k = gpr s k"
    if "\<And>j. j \<noteq> 12 \<Longrightarrow> gpr u j = gpr s j" for u z k
    using that [of k] assms(1-3) by (auto simp: gpr_write_gpart put_part_def)
  have other': "gpr (gpr_write (gpr_write ((gpr_write u c z)\<lparr>tls := \<theta>\<rparr>) b (gpr s 12)) a (gpr s 11)) k = gpr s k"
    if "\<And>j. j \<noteq> 12 \<Longrightarrow> gpr u j = gpr s j" for u z k \<theta>
    using that [of k] assms(1-3) by (auto simp: gpr_write_gpart put_part_def)
  show ?thesis
    using assms(1-5)
    by (simp add: step_simps reg_simps le_get_put_disj le_get_put_same le_byte_of base load other other'
        tls_put_zero_low [of 1, simplified] vb)
qed

lemma kmovb_between_core:
  assumes "gpart a 11 8" "gpart b 12 8" "gpart c 11 1" "32 \<le> o1" "32 \<le> od"
    and o: "o1 = od \<or> o1 + 8 \<le> od \<or> od + 8 \<le> o1"
    and v: "v = (if o1 = od then 0 else slot_val 1 \<sigma> o1)"
  shows "effect 0 {} True (\<lambda>u. tls u = \<sigma> \<and> gpr u 11 = x \<and> gpr u 12 = y)
     (\<lambda>t. tls t = tls_put (tls_put (tls_put \<sigma> 8 8 (byte_of x)) 16 8 (byte_of y)) od 8 (byte_of v))
     [SAVE_TO_TLS a 8, SAVE_TO_TLS b 16, INSTR_CREATE_xor (OReg b) (OReg b), SAVE_TO_TLS b od,
      RESTORE_FROM_SIZED_TLS c o1 1, SAVE_TO_SIZED_TLS c od 1, RESTORE_FROM_TLS b 16, RESTORE_FROM_TLS a 8]"
proof (rule effectI)
  fix s :: mstate assume s: "tls s = \<sigma> \<and> gpr s 11 = x \<and> gpr s 12 = y"
  then show "\<exists>t. exec [SAVE_TO_TLS a 8, SAVE_TO_TLS b 16, INSTR_CREATE_xor (OReg b) (OReg b), SAVE_TO_TLS b od,
      RESTORE_FROM_SIZED_TLS c o1 1, SAVE_TO_SIZED_TLS c od 1, RESTORE_FROM_TLS b 16, RESTORE_FROM_TLS a 8] s = Inr t
    \<and> tls t = tls_put (tls_put (tls_put \<sigma> 8 8 (byte_of x)) 16 8 (byte_of y)) od 8 (byte_of v)
    \<and> ymm t = ymm s \<and> (\<forall>n. n \<notin> {} \<longrightarrow> gpr t n = gpr s n) \<and> (True \<or> flg t = flg s) \<and> keeps 0 s t"
    using kmovb_between_exec [OF assms(1-6), of v s] v by (auto simp: keeps_def simp del: exec.simps)
qed

section \<open>Correctness of the moves\<close>

lemma kmov_load:
  assumes "gpart r g n" "n = 4 \<or> n = 8"
  shows "\<exists>t. exec [RESTORE_FROM_SIZED_TLS r (kslot k) n] s = Inr t
     \<and> agree 0 (abs_state t) (set_r g (slot_val n (tls s) (kslot k)) (abs_state s))"
proof -
  let ?t = "gpr_write s r (slot_val n (tls s) (kslot k))"
  have "take_bit 32 (slot_val 4 (tls s) (kslot k)) = slot_val 4 (tls s) (kslot k)"
    by (simp add: slot_val_def take_bit_le)
  then have "agree 0 (abs_state ?t) (set_r g (slot_val n (tls s) (kslot k)) (abs_state s))"
    using assms by (intro view_set_r) (auto simp: gpr_write_gpart put_part_def)
  then show ?thesis using assms(1) by (simp add: step_simps slot_val_def)
qed

lemma kmovb_load:
  assumes "gpart r g n" "n = 4 \<or> n = 8" "gpart b g 1" "g \<noteq> 4" "stack_room 8 s"
  shows "\<exists>t. exec [INSTR_CREATE_pushf, INSTR_CREATE_xor (OReg r) (OReg r),
        RESTORE_FROM_SIZED_TLS b (kslot k) 1, INSTR_CREATE_popf] s = Inr t
     \<and> agree 8 (abs_state t) (set_r g (slot_val 1 (tls s) (kslot k)) (abs_state s))"
proof -
  have "effect (0 + 8) {g} False (\<lambda>u. tls u = tls s)
      (\<lambda>t. tls t = tls s \<and> gpr t g = slot_val 1 (tls s) (kslot k))
      (INSTR_CREATE_pushf # [INSTR_CREATE_xor (OReg r) (OReg r), RESTORE_FROM_SIZED_TLS b (kslot k) 1]
         @ [INSTR_CREATE_popf])"
    by (rule effect_pushf [OF kmovb_to_core [OF assms(1-4)]]) (use assms(4) in auto)
  from effectD [OF this refl] assms(5) obtain t where t: "exec [INSTR_CREATE_pushf, INSTR_CREATE_xor (OReg r) (OReg r),
        RESTORE_FROM_SIZED_TLS b (kslot k) 1, INSTR_CREATE_popf] s = Inr t"
      "tls t = tls s" "gpr t g = slot_val 1 (tls s) (kslot k)" "ymm t = ymm s" "\<And>n. n \<notin> {g} \<Longrightarrow> gpr t n = gpr s n"
      "flg t = flg s" "keeps 8 s t"
    by (auto simp del: exec.simps)
  then have "agree 8 (abs_state t) (set_r g (slot_val 1 (tls s) (kslot k)) (abs_state s))"
    using assms(4) by (intro view_set_r) (auto simp: keeps_def)
  then show ?thesis using t(1) by blast
qed

lemma kmov_to_gpr_run:
  assumes "(f, base, n) \<in> set [(rw_func_kmovq, DR_REG_RAX, 8), (rw_func_kmovd, DR_REG_EAX, 4),
      (rw_func_kmovb, DR_REG_RAX, 1), (rw_func_kmovb, DR_REG_EAX, 1)]"
    and "g < 16" "k < 8" "n = 1 \<Longrightarrow> g \<noteq> 4 \<and> stack_room 8 s"
  shows "\<exists>chain t. f (Instr opc [OReg (base + g)] [K k]) = Rw True chain \<and> exec chain s = Inr t
     \<and> agree (if n = 1 then 8 else 0) (abs_state t) (set_r g (take_bit (8 * n) (ak (abs_state s) k)) (abs_state s))"
proof -
  have sl: "slot_val m (tls s) (kslot k) = take_bit (8 * m) (ak (abs_state s) k)" if "m \<le> 8" for m
    using that assms(3) by (simp add: slot_val_kslot abs_state_def)
  note q = kmov_load [OF gpart_full(1) [OF assms(2)], of k s]
    and d = kmov_load [OF gpart_full(2) [OF assms(2)], of k s]
    and b = kmovb_load [OF gpart_full(1) [OF assms(2)] _ gpart_to_byte(1) [OF assms(2)], where k = k and s = s]
      kmovb_load [OF gpart_full(2) [OF assms(2)] _ gpart_to_byte(2) [OF assms(2)], where k = k and s = s]
  show ?thesis
    using assms q d b gpr_class [OF assms(2)]
    by (auto simp: rw_func_kmovq_def rw_func_kmovd_def rw_func_kmovb_def slot_simps sl full_tls simp del: exec.simps)
qed

text \<open>
  C18. \<open>kmovq\<close>, \<open>kmovd\<close> and \<open>kmovb\<close> from a mask register to a general-purpose register remove the original
  and set the register to the zero-extended mask of their width. \<open>kmovq\<close> and \<open>kmovd\<close> do so for
  all 16 registers and change nothing else. \<open>kmovb\<close> saves the flags on the stack: for a destination other
  than \<open>rsp\<close>, with the 8 bytes below the stack pointer mapped, it changes nothing but
  these 8 bytes, and the flags are kept.
\<close>

theorem kmov_to_gpr_rewrite:
  assumes "(f, base, n) \<in> set [(rw_func_kmovq, DR_REG_RAX, 8), (rw_func_kmovd, DR_REG_EAX, 4),
      (rw_func_kmovb, DR_REG_RAX, 1), (rw_func_kmovb, DR_REG_EAX, 1)]"
    and "g < 16" "k < 8" "n = 1 \<Longrightarrow> g \<noteq> 4 \<and> stack_room 8 s"
  shows "\<exists>chain t. f (Instr opc [OReg (base + g)] [K k]) = Rw True chain \<and> exec chain s = Inr t
     \<and> agree (if n = 1 then 8 else 0) (abs_state t) (set_r g (take_bit (8 * n) (ak (abs_state s) k)) (abs_state s))"
  using assms by (rule kmov_to_gpr_run)

lemma witness_r:
  assumes "\<exists>chain t. r = Rw rm chain \<and> exec chain s = Inr t \<and> agree m (abs_state t) (set_r g v a)" "v = w"
  shows "\<exists>chain t. r = Rw rm chain \<and> exec chain s = Inr t \<and> agpr (abs_state t) g = w"
  using assms unfolding agree_def set_r_def by force

theorem kmov_to_gpr_rewrite_witness:
  "\<exists>chain t. rw_func_kmovb (Instr (OP_AVX512 473) [OReg DR_REG_R8D] [K 2]) = Rw True chain
     \<and> exec chain (sample (\<lambda>_. True) [0, 0, 0x1234, 0, 0, 0, 0, 0]) = Inr t \<and> agpr (abs_state t) 8 = 0x34"
  using witness_r [OF kmov_to_gpr_rewrite [of rw_func_kmovb DR_REG_EAX 1 8 2
      "sample (\<lambda>_. True) [0, 0, 0x1234, 0, 0, 0, 0, 0]" "OP_AVX512 473"], OF _ _ _ _ refl]
  by (simp add: ak_sample del: exec.simps)

lemma view_gpr_iff:
  assumes "tls t = tls s" "ymm t = ymm s" "mapped t = mapped s" "flg t = flg s" "mem t = mem s"
  shows "agree 0 (abs_state t) ((abs_state s)\<lparr>agpr := h\<rparr>) \<longleftrightarrow> gpr t = h"
proof -
  have "abs_k t = abs_k s" using assms(1) by (auto simp: abs_k_def)
  moreover have "abs_zmm t = abs_zmm s" using assms(1,2) by (simp add: abs_zmm_def fun_eq_iff)
  ultimately show ?thesis using assms by (auto simp: agree_def abs_state_def)
qed

lemma take_bit_same_iff: "take_bit n w = w \<longleftrightarrow> drop_bit n w = 0" for w :: "64 word"
proof
  assume "take_bit n w = w"
  moreover have "drop_bit n (take_bit n w) = 0" by (simp add: drop_bit_take_bit)
  ultimately show "drop_bit n w = 0" by simp
next
  assume "drop_bit n w = 0"
  then show "take_bit n w = w" using bits_ident [of n w] by simp
qed

lemma kmovw_gprs:
  assumes "f1 = f(g := set_low 2 (f g) v)"
  shows "f1(0 := take_bit 16 (f1 0)) = f(g := take_bit 16 v) \<longleftrightarrow>
     g = 0 \<or> drop_bit 16 (f g) = 0 \<and> drop_bit 16 (f 0) = (0 :: 64 word)"
proof (cases "g = 0")
  case True
  then show ?thesis using assms take_bit_set_low [of 2 "f 0" v] by auto
next
  case False
  then have "f1(0 := take_bit 16 (f1 0)) = f(g := take_bit 16 v) \<longleftrightarrow>
      set_low 2 (f g) v = take_bit 16 v \<and> take_bit 16 (f 0) = f 0"
    using assms by (auto simp: fun_eq_iff)
  then show ?thesis using False set_low_eq_take_bit_iff [of 2 "f g" v] by (simp add: take_bit_same_iff)
qed

text \<open>
  C29. \<open>kmovw\<close> to a general-purpose register writes the low 16 bits of the register and
  then zero-extends \<open>ax\<close> into \<open>rax\<close>, whatever the destination. The result is the documented
  move exactly if the destination is \<open>eax\<close>, or the upper 48 bits of both the destination
  and \<open>rax\<close> were clear.
\<close>

theorem kmovw_to_gpr_rewrite:
  assumes "base = DR_REG_RAX \<or> base = DR_REG_EAX" "g < 16" "k < 8"
    and a: "a = set_r g (set_low 2 (agpr (abs_state s) g) (ak (abs_state s) k)) (abs_state s)"
  shows "\<exists>chain t. rw_func_kmovw (Instr opc [OReg (base + g)] [K k]) = Rw True chain \<and> exec chain s = Inr t
     \<and> agree 0 (abs_state t) (set_r 0 (take_bit 16 (agpr a 0)) a)
     \<and> (agree 0 (abs_state t) (set_r g (take_bit 16 (ak (abs_state s) k)) (abs_state s)) \<longleftrightarrow>
          g = 0 \<or> drop_bit 16 (agpr (abs_state s) g) = 0 \<and> drop_bit 16 (agpr (abs_state s) 0) = 0)"
proof -
  have r: "gpart (to_word_gpr (base + g)) g 2" using assms(1) gpart_to_word [OF assms(2)] by auto
  have lo: "slot_val 2 (tls s) (kslot k) = take_bit 16 (ak (abs_state s) k)"
    using assms(3) by (simp add: slot_val_kslot abs_state_def)
  define f1 where "f1 = (gpr s)(g := set_low 2 (gpr s g) (ak (abs_state s) k))"
  let ?t1 = "gpr_write s (to_word_gpr (base + g)) (slot_val 2 (tls s) (kslot k))"
  let ?t = "gpr_write ?t1 DR_REG_EAX (gpr_read ?t1 DR_REG_AX)"
  have "gpr ?t1 = f1" using r by (simp add: gpr_write_gpart put_part_def lo f1_def set_low_take_bit [of 2, simplified])
  then have t: "gpr ?t = f1(0 := take_bit 16 (f1 0))"
    by (simp add: gpr_write_gpart [of DR_REG_EAX 0 4, simplified] gpr_read_gpart [of DR_REG_AX 0 2, simplified] put_part_def)
  have "rw_func_kmovw (Instr opc [OReg (base + g)] [K k]) = Rw True
      [RESTORE_FROM_SIZED_TLS (to_word_gpr (base + g)) (kslot k) 2, INSTR_CREATE_movzx (OReg DR_REG_EAX) (OReg DR_REG_AX)]"
    using assms(1-3) by (auto simp: rw_func_kmovw_def slot_simps)
  moreover have "exec [RESTORE_FROM_SIZED_TLS (to_word_gpr (base + g)) (kslot k) 2,
      INSTR_CREATE_movzx (OReg DR_REG_EAX) (OReg DR_REG_AX)] s = Inr ?t"
    using r by (simp add: step_restore step_movzx [of DR_REG_EAX 0 4 DR_REG_AX 0 2, simplified] slot_val_def)
  moreover have "set_r 0 (take_bit 16 (agpr a 0)) a = (abs_state s)\<lparr>agpr := f1(0 := take_bit 16 (f1 0))\<rparr>"
      "set_r g (take_bit 16 (ak (abs_state s) k)) (abs_state s)
         = (abs_state s)\<lparr>agpr := (gpr s)(g := take_bit 16 (ak (abs_state s) k))\<rparr>"
    by (simp_all add: a set_r_def f1_def abs_state_def)
  moreover have "agpr (abs_state s) = gpr s" by (simp add: abs_state_def)
  ultimately show ?thesis using kmovw_gprs [OF f1_def] by (simp add: view_gpr_iff t del: exec.simps)
qed

theorem kmovw_to_gpr_rewrite_witness:
  "\<exists>chain t. rw_func_kmovw (Instr (OP_AVX512 472) [OReg DR_REG_ECX] [K 2]) = Rw True chain
     \<and> exec chain ((sample (\<lambda>_. True) [0, 0, 0x51234, 0, 0, 0, 0, 0])\<lparr>gpr := (\<lambda>_. 0)(0 := 0xABCDE, 1 := 0x20000)\<rparr>) = Inr t
     \<and> agpr (abs_state t) 1 = 0x21234 \<and> agpr (abs_state t) 0 = 0xBCDE"
proof -
  let ?s = "(sample (\<lambda>_. True) [0, 0, 0x51234, 0, 0, 0, 0, 0])\<lparr>gpr := (\<lambda>_. 0)(0 := 0xABCDE, 1 := 0x20000)\<rparr>"
  have "ak (abs_state ?s) 2 = 0x51234" "agpr (abs_state ?s) = (\<lambda>_. 0)(0 := 0xABCDE, 1 := 0x20000)"
    using ak_sample [of 2 "\<lambda>_. True" "[0, 0, 0x51234, 0, 0, 0, 0, 0]"] by (simp_all add: abs_state_def abs_k_def)
  then show ?thesis
    using kmovw_to_gpr_rewrite [OF disjI2 [OF refl], of 1 2 _ ?s "OP_AVX512 472", OF _ _ refl]
    by (auto simp: agree_def set_r_def set_low_def mask_eq_exp_minus_1 simp del: exec.simps)
qed

lemma kmov_from_view:
  assumes "gpart r g n" "d < 8" and v: "v = (if g = 0 then 0 else take_bit (8 * n) (gpr s g))"
  shows "\<exists>t. exec [SAVE_TO_TLS DR_REG_RAX 8, INSTR_CREATE_xor (OReg DR_REG_RAX) (OReg DR_REG_RAX),
      SAVE_TO_TLS DR_REG_RAX (kslot d), SAVE_TO_SIZED_TLS r (kslot d) n, RESTORE_FROM_TLS DR_REG_RAX 8] s = Inr t
    \<and> agree 0 (abs_state t) ((set_k d v (abs_state s))\<lparr>aflg := logic_flags (undef_bit s) 8 0\<rparr>)"
proof -
  have "32 \<le> kslot d" by (simp add: kslot_def)
  then show ?thesis
    using kmov_from_core [OF gpart_simps(1) assms(1) _ v, of "kslot d"] assms(2)
      view_set_k [OF _ scratch1, of _ s _ d 8 v 0 "logic_flags (undef_bit s) 8 0"]
    by (auto simp: keeps_def simp del: exec.simps)
qed

lemma kmovw_kmovd_from_gpr_run:
  assumes "(f, n) \<in> set [(rw_func_kmovw, 2), (rw_func_kmovd, 4)]" "g < 16" "d < 8"
  shows "\<exists>chain t. f (Instr opc [K d] [OReg (DR_REG_EAX + g)]) = Rw True chain \<and> exec chain s = Inr t
     \<and> agree 0 (abs_state t)
         ((set_k d (if g = 0 then 0 else take_bit (8 * n) (agpr (abs_state s) g)) (abs_state s))
            \<lparr>aflg := logic_flags (undef_bit s) 8 0\<rparr>)"
  using assms(1) kmov_from_view [OF gpart_full(2) [OF assms(2)] assms(3) refl, of s]
    kmov_from_view [OF gpart_to_word(1) [OF assms(2)] assms(3) refl, of s] assms(2,3)
  by (auto simp: rw_func_kmovw_def rw_func_kmovd_def slot_simps abs_state_def [of s] simp del: exec.simps)

text \<open>\<open>kmovb\<close> reads its source after two pushes and after zeroing \<open>r15\<close>.\<close>

definition kmovb_reads :: "nat \<Rightarrow> 64 word \<Rightarrow> 64 word" where
  "kmovb_reads g x = (if g = 15 then 0 else if g = 4 then take_bit 8 (x - 16) else take_bit 8 x)"

lemma kmovb_from_effect:
  assumes "gpart b g 1"
  shows "effect 16 {} False (\<lambda>u. tls u = \<sigma> \<and> gpr u g = x) (\<lambda>t. tls t = tls_put \<sigma> od 8 (byte_of (kmovb_reads g x)))
     [INSTR_CREATE_pushf, INSTR_CREATE_push (OReg DR_REG_R15), INSTR_CREATE_xor (OReg DR_REG_R15) (OReg DR_REG_R15),
      SAVE_TO_TLS DR_REG_R15 od, SAVE_TO_SIZED_TLS b od 1, INSTR_CREATE_pop (OReg DR_REG_R15), INSTR_CREATE_popf]"
proof -
  let ?P = "\<lambda>m u. tls u = \<sigma> \<and> gpr u g = (if g = 4 then x - m else x)"
  have "effect 0 {15} True (?P 16) (\<lambda>t. tls t = tls_put \<sigma> od 8 (byte_of (kmovb_reads g x)))
     [INSTR_CREATE_xor (OReg DR_REG_R15) (OReg DR_REG_R15), SAVE_TO_TLS DR_REG_R15 od, SAVE_TO_SIZED_TLS b od 1]"
  proof (cases "g = 15")
    case True
    then show ?thesis
      using kmovb_from_r15_core [of DR_REG_R15 b \<sigma> od] assms(1) by (auto simp: kmovb_reads_def effect_def simp del: exec.simps)
  next
    case False
    then show ?thesis
      using kmovb_from_core [of DR_REG_R15 b g \<sigma> "if g = 4 then x - 16 else x" od] assms(1) by (cases "g = 4") (simp_all add: kmovb_reads_def)
  qed
  from effect_pushf_pre [OF effect_push_pre [OF this, where r = DR_REG_R15 and k = 15 and P = "?P 8"], where P = "?P 0"]
  show ?thesis by (cases "g = 4") (simp_all add: pushed_def)
qed

lemma kmovq_from_gpr_run:
  assumes "g < 16" "d < 8"
  shows "\<exists>chain t. rw_func_kmovq (Instr opc [K d] [OReg (DR_REG_RAX + g)]) = Rw True chain \<and> exec chain s = Inr t
     \<and> agree 0 (abs_state t) (set_k d (agpr (abs_state s) g) (abs_state s))"
proof -
  let ?t = "s\<lparr>tls := tls_put (tls s) (kslot d) 8 (byte_of (gpr s g))\<rparr>"
  have "exec [SAVE_TO_TLS (DR_REG_RAX + g) (kslot d)] s = Inr ?t"
    using step_save8 [OF gpart_full(1) [OF assms(1)]] gpr_read_gpart [OF gpart_full(1) [OF assms(1)]] by simp
  moreover have "agree 0 (abs_state ?t) (set_k d (gpr s g) (abs_state s))"
    using view_set_k [of ?t "tls s" d 8 "gpr s g" s 0 "flg s"] assms(2) by (simp add: keeps_def abs_state_def set_k_def)
  moreover have "agpr (abs_state s) = gpr s" by (simp add: abs_state_def)
  ultimately show ?thesis
    using assms gpr_class [OF assms(1)] by (auto simp: rw_func_kmovq_def slot_simps simp del: exec.simps)
qed

lemma kmovb_from_gpr_run:
  assumes "base \<in> {DR_REG_RAX, DR_REG_EAX}" "g < 16" "d < 8" "stack_room 16 s"
  shows "\<exists>chain t. rw_func_kmovb (Instr opc [K d] [OReg (base + g)]) = Rw True chain \<and> exec chain s = Inr t
     \<and> agree 16 (abs_state t) (set_k d (kmovb_reads g (agpr (abs_state s) g)) (abs_state s))"
proof -
  note b1 = effect_set_k [OF kmovb_from_effect [OF gpart_to_byte(1) [OF assms(2)]] assms(3) _ _ assms(4), of "gpr s g"]
    and b2 = effect_set_k [OF kmovb_from_effect [OF gpart_to_byte(2) [OF assms(2)]] assms(3) _ _ assms(4), of "gpr s g"]
  moreover have "agpr (abs_state s) = gpr s" by (simp add: abs_state_def)
  ultimately show ?thesis
    using assms(1-3) gpr_class [OF assms(2)] by (auto simp: rw_func_kmovb_def slot_simps simp del: exec.simps)
qed

text \<open>
  C22. From a general-purpose register to a mask register, for all 16 registers. \<open>kmovq\<close> sets the mask
  register to the value and changes nothing else. \<open>kmovb\<close>, with the 16 bytes below the stack pointer mapped,
  changes only these and the mask register, which becomes the zero-extended low byte of the register,
  with two exceptions: from \<open>r15\<close> it stores 0, since the sequence zeroes \<open>r15\<close> before it reads
  the source, and from \<open>rsp\<close> the low byte of \<open>rsp - 16\<close>, since it pushes twice before. \<open>kmovw\<close> and \<open>kmovd\<close> from a
  32-bit register store its zero-extended low 16 or 32 bits, or 0 if it is \<open>eax\<close>, which they
  zero first; the flags, which the original does not change, end up as those of the \<open>xor\<close>, and
  nothing else changes.
\<close>

theorem kmov_from_gpr_rewrite:
  assumes "base \<in> {DR_REG_RAX, DR_REG_EAX}" "(f, n) \<in> set [(rw_func_kmovw, 2), (rw_func_kmovd, 4)]"
    and "g < 16" "d < 8" "stack_room 16 s"
  shows "(\<exists>chain t. rw_func_kmovq (Instr opc [K d] [OReg (DR_REG_RAX + g)]) = Rw True chain \<and> exec chain s = Inr t
     \<and> agree 0 (abs_state t) (set_k d (agpr (abs_state s) g) (abs_state s)))
   \<and> (\<exists>chain t. rw_func_kmovb (Instr opc [K d] [OReg (base + g)]) = Rw True chain \<and> exec chain s = Inr t
     \<and> agree 16 (abs_state t) (set_k d (kmovb_reads g (agpr (abs_state s) g)) (abs_state s)))
   \<and> (\<exists>chain t. f (Instr opc [K d] [OReg (DR_REG_EAX + g)]) = Rw True chain \<and> exec chain s = Inr t
     \<and> agree 0 (abs_state t)
         ((set_k d (if g = 0 then 0 else take_bit (8 * n) (agpr (abs_state s) g)) (abs_state s))
            \<lparr>aflg := logic_flags (undef_bit s) 8 0\<rparr>))"
  using kmovq_from_gpr_run [OF assms(3,4)] kmovb_from_gpr_run [OF assms(1,3-5)] kmovw_kmovd_from_gpr_run [OF assms(2-4)]
  by (intro conjI)

theorem kmov_from_gpr_rewrite_witness:
  "(\<exists>chain t. rw_func_kmovb (Instr (OP_AVX512 473) [K 1] [OReg DR_REG_R15D]) = Rw True chain
     \<and> exec chain ((sample (\<lambda>_. True) [0, 7, 0, 0, 0, 0, 0, 0])\<lparr>gpr := (\<lambda>_. 0)(15 := 0xFF)\<rparr>) = Inr t
     \<and> ak (abs_state t) 1 = 0)
   \<and> (\<exists>chain t. rw_func_kmovd (Instr (OP_AVX512 473) [K 1] [OReg (DR_REG_EAX + 15)]) = Rw True chain
     \<and> exec chain ((sample (\<lambda>_. True) [0, 7, 0, 0, 0, 0, 0, 0])\<lparr>gpr := (\<lambda>_. 0)(15 := 0xFF)\<rparr>) = Inr t
     \<and> ak (abs_state t) 1 = 0xFF)"
proof -
  let ?s = "(sample (\<lambda>_. True) [0, 7, 0, 0, 0, 0, 0, 0])\<lparr>gpr := (\<lambda>_. 0)(15 := 0xFF)\<rparr>"
  have "agpr (abs_state ?s) 15 = 0xFF" by (simp add: abs_state_def)
  then show ?thesis
    using kmov_from_gpr_rewrite [of DR_REG_EAX rw_func_kmovd 4 15 1 ?s "OP_AVX512 473"]
    by (auto simp: agree_def set_k_def stack_room_def kmovb_reads_def simp del: exec.simps)
qed

lemma kmov_between_exec:
  assumes "gpart a 0 8" "gpart w 0 n" "32 \<le> o1" "32 \<le> od"
  shows "\<exists>t. exec [SAVE_TO_TLS a 8, RESTORE_FROM_SIZED_TLS a o1 8, SAVE_TO_SIZED_TLS w od n, RESTORE_FROM_TLS a 8] s = Inr t
    \<and> tls t = tls_put (tls_put (tls s) 8 8 (byte_of (gpr s 0))) od n (byte_of (slot_val 8 (tls s) o1))
    \<and> (\<forall>k. gpr t k = gpr s k) \<and> ymm t = ymm s \<and> mem t = mem s \<and> mapped t = mapped s \<and> flg t = flg s"
proof -
  have base: "gpr_read s a = gpr s 0" using assms(1) by (simp add: gpr_read_gpart)
  have other: "gpr (gpr_write ((gpr_write u a z)\<lparr>tls := \<theta>\<rparr>) a (gpr s 0)) k = gpr s k"
    if "gpr u = gpr s" for u z k \<theta>
    using that assms(1) by (auto simp: gpr_write_gpart put_part_def)
  show ?thesis
    using assms
    by (simp add: step_simps gpr_read_write_narrow le_get_put_disj le_get_put_same le_byte_of base other
        slot_val_def tls_put_take_bit)
qed

lemma kmov_between_view:
  assumes "gpart w 0 n" "k < 8" "d < 8" "n \<le> 8"
  shows "\<exists>t. exec [SAVE_TO_TLS DR_REG_RAX 8, RESTORE_FROM_SIZED_TLS DR_REG_RAX (kslot k) 8,
      SAVE_TO_SIZED_TLS w (kslot d) n, RESTORE_FROM_TLS DR_REG_RAX 8] s = Inr t
    \<and> agree 0 (abs_state t) (set_k d (set_low n (ak (abs_state s) d) (ak (abs_state s) k)) (abs_state s))"
proof -
  have sl: "slot_val 8 (tls s) (kslot k) = ak (abs_state s) k"
    using assms(2) by (simp add: slot_val_kslot abs_state_def)
  have ge: "32 \<le> kslot k" "32 \<le> kslot d" by (simp_all add: kslot_def)
  have fl: "(set_k d v (abs_state s))\<lparr>aflg := flg s\<rparr> = set_k d v (abs_state s)" for v
    by (simp add: set_k_def abs_state_def)
  show ?thesis
    using kmov_between_exec [OF gpart_simps(1) assms(1) ge, of s] assms(3,4)
      view_set_k [OF _ scratch1, of _ s _ d n "ak (abs_state s) k" 0 "flg s"]
    by (auto simp: keeps_def sl fl simp del: exec.simps)
qed

lemma kmovb_between_view:
  assumes "k < 8" "d < 8" "stack_room 8 s"
  shows "\<exists>t. exec [INSTR_CREATE_pushf, SAVE_TO_TLS DR_REG_R11 8, SAVE_TO_TLS DR_REG_R12 16,
      INSTR_CREATE_xor (OReg DR_REG_R12) (OReg DR_REG_R12), SAVE_TO_TLS DR_REG_R12 (kslot d),
      RESTORE_FROM_SIZED_TLS (GPR_QWORD_TO_BYTE DR_REG_R11) (kslot k) 1,
      SAVE_TO_SIZED_TLS (GPR_QWORD_TO_BYTE DR_REG_R11) (kslot d) 1,
      RESTORE_FROM_TLS DR_REG_R12 16, RESTORE_FROM_TLS DR_REG_R11 8, INSTR_CREATE_popf] s = Inr t
    \<and> agree 8 (abs_state t) (set_k d (if k = d then 0 else take_bit 8 (ak (abs_state s) k)) (abs_state s))"
    (is "\<exists>t. exec ?chain s = _ \<and> agree 8 _ (set_k d ?v _)")
proof -
  let ?\<tau> = "tls_put (tls_put (tls s) 8 8 (byte_of (gpr s 11))) 16 8 (byte_of (gpr s 12))"
  have o: "kslot k = kslot d \<or> kslot k + 8 \<le> kslot d \<or> kslot d + 8 \<le> kslot k" "32 \<le> kslot k" "32 \<le> kslot d"
    and v: "?v = (if kslot k = kslot d then 0 else slot_val 1 (tls s) (kslot k))"
    using assms(1) slot_val_kslot [of k 1 s] by (auto simp: kslot_def abs_state_def)
  have b: "gpart (GPR_QWORD_TO_BYTE DR_REG_R11) 11 1" using gpart_to_byte(1) [of 11] by simp
  note core = kmovb_between_core [OF gpart_simps(5,6) b o(2,3,1) v, of "gpr s 11" "gpr s 12"]
  have "effect 8 {} False (\<lambda>u. tls u = tls s \<and> gpr u 11 = gpr s 11 \<and> gpr u 12 = gpr s 12)
      (\<lambda>t. tls t = tls_put ?\<tau> (kslot d) 8 (byte_of ?v)) ?chain"
    using effect_pushf [OF core] by simp
  from effectD [OF this _ assms(3)] obtain t where t: "exec ?chain s = Inr t"
      "tls t = tls_put ?\<tau> (kslot d) 8 (byte_of ?v)" "ymm t = ymm s" "\<And>n. gpr t n = gpr s n" "flg t = flg s" "keeps 8 s t"
    by (auto simp del: exec.simps)
  then have "agree 8 (abs_state t) ((set_k d ?v (abs_state s))\<lparr>aflg := flg s\<rparr>)"
    using view_set_k [OF t(2) scratch2 assms(2)] by simp
  moreover have "(set_k d ?v (abs_state s))\<lparr>aflg := flg s\<rparr> = set_k d ?v (abs_state s)"
    by (simp add: set_k_def abs_state_def)
  ultimately show ?thesis using t(1) by (intro exI [of _ t]) simp
qed

lemma kmov_between_run:
  assumes "k < 8" "d < 8" "stack_room 8 s"
  shows "(\<exists>chain t. rw_func_kmovq (Instr opc [K d] [K k]) = Rw True chain \<and> exec chain s = Inr t
      \<and> agree 0 (abs_state t) (set_k d (ak (abs_state s) k) (abs_state s)))
    \<and> (\<exists>chain t. rw_func_kmovw (Instr opc [K d] [K k]) = Rw True chain \<and> exec chain s = Inr t
      \<and> agree 0 (abs_state t) (set_k d (set_low 2 (ak (abs_state s) d) (ak (abs_state s) k)) (abs_state s)))
    \<and> (\<exists>chain t. rw_func_kmovb (Instr opc [K d] [K k]) = Rw True chain \<and> exec chain s = Inr t
      \<and> agree 8 (abs_state t) (set_k d (if k = d then 0 else take_bit 8 (ak (abs_state s) k)) (abs_state s)))
    \<and> (\<exists>chain. rw_func_kmovd (Instr opc [K d] [K k]) = Rw True chain \<and> \<not> list_all encodable chain)"
proof (intro conjI)
  have ax: "GPR_QWORD_TO_WORD (Suc 0) = DR_REG_AX" by (simp add: reg_conv_defs)
  note q = kmov_between_view [OF gpart_simps(1) assms(1,2), of s] and w = kmov_between_view [OF gpart_simps(12) assms(1,2), of s]
  show "\<exists>chain t. rw_func_kmovq (Instr opc [K d] [K k]) = Rw True chain \<and> exec chain s = Inr t
      \<and> agree 0 (abs_state t) (set_k d (ak (abs_state s) k) (abs_state s))"
    using q assms by (simp add: rw_func_kmovq_def slot_simps full_tls del: exec.simps)
  show "\<exists>chain t. rw_func_kmovw (Instr opc [K d] [K k]) = Rw True chain \<and> exec chain s = Inr t
      \<and> agree 0 (abs_state t) (set_k d (set_low 2 (ak (abs_state s) d) (ak (abs_state s) k)) (abs_state s))"
    using w assms by (simp add: rw_func_kmovw_def slot_simps full_tls ax del: exec.simps)
  show "\<exists>chain t. rw_func_kmovb (Instr opc [K d] [K k]) = Rw True chain \<and> exec chain s = Inr t
      \<and> agree 8 (abs_state t) (set_k d (if k = d then 0 else take_bit 8 (ak (abs_state s) k)) (abs_state s))"
    using kmovb_between_view [OF assms] assms by (simp add: rw_func_kmovb_def slot_simps del: exec.simps)
  show "\<exists>chain. rw_func_kmovd (Instr opc [K d] [K k]) = Rw True chain \<and> \<not> list_all encodable chain"
    using assms by (simp add: rw_func_kmovd_def slot_simps create_defs gpr_size_def reg_part_def rm_ok_def)
qed

text \<open>
  C28. Between mask registers, \<open>kmovq\<close> copies the register; \<open>kmovw\<close> copies the low 16
  bits and keeps the destination's upper bits; \<open>kmovb\<close> copies the low 8 bits and clears the
  rest if the registers differ, and clears the register if they are the same; \<open>kmovd\<close>
  contains a load of four bytes into \<open>rax\<close>, which has no encoding.
\<close>

theorem kmov_between_masks:
  assumes "k < 8" "d < 8" "stack_room 8 s"
  shows "(\<exists>chain t. rw_func_kmovq (Instr opc [K d] [K k]) = Rw True chain \<and> exec chain s = Inr t
      \<and> agree 0 (abs_state t) (set_k d (ak (abs_state s) k) (abs_state s)))
    \<and> (\<exists>chain t. rw_func_kmovw (Instr opc [K d] [K k]) = Rw True chain \<and> exec chain s = Inr t
      \<and> agree 0 (abs_state t) (set_k d (set_low 2 (ak (abs_state s) d) (ak (abs_state s) k)) (abs_state s)))
    \<and> (\<exists>chain t. rw_func_kmovb (Instr opc [K d] [K k]) = Rw True chain \<and> exec chain s = Inr t
      \<and> agree 8 (abs_state t) (set_k d (if k = d then 0 else take_bit 8 (ak (abs_state s) k)) (abs_state s)))
    \<and> (\<exists>chain. rw_func_kmovd (Instr opc [K d] [K k]) = Rw True chain \<and> \<not> list_all encodable chain)"
  using assms by (rule kmov_between_run)

theorem kmov_between_masks_witness:
  "(\<exists>chain t. rw_func_kmovw (Instr (OP_AVX512 472) [K 1] [K 2]) = Rw True chain
     \<and> exec chain (sample (\<lambda>_. True) [0, 0x1234ABCD, 0x51111, 0, 0, 0, 0, 0]) = Inr t
     \<and> ak (abs_state t) 1 = 0x12341111)
   \<and> (\<exists>chain t. rw_func_kmovb (Instr (OP_AVX512 472) [K 1] [K 2]) = Rw True chain
     \<and> exec chain (sample (\<lambda>_. True) [0, 0x1234ABCD, 0x51111, 0, 0, 0, 0, 0]) = Inr t
     \<and> ak (abs_state t) 1 = 0x11)"
proof -
  note run = kmov_between_masks [of 2 1 "sample (\<lambda>_. True) [0, 0x1234ABCD, 0x51111, 0, 0, 0, 0, 0]" "OP_AVX512 472", THEN conjunct2]
  show ?thesis
    by (rule conjI; rule witness_k [OF run [THEN conjunct1]] witness_k [OF run [THEN conjunct2, THEN conjunct1]])
      (simp_all add: ak_sample set_low_def mask_eq_exp_minus_1)
qed

end
