(* ===== verification/Instrlist.thy ===== *)
theory Instrlist
  imports Ir "HOL-Library.Monad_Syntax"
begin

text \<open>
  Instruction lists (\<open>core/ir/instrlist.c\<close>): doubly linked lists of heap-allocated
  instructions. The state holds the \<open>instrlist_t\<close> and the cells of the heap, so that
  aliasing between the list and a chain that is inserted into it is explicit. An operation
  yields \<open>None\<close> when it dereferences a null or freed pointer, or when the walk to the end of
  a chain does not end.

  The refinement to lists of addresses is stated by \<open>rep\<close>; the laws of the operations form
  the interface \<open>instr_seq\<close>, in which operations composed of them are verified, and which is
  interpreted on the definitions below.
\<close>

section \<open>State\<close>

text \<open>
  Address 0 is the null pointer of \<open>translation\<close>; a link is \<open>None\<close> for \<open>NULL\<close>. The allocator
  hands out the address \<open>brk\<close>, which is above every address handed out before.
\<close>

type_synonym addr = nat

record instr_t =
  inext :: "addr option"
  iprev :: "addr option"
  translation :: nat
  our_mangling :: bool
  do_not_mangle :: bool
  is_avx512_instr :: bool
  body :: instr

record instrlist_t =
  ifirst :: "addr option"
  ilast :: "addr option"
  list_our_mangling :: bool
  translation_target :: nat
  fall_through_bb :: nat
  has_avx512 :: bool
  need_spill_simd :: bool

record lstate =
  ilist :: instrlist_t
  cells :: "addr \<Rightarrow> instr_t option"
  brk :: addr

definition instr_create :: "instr \<Rightarrow> lstate \<Rightarrow> addr \<times> lstate" where
  "instr_create i s = (brk s,
     s\<lparr>cells := (cells s)(brk s \<mapsto> \<lparr>inext = None, iprev = None, translation = 0, our_mangling = False,
          do_not_mangle = False, is_avx512_instr = False, body = i\<rparr>),
       brk := Suc (brk s)\<rparr>)"

definition instr_destroy :: "addr \<Rightarrow> lstate \<Rightarrow> lstate option" where
  "instr_destroy a s = (case cells s a of None \<Rightarrow> None | Some n \<Rightarrow> Some (s\<lparr>cells := (cells s)(a := None)\<rparr>))"

section \<open>Accesses through a pointer\<close>

definition deref :: "addr option \<Rightarrow> lstate \<Rightarrow> instr_t option" where
  "deref p s = Option.bind p (cells s)"

definition update :: "addr option \<Rightarrow> (instr_t \<Rightarrow> instr_t) \<Rightarrow> lstate \<Rightarrow> lstate option" where
  "update p f s =
     (case p of None \<Rightarrow> None
      | Some a \<Rightarrow> (case cells s a of None \<Rightarrow> None
                  | Some n \<Rightarrow> Some (s\<lparr>cells := (cells s)(a \<mapsto> f n)\<rparr>)))"

definition instr_get_next :: "addr option \<Rightarrow> lstate \<Rightarrow> addr option option" where
  "instr_get_next p s = map_option inext (deref p s)"

definition instr_get_prev :: "addr option \<Rightarrow> lstate \<Rightarrow> addr option option" where
  "instr_get_prev p s = map_option iprev (deref p s)"

definition instr_set_next :: "addr option \<Rightarrow> addr option \<Rightarrow> lstate \<Rightarrow> lstate option" where
  "instr_set_next p q = update p (inext_update (\<lambda>_. q))"

definition instr_set_prev :: "addr option \<Rightarrow> addr option \<Rightarrow> lstate \<Rightarrow> lstate option" where
  "instr_set_prev p q = update p (iprev_update (\<lambda>_. q))"

definition instr_concat_next :: "addr option \<Rightarrow> addr option \<Rightarrow> lstate \<Rightarrow> lstate option" where
  "instr_concat_next p q s = do { s1 \<leftarrow> instr_set_next p q s; instr_set_prev q p s1 }"

definition set_first :: "addr option \<Rightarrow> lstate \<Rightarrow> lstate" where
  "set_first p s = s\<lparr>ilist := (ilist s)\<lparr>ifirst := p\<rparr>\<rparr>"

definition set_last :: "addr option \<Rightarrow> lstate \<Rightarrow> lstate" where
  "set_last p s = s\<lparr>ilist := (ilist s)\<lparr>ilast := p\<rparr>\<rparr>"

section \<open>The operations\<close>

definition instrlist_init :: "lstate \<Rightarrow> lstate" where
  "instrlist_init s = s\<lparr>ilist := \<lparr>ifirst = None, ilast = None, list_our_mangling = False, translation_target = 0,
     fall_through_bb = 0, has_avx512 = False, need_spill_simd = False\<rparr>\<rparr>"

definition instrlist_first :: "lstate \<Rightarrow> addr option" where
  "instrlist_first s = ifirst (ilist s)"

definition instrlist_last :: "lstate \<Rightarrow> addr option" where
  "instrlist_last s = ilast (ilist s)"

text \<open>What \<open>check_translation\<close> does to a cell.\<close>

definition stamp :: "instrlist_t \<Rightarrow> instr_t \<Rightarrow> instr_t" where
  "stamp l n =
     (let m = (if translation_target l \<noteq> 0 \<and> translation n = 0 then n\<lparr>translation := translation_target l\<rparr> else n)
      in if list_our_mangling l then m\<lparr>our_mangling := True\<rparr> else m)"

definition check_translation :: "addr option \<Rightarrow> lstate \<Rightarrow> lstate option" where
  "check_translation p s = update p (stamp (ilist s)) s"

text \<open>The loop to the last instruction of a chain.\<close>

partial_function (option) chain_end :: "addr option \<Rightarrow> lstate \<Rightarrow> (addr option \<times> lstate) option" where
  "chain_end p s = do {
     q \<leftarrow> instr_get_next p s;
     if q = None then Some (p, s)
     else do { s1 \<leftarrow> check_translation q s; chain_end q s1 } }"

definition instrlist_append :: "addr option \<Rightarrow> lstate \<Rightarrow> lstate option" where
  "instrlist_append inst s = do {
     s1 \<leftarrow> check_translation inst s;
     (bot, s2) \<leftarrow> chain_end inst s1;
     if ilast (ilist s2) \<noteq> None then do {
       s3 \<leftarrow> instr_set_next (ilast (ilist s2)) inst s2;
       s4 \<leftarrow> instr_set_prev inst (ilast (ilist s3)) s3;
       Some (set_last bot s4) }
     else Some (set_last bot (set_first inst s2)) }"

definition instrlist_prepend :: "addr option \<Rightarrow> lstate \<Rightarrow> lstate option" where
  "instrlist_prepend inst s = do {
     s1 \<leftarrow> check_translation inst s;
     (bot, s2) \<leftarrow> chain_end inst s1;
     if ifirst (ilist s2) \<noteq> None then do {
       s3 \<leftarrow> instr_set_next bot (ifirst (ilist s2)) s2;
       s4 \<leftarrow> instr_set_prev (ifirst (ilist s3)) bot s3;
       Some (set_first inst s4) }
     else Some (set_last bot (set_first inst s2)) }"

definition instrlist_preinsert :: "addr option \<Rightarrow> addr option \<Rightarrow> lstate \<Rightarrow> lstate option" where
  "instrlist_preinsert at inst s =
     (if at = None then instrlist_append inst s
      else do {
        whereprev \<leftarrow> instr_get_prev at s;
        s1 \<leftarrow> check_translation inst s;
        (bot, s2) \<leftarrow> chain_end inst s1;
        s4 \<leftarrow> (if whereprev \<noteq> None
               then do { s3 \<leftarrow> instr_set_next whereprev inst s2; instr_set_prev inst whereprev s3 }
               else Some (set_first inst s2));
        s5 \<leftarrow> instr_set_next bot at s4;
        instr_set_prev at bot s5 })"

definition instrlist_postinsert :: "addr option \<Rightarrow> addr option \<Rightarrow> lstate \<Rightarrow> lstate option" where
  "instrlist_postinsert at inst s =
     (if at = None then instrlist_prepend inst s
      else do {
        wherenext \<leftarrow> instr_get_next at s;
        s1 \<leftarrow> check_translation inst s;
        (bot, s2) \<leftarrow> chain_end inst s1;
        s3 \<leftarrow> instr_set_next at inst s2;
        s4 \<leftarrow> instr_set_prev inst at s3;
        if wherenext \<noteq> None
        then do { s5 \<leftarrow> instr_set_next bot wherenext s4; instr_set_prev wherenext bot s5 }
        else Some (set_last bot s4) })"

definition instrlist_remove :: "addr option \<Rightarrow> lstate \<Rightarrow> lstate option" where
  "instrlist_remove p s = do {
     prv \<leftarrow> instr_get_prev p s;
     nxt \<leftarrow> instr_get_next p s;
     s1 \<leftarrow> (if prv \<noteq> None then instr_set_next prv nxt s else Some (set_first nxt s));
     s2 \<leftarrow> (if nxt \<noteq> None then instr_set_prev nxt prv s1 else Some (set_last prv s1));
     s3 \<leftarrow> instr_set_prev p None s2;
     instr_set_next p None s3 }"

definition instrlist_replace :: "addr option \<Rightarrow> addr option \<Rightarrow> lstate \<Rightarrow> lstate option" where
  "instrlist_replace oldinst newinst s = do {
     at \<leftarrow> instr_get_prev oldinst s;
     s1 \<leftarrow> instrlist_remove oldinst s;
     if at \<noteq> None then instrlist_postinsert at newinst s1 else instrlist_prepend newinst s1 }"

definition instrlist_cut :: "addr option \<Rightarrow> lstate \<Rightarrow> lstate option" where
  "instrlist_cut cut_point s = do {
     last_instr \<leftarrow> instr_get_prev cut_point s;
     s1 \<leftarrow> (if last_instr \<noteq> None then instr_set_next last_instr None s else Some s);
     s2 \<leftarrow> instr_set_prev cut_point None s1;
     Some (set_last last_instr s2) }"

partial_function (option) instrlist_clear :: "lstate \<Rightarrow> lstate option" where
  "instrlist_clear s =
     (case instrlist_first s of
        None \<Rightarrow> Some s
      | Some a \<Rightarrow> do { s1 \<leftarrow> instrlist_remove (Some a) s; s2 \<leftarrow> instr_destroy a s1; instrlist_clear s2 })"

definition instrlist_meta_preinsert :: "addr option \<Rightarrow> addr option \<Rightarrow> lstate \<Rightarrow> lstate option" where
  "instrlist_meta_preinsert at p s = do {
     s1 \<leftarrow> update p (do_not_mangle_update (\<lambda>_. True)) s;
     instrlist_preinsert at p s1 }"

section \<open>Representation\<close>

text \<open>
  \<open>dll c p xs q\<close>: the cells at \<open>xs\<close> are linked in both directions in this order, with \<open>p\<close>
  before the first and \<open>q\<close> after the last of them.
\<close>

primrec head_or :: "addr list \<Rightarrow> addr option \<Rightarrow> addr option" where
  "head_or [] q = q"
| "head_or (a # as) q = Some a"

definition last_or :: "addr list \<Rightarrow> addr option \<Rightarrow> addr option" where
  "last_or xs p = (if xs = [] then p else Some (last xs))"

primrec dll :: "(addr \<Rightarrow> instr_t option) \<Rightarrow> addr option \<Rightarrow> addr list \<Rightarrow> addr option \<Rightarrow> bool" where
  "dll c p [] q = True"
| "dll c p (a # as) q =
     ((case c a of None \<Rightarrow> False | Some n \<Rightarrow> iprev n = p \<and> inext n = head_or as q) \<and> dll c (Some a) as q)"

definition rep :: "lstate \<Rightarrow> addr list \<Rightarrow> bool" where
  "rep s xs \<longleftrightarrow> distinct xs \<and> dll (cells s) None xs None
     \<and> ifirst (ilist s) = head_or xs None \<and> ilast (ilist s) = last_or xs None"

definition chain :: "lstate \<Rightarrow> addr list \<Rightarrow> bool" where
  "chain s ys \<longleftrightarrow> ys \<noteq> [] \<and> distinct ys \<and> dll (cells s) None ys None"

text \<open>What an instruction is, apart from its links and its origin.\<close>

definition info :: "lstate \<Rightarrow> addr \<Rightarrow> (bool \<times> instr) option" where
  "info s a = map_option (\<lambda>n. (is_avx512_instr n, body n)) (cells s a)"

lemma head_or_append [simp]: "head_or (xs @ ys) q = head_or xs (head_or ys q)"
  by (cases xs) simp_all

lemma last_or_simps [simp]:
  "last_or [] p = p" "last_or [a] p = Some a" "last_or (xs @ a # ys) p = last_or ys (Some a)"
  "last_or (a # xs) p = last_or xs (Some a)"
  by (auto simp: last_or_def)

lemma head_or_hd: "xs \<noteq> [] \<Longrightarrow> head_or xs q = Some (hd xs)"
  by (cases xs) simp_all

lemma last_or_last: "xs \<noteq> [] \<Longrightarrow> last_or xs p = Some (last xs)"
  by (simp add: last_or_def)

lemma dll_append: "dll c p (xs @ ys) q \<longleftrightarrow> dll c p xs (head_or ys q) \<and> dll c (last_or xs p) ys q"
  by (induction xs arbitrary: p) (auto split: option.splits)

lemma dll_cong: "(\<And>a. a \<in> set xs \<Longrightarrow> c a = d a) \<Longrightarrow> dll c p xs q = dll d p xs q"
  by (induction xs arbitrary: p) auto

lemma dll_alloc: "dll c p xs q \<Longrightarrow> a \<in> set xs \<Longrightarrow> \<exists>n. c a = Some n"
  by (induction xs arbitrary: p) (auto split: option.splits)

section \<open>Effect of the accesses on the links\<close>

definition link_next :: "addr \<Rightarrow> addr option \<Rightarrow> (addr \<Rightarrow> instr_t option) \<Rightarrow> addr \<Rightarrow> instr_t option" where
  "link_next a q c = c(a := map_option (inext_update (\<lambda>_. q)) (c a))"

definition link_prev :: "addr \<Rightarrow> addr option \<Rightarrow> (addr \<Rightarrow> instr_t option) \<Rightarrow> addr \<Rightarrow> instr_t option" where
  "link_prev a p c = c(a := map_option (iprev_update (\<lambda>_. p)) (c a))"

definition stamp_on :: "addr set \<Rightarrow> instrlist_t \<Rightarrow> (addr \<Rightarrow> instr_t option) \<Rightarrow> addr \<Rightarrow> instr_t option" where
  "stamp_on A l c = (\<lambda>a. if a \<in> A then map_option (stamp l) (c a) else c a)"

lemma stamp_fields [simp]:
  "inext (stamp l n) = inext n" "iprev (stamp l n) = iprev n" "body (stamp l n) = body n"
  "is_avx512_instr (stamp l n) = is_avx512_instr n" "stamp l (stamp l n) = stamp l n"
  by (simp_all add: stamp_def Let_def)

lemma set_next_cells: "cells s a \<noteq> None \<Longrightarrow> instr_set_next (Some a) q s = Some (s\<lparr>cells := link_next a q (cells s)\<rparr>)"
  by (auto simp: instr_set_next_def update_def link_next_def)

lemma set_prev_cells: "cells s a \<noteq> None \<Longrightarrow> instr_set_prev (Some a) q s = Some (s\<lparr>cells := link_prev a q (cells s)\<rparr>)"
  by (auto simp: instr_set_prev_def update_def link_prev_def)

lemma links_alloc [simp]:
  "link_next a q c x = None \<longleftrightarrow> c x = None" "link_prev a q c x = None \<longleftrightarrow> c x = None" "stamp_on A l c x = None \<longleftrightarrow> c x = None"
  by (auto simp: link_next_def link_prev_def stamp_on_def)

lemma links_other [simp]:
  "a \<notin> set xs \<Longrightarrow> dll (link_next a q' c) p xs q = dll c p xs q"
  "a \<notin> set xs \<Longrightarrow> dll (link_prev a q' c) p xs q = dll c p xs q"
  by (auto simp: link_next_def link_prev_def intro!: dll_cong)

lemma dll_stamp [simp]: "dll (stamp_on A l c) p xs q = dll c p xs q"
  by (induction xs arbitrary: p) (auto simp: stamp_on_def split: option.splits)

lemma dll_link_next: "dll c p (xs @ [a]) q \<Longrightarrow> a \<notin> set xs \<Longrightarrow> dll (link_next a q' c) p (xs @ [a]) q'"
  by (auto simp: dll_append link_next_def [of a q' c] split: option.splits
      intro: dll_cong [THEN iffD1, rotated])

lemma dll_link_prev: "dll c p (a # xs) q \<Longrightarrow> a \<notin> set xs \<Longrightarrow> dll (link_prev a p' c) p' (a # xs) q"
  by (auto simp: link_prev_def split: option.splits intro: dll_cong [THEN iffD1, rotated])

lemma info_links [simp]:
  "info (s\<lparr>cells := link_next a q c\<rparr>) = info (s\<lparr>cells := c\<rparr>)" "info (s\<lparr>cells := link_prev a q c\<rparr>) = info (s\<lparr>cells := c\<rparr>)"
  "info (s\<lparr>cells := stamp_on A l c\<rparr>) = info (s\<lparr>cells := c\<rparr>)"
  by (auto simp: info_def link_next_def link_prev_def stamp_on_def option.map_comp fun_eq_iff comp_def)

lemma info_list [simp]: "info (set_first p s) = info s" "info (set_last p s) = info s"
  by (simp_all add: info_def set_first_def set_last_def fun_eq_iff)

section \<open>The walk to the end of a chain\<close>

lemma check_translation_cells:
  "cells s a \<noteq> None \<Longrightarrow> check_translation (Some a) s = Some (s\<lparr>cells := stamp_on {a} (ilist s) (cells s)\<rparr>)"
  by (auto simp: check_translation_def update_def stamp_on_def fun_eq_iff)

lemma stamp_on_union: "stamp_on A l (stamp_on B l c) = stamp_on (A \<union> B) l c"
  by (auto simp: stamp_on_def fun_eq_iff option.map_comp comp_def)

text \<open>The loop ends for every chain, at its last instruction, with every other one stamped.\<close>

lemma chain_end_dll:
  "dll (cells s) p (a # as) None \<Longrightarrow>
     chain_end (Some a) s = Some (Some (last (a # as)), s\<lparr>cells := stamp_on (set as) (ilist s) (cells s)\<rparr>)"
proof (induction as arbitrary: a p s)
  case Nil
  then show ?case
    by (subst chain_end.simps) (auto simp: instr_get_next_def deref_def stamp_on_def split: option.splits)
next
  case (Cons b bs)
  let ?s = "s\<lparr>cells := stamp_on {b} (ilist s) (cells s)\<rparr>"
  have nx: "instr_get_next (Some a) s = Some (Some b)" and b: "cells s b \<noteq> None"
    using Cons.prems by (auto simp: instr_get_next_def deref_def split: option.splits)
  have "dll (cells ?s) (Some a) (b # bs) None"
    using Cons.prems dll_stamp [of "{b}" "ilist s" "cells s" "Some a" "b # bs" None] by simp
  from Cons.IH [OF this] nx b show ?case
    by (subst chain_end.simps) (simp add: check_translation_cells stamp_on_union)
qed

lemma chain_walk:
  assumes "chain s ys"
  shows "check_translation (Some (hd ys)) s = Some (s\<lparr>cells := stamp_on {hd ys} (ilist s) (cells s)\<rparr>)"
    and "chain_end (Some (hd ys)) (s\<lparr>cells := stamp_on {hd ys} (ilist s) (cells s)\<rparr>)
       = Some (Some (last ys), s\<lparr>cells := stamp_on (set ys) (ilist s) (cells s)\<rparr>)"
proof -
  obtain a as where ys: "ys = a # as" using assms by (cases ys) (auto simp: chain_def)
  have d: "dll (cells s) None (a # as) None" using assms by (simp add: chain_def ys)
  then show "check_translation (Some (hd ys)) s = Some (s\<lparr>cells := stamp_on {hd ys} (ilist s) (cells s)\<rparr>)"
    using ys by (intro check_translation_cells) (auto split: option.splits)
  show "chain_end (Some (hd ys)) (s\<lparr>cells := stamp_on {hd ys} (ilist s) (cells s)\<rparr>)
       = Some (Some (last ys), s\<lparr>cells := stamp_on (set ys) (ilist s) (cells s)\<rparr>)"
    using chain_end_dll [of "s\<lparr>cells := stamp_on {a} (ilist s) (cells s)\<rparr>" None a as]
      dll_stamp [of "{a}" "ilist s" "cells s" None "a # as" None] d ys
    by (simp add: stamp_on_union)
qed

section \<open>Editing a list\<close>

lemma chain_ends:
  assumes "chain s ys"
  shows "cells s (hd ys) \<noteq> None" "cells s (last ys) \<noteq> None" "hd ys \<in> set ys" "last ys \<in> set ys"
  using assms dll_alloc [of "cells s" None ys None] by (auto simp: chain_def)

lemma dll_relink:
  assumes "dll c p ys q" "ys \<noteq> []" "distinct ys"
  shows "dll (link_next (last ys) q' c) p ys q'" "dll (link_prev (hd ys) p' c) p' ys q"
proof -
  show "dll (link_next (last ys) q' c) p ys q'"
    using assms dll_link_next [of c p _ "last ys" q q'] by (cases ys rule: rev_exhaust) auto
  show "dll (link_prev (hd ys) p' c) p' ys q"
    using assms dll_link_prev [of c p "hd ys" "tl ys" q p'] by (cases ys) auto
qed

lemma list_updates [simp]:
  "cells (set_first p s) = cells s" "cells (set_last p s) = cells s" "ilast (ilist (set_first p s)) = ilast (ilist s)"
  "ifirst (ilist (set_last p s)) = ifirst (ilist s)" "ifirst (ilist (set_first p s)) = p" "ilast (ilist (set_last p s)) = p"
  "(set_first p s)\<lparr>cells := c\<rparr> = set_first p (s\<lparr>cells := c\<rparr>)" "(set_last p s)\<lparr>cells := c\<rparr> = set_last p (s\<lparr>cells := c\<rparr>)"
  by (simp_all add: set_first_def set_last_def)

text \<open>Joining two linked segments.\<close>

definition join_cells :: "addr \<Rightarrow> addr \<Rightarrow> (addr \<Rightarrow> instr_t option) \<Rightarrow> addr \<Rightarrow> instr_t option" where
  "join_cells a b c = link_prev b (Some a) (link_next a (Some b) c)"

lemma dll_join:
  assumes "dll c p xs r" "dll c r' ys q" "xs \<noteq> []" "ys \<noteq> []" "distinct (xs @ ys)"
  shows "dll (join_cells (last xs) (hd ys) c) p (xs @ ys) q"
proof -
  have "hd ys \<notin> set xs" "last xs \<notin> set ys"
    using assms(3-5) hd_in_set [of ys] last_in_set [of xs] by (auto simp del: hd_in_set last_in_set)
  then have "dll (join_cells (last xs) (hd ys) c) p xs (Some (hd ys))"
      "dll (join_cells (last xs) (hd ys) c) (Some (last xs)) ys q"
    using assms dll_relink(1) [of c p xs r "Some (hd ys)"]
      dll_relink(2) [of "link_next (last xs) (Some (hd ys)) c" r' ys q "Some (last xs)"]
    by (simp_all add: join_cells_def)
  then show ?thesis using assms(3,4) by (simp add: dll_append head_or_hd last_or_last)
qed

lemma join_cells_other:
  "a \<notin> set zs \<Longrightarrow> b \<notin> set zs \<Longrightarrow> dll (join_cells a b c) p zs q = dll c p zs q"
  "info (s\<lparr>cells := join_cells a b c\<rparr>) = info (s\<lparr>cells := c\<rparr>)" "join_cells a b c x = None \<longleftrightarrow> c x = None"
  by (simp_all add: join_cells_def)

lemma join_exec:
  assumes "cells s a \<noteq> None" "cells s b \<noteq> None"
  shows "do { s1 \<leftarrow> instr_set_next (Some a) (Some b) s; s2 \<leftarrow> instr_set_prev (Some b) (Some a) s1; k s2 }
     = k (s\<lparr>cells := join_cells a b (cells s)\<rparr>)"
  using assms by (simp add: set_next_cells set_prev_cells join_cells_def)

lemma rep_last: "rep s xs \<Longrightarrow> xs \<noteq> [] \<Longrightarrow> cells s (last xs) \<noteq> None \<and> cells s (hd xs) \<noteq> None"
  using dll_alloc [of "cells s" None xs None] by (auto simp: rep_def)

text \<open>
  \<open>frame A s t\<close>: from \<open>s\<close> to \<open>t\<close> only the two ends of the list and the links and stamps of
  the cells in \<open>A\<close> have changed.
\<close>

definition rest :: "instrlist_t \<Rightarrow> instrlist_t" where
  "rest l = l\<lparr>ifirst := None, ilast := None\<rparr>"

definition frame :: "addr set \<Rightarrow> lstate \<Rightarrow> lstate \<Rightarrow> bool" where
  "frame A s t \<longleftrightarrow> info t = info s \<and> brk t = brk s \<and> (\<forall>a. a \<notin> A \<longrightarrow> cells t a = cells s a)
     \<and> rest (ilist t) = rest (ilist s)"

lemma set_ends [simp]:
  "rest (ilist (set_first p s)) = rest (ilist s)" "rest (ilist (set_last p s)) = rest (ilist s)"
  "brk (set_first p s) = brk s" "brk (set_last p s) = brk s"
  by (simp_all add: rest_def set_first_def set_last_def)

lemma frame_simps [simp]:
  "frame A s (set_first p t) = frame A s t" "frame A s (set_last p t) = frame A s t" "frame A s s"
  by (simp_all add: frame_def)

lemma links_at:
  "x \<noteq> a \<Longrightarrow> link_next a q c x = c x" "x \<noteq> a \<Longrightarrow> link_prev a q c x = c x" "x \<notin> A \<Longrightarrow> stamp_on A l c x = c x"
  by (simp_all add: link_next_def link_prev_def stamp_on_def)

lemma frame_links:
  assumes "frame A s (s\<lparr>cells := c\<rparr>)" "a \<in> A"
  shows "frame A s (s\<lparr>cells := link_next a q c\<rparr>)" "frame A s (s\<lparr>cells := link_prev a q c\<rparr>)"
proof -
  have "link_next a q c x = c x" "link_prev a q c x = c x" if "x \<notin> A" for x
    using assms(2) that by (auto intro: links_at)
  then show "frame A s (s\<lparr>cells := link_next a q c\<rparr>)" "frame A s (s\<lparr>cells := link_prev a q c\<rparr>)"
    using assms(1) by (simp_all add: frame_def)
qed

lemma frame_stamp: "A \<subseteq> B \<Longrightarrow> frame B s (s\<lparr>cells := stamp_on A l (cells s)\<rparr>)"
  using links_at(3) [of _ A l "cells s"] by (auto simp: frame_def)

lemma frame_join: "frame A s (s\<lparr>cells := c\<rparr>) \<Longrightarrow> a \<in> A \<Longrightarrow> b \<in> A \<Longrightarrow> frame A s (s\<lparr>cells := join_cells a b c\<rparr>)"
  unfolding join_cells_def by (intro frame_links)

lemma frame_trans: "frame A s t \<Longrightarrow> frame B t u \<Longrightarrow> frame (A \<union> B) s u"
  by (simp add: frame_def)

lemma frame_chain: "frame A s t \<Longrightarrow> chain s ys \<Longrightarrow> set ys \<inter> A = {} \<Longrightarrow> chain t ys"
  using dll_cong [of ys "cells t" "cells s" None None] by (auto simp: frame_def chain_def)

lemmas edit_simps = head_or_hd last_or_last join_cells_other set_next_cells set_prev_cells join_cells_def [symmetric]

lemma instrlist_prepend_rep:
  assumes "rep s xs" "chain s ys" "set ys \<inter> set xs = {}"
  shows "\<exists>t. instrlist_prepend (Some (hd ys)) s = Some t \<and> rep t (ys @ xs) \<and> frame (set xs \<union> set ys) s t"
proof -
  note w = chain_walk [OF assms(2)] and e = chain_ends [OF assms(2)]
  have ys: "ys \<noteq> []" "distinct ys" "dll (cells s) None ys None" using assms(2) by (auto simp: chain_def)
  have xs: "distinct xs" "dll (cells s) None xs None" using assms(1) by (auto simp: rep_def)
  show ?thesis
  proof (cases "xs = []")
    case True
    then show ?thesis using assms(1) w ys frame_stamp [of "set ys" "set ys"]
      by (auto simp: instrlist_prepend_def rep_def edit_simps)
  next
    case False
    let ?c = "stamp_on (set ys) (ilist s) (cells s)"
    have "dll (join_cells (last ys) (hd xs) ?c) None (ys @ xs) None"
      using ys xs False assms(3) by (intro dll_join [where r = None and r' = None]) auto
    moreover have "frame (set xs \<union> set ys) s (s\<lparr>cells := join_cells (last ys) (hd xs) ?c\<rparr>)"
      using ys False by (intro frame_join frame_stamp) auto
    ultimately show ?thesis
      using False assms(1,3) w ys xs e rep_last [OF assms(1) False]
      by (auto simp: instrlist_prepend_def rep_def edit_simps)
  qed
qed

lemma instrlist_append_rep:
  assumes "rep s xs" "chain s ys" "set ys \<inter> set xs = {}"
  shows "\<exists>t. instrlist_append (Some (hd ys)) s = Some t \<and> rep t (xs @ ys) \<and> frame (set xs \<union> set ys) s t"
proof -
  note w = chain_walk [OF assms(2)] and e = chain_ends [OF assms(2)]
  have ys: "ys \<noteq> []" "distinct ys" "dll (cells s) None ys None" using assms(2) by (auto simp: chain_def)
  have xs: "distinct xs" "dll (cells s) None xs None" using assms(1) by (auto simp: rep_def)
  show ?thesis
  proof (cases "xs = []")
    case True
    then show ?thesis using assms(1) w ys frame_stamp [of "set ys" "set ys"]
      by (auto simp: instrlist_append_def rep_def edit_simps)
  next
    case False
    let ?c = "stamp_on (set ys) (ilist s) (cells s)"
    have "dll (join_cells (last xs) (hd ys) ?c) None (xs @ ys) None"
      using ys xs False assms(3) by (intro dll_join [where r = None and r' = None]) auto
    moreover have "frame (set xs \<union> set ys) s (s\<lparr>cells := join_cells (last xs) (hd ys) ?c\<rparr>)"
      using ys False by (intro frame_join frame_stamp) auto
    ultimately show ?thesis
      using False assms(1,3) w ys xs e rep_last [OF assms(1) False]
      by (auto simp: instrlist_append_def rep_def edit_simps)
  qed
qed

lemma instrlist_postinsert_rep:
  assumes "rep s (xs @ a # zs)" "chain s ys" "set ys \<inter> set (xs @ a # zs) = {}"
  shows "\<exists>t. instrlist_postinsert (Some a) (Some (hd ys)) s = Some t \<and> rep t (xs @ a # ys @ zs)
     \<and> frame (set (xs @ a # zs) \<union> set ys) s t"
proof -
  note w = chain_walk [OF assms(2)] and e = chain_ends [OF assms(2)]
  have ys: "ys \<noteq> []" "distinct ys" "dll (cells s) None ys None" using assms(2) by (auto simp: chain_def)
  have xs: "distinct (xs @ a # zs)" "dll (cells s) None (xs @ [a]) (head_or zs None)" "dll (cells s) (Some a) zs None"
    using assms(1) by (auto simp: rep_def dll_append split: option.splits)
  have a: "cells s a \<noteq> None" "instr_get_next (Some a) s = Some (head_or zs None)"
    using xs(2) by (auto simp: dll_append instr_get_next_def deref_def split: option.splits)
  let ?c = "stamp_on (set ys) (ilist s) (cells s)"
  have d: "dll (join_cells a (hd ys) ?c) None ((xs @ [a]) @ ys) None"
    using ys xs assms(3) dll_join [of ?c None "xs @ [a]" "head_or zs None" None ys None] by auto
  have f: "frame (set (xs @ a # zs) \<union> set ys) s (s\<lparr>cells := join_cells a (hd ys) ?c\<rparr>)"
    using ys by (intro frame_join frame_stamp) auto
  show ?thesis
  proof (cases "zs = []")
    case True
    then show ?thesis using assms(1,3) w ys xs a d f e
      by (auto simp: instrlist_postinsert_def rep_def edit_simps)
  next
    case False
    let ?d = "join_cells (last ys) (hd zs) (join_cells a (hd ys) ?c)"
    have "hd ys \<notin> set zs" "a \<notin> set zs" "hd zs \<in> set zs"
      using e(3) xs(1) assms(3) False by (auto simp del: hd_in_set) (use hd_in_set in blast)
    then have "dll ?d None (((xs @ [a]) @ ys) @ zs) None"
      using ys xs assms(3) False d dll_join [OF d, of "Some a" zs None] by (auto simp: join_cells_other)
    moreover have "frame (set (xs @ a # zs) \<union> set ys) s (s\<lparr>cells := ?d\<rparr>)"
      using f ys False by (intro frame_join [OF f]) auto
    moreover have "cells s (hd zs) \<noteq> None" using dll_alloc [OF xs(3)] \<open>hd zs \<in> set zs\<close> by auto
    ultimately show ?thesis using assms(1,3) w ys xs a e False
      by (auto simp: instrlist_postinsert_def rep_def edit_simps)
  qed
qed

lemma instrlist_preinsert_rep:
  assumes "rep s (xs @ a # zs)" "chain s ys" "set ys \<inter> set (xs @ a # zs) = {}"
  shows "\<exists>t. instrlist_preinsert (Some a) (Some (hd ys)) s = Some t \<and> rep t (xs @ ys @ a # zs)
     \<and> frame (set (xs @ a # zs) \<union> set ys) s t"
proof -
  note w = chain_walk [OF assms(2)] and e = chain_ends [OF assms(2)]
  have ys: "ys \<noteq> []" "distinct ys" "dll (cells s) None ys None" using assms(2) by (auto simp: chain_def)
  have xs: "distinct (xs @ a # zs)" "dll (cells s) None xs (Some a)" "dll (cells s) (last_or xs None) (a # zs) None"
    using assms(1) by (auto simp: rep_def dll_append)
  have a: "cells s a \<noteq> None" "instr_get_prev (Some a) s = Some (last_or xs None)"
    using xs(3) by (auto simp: instr_get_prev_def deref_def split: option.splits)
  let ?c = "stamp_on (set ys) (ilist s) (cells s)"
  let ?A = "set (xs @ a # zs) \<union> set ys"
  show ?thesis
  proof (cases "xs = []")
    case True
    have d: "dll (join_cells (last ys) a ?c) None (ys @ a # zs) None"
      using ys xs assms(3) dll_join [of ?c None ys None "last_or xs None" "a # zs" None]
      by (auto simp del: dll.simps)
    moreover have "frame ?A s (s\<lparr>cells := join_cells (last ys) a ?c\<rparr>)"
      using ys by (intro frame_join frame_stamp) auto
    ultimately show ?thesis using True assms(1,3) w ys xs a e
      by (auto simp: instrlist_preinsert_def rep_def edit_simps)
  next
    case False
    let ?d = "join_cells (last ys) a (join_cells (last xs) (hd ys) ?c)"
    have "hd ys \<notin> set (a # zs)" "last xs \<notin> set (a # zs)" "last xs \<in> set xs"
      using e(3) xs(1) assms(3) False last_in_set [OF False] by (auto simp del: last_in_set)
    moreover have d: "dll (join_cells (last xs) (hd ys) ?c) None (xs @ ys) None"
      using ys xs assms(3) False dll_join [of ?c None xs "Some a" None ys None] by auto
    ultimately have "dll ?d None ((xs @ ys) @ a # zs) None"
      using ys xs assms(3) False dll_join [OF d, of "last_or xs None" "a # zs" None]
      by (auto simp: join_cells_other simp del: dll.simps)
    moreover have "frame ?A s (s\<lparr>cells := ?d\<rparr>)"
      using ys False by (intro frame_join frame_stamp) auto
    moreover have "cells s (last xs) \<noteq> None" using dll_alloc [OF xs(2)] \<open>last xs \<in> set xs\<close> by auto
    ultimately show ?thesis using assms(1,3) w ys xs a e False
      by (auto simp: instrlist_preinsert_def rep_def edit_simps)
  qed
qed

lemma dll_unlink:
  assumes "dll c None (xs @ a # zs) None" "distinct (xs @ a # zs)"
    and c1: "c1 = (if xs = [] then c else link_next (last xs) (head_or zs None) c)"
    and c2: "c2 = (if zs = [] then c1 else link_prev (hd zs) (last_or xs None) c1)"
  shows "dll c2 None (xs @ zs) None"
proof -
  have xs: "dll c None xs (Some a)" "dll c (Some a) zs None" using assms(1) by (auto simp: dll_append)
  consider "xs = []" "zs = []" | "xs = []" "zs \<noteq> []" | "xs \<noteq> []" "zs = []" | "xs \<noteq> []" "zs \<noteq> []" by blast
  then show ?thesis
  proof cases
    case 2
    then show ?thesis using assms(2) c1 c2 dll_relink(2) [OF xs(2), of None] by simp
  next
    case 3
    then show ?thesis using assms(2) c1 c2 dll_relink(1) [OF xs(1), of None] by simp
  next
    case 4
    then show ?thesis using assms(2) c1 c2 dll_join [OF xs] by (simp add: head_or_hd last_or_last join_cells_def)
  qed simp
qed

lemma remove_exec:
  assumes "instr_get_prev (Some a) s = Some (last_or xs None)" "instr_get_next (Some a) s = Some (head_or zs None)"
    and al: "cells s a \<noteq> None" "\<And>x. x \<in> set xs \<union> set zs \<Longrightarrow> cells s x \<noteq> None"
    and c1: "c1 = (if xs = [] then cells s else link_next (last xs) (head_or zs None) (cells s))"
    and c2: "c2 = (if zs = [] then c1 else link_prev (hd zs) (last_or xs None) c1)"
  shows "instrlist_remove (Some a) s =
     Some ((if zs = [] then set_last (last_or xs None) else id) ((if xs = [] then set_first (head_or zs None) else id)
       (s\<lparr>cells := link_next a None (link_prev a None c2)\<rparr>)))"
proof -
  have "xs \<noteq> [] \<Longrightarrow> cells s (last xs) \<noteq> None" "zs \<noteq> [] \<Longrightarrow> cells s (hd zs) \<noteq> None" using al(2) by auto
  then show ?thesis
    unfolding instrlist_remove_def assms(1,2) c1 c2 using al(1)
    by (cases "xs = []"; cases "zs = []") (simp_all add: set_next_cells set_prev_cells head_or_hd last_or_last)
qed

lemma instrlist_remove_rep:
  assumes "rep s (xs @ a # zs)"
  shows "\<exists>t. instrlist_remove (Some a) s = Some t \<and> rep t (xs @ zs) \<and> chain t [a]
     \<and> frame (set (xs @ a # zs)) s t"
proof -
  let ?A = "set (xs @ a # zs)"
  have d: "dll (cells s) None (xs @ a # zs) None" "distinct (xs @ a # zs)" using assms by (simp_all add: rep_def)
  define c1 where "c1 = (if xs = [] then cells s else link_next (last xs) (head_or zs None) (cells s))"
  define c2 where "c2 = (if zs = [] then c1 else link_prev (hd zs) (last_or xs None) c1)"
  let ?c = "link_next a None (link_prev a None c2)"
  let ?t = "(if zs = [] then set_last (last_or xs None) else id) ((if xs = [] then set_first (head_or zs None) else id)
       (s\<lparr>cells := ?c\<rparr>))"
  have links: "instr_get_prev (Some a) s = Some (last_or xs None)" "instr_get_next (Some a) s = Some (head_or zs None)"
      "cells s a \<noteq> None"
    using d(1) by (auto simp: dll_append instr_get_prev_def instr_get_next_def deref_def split: option.splits)
  have al: "cells s x \<noteq> None" if "x \<in> set xs \<union> set zs" for x using dll_alloc [OF d(1), of x] that by auto
  have f1: "frame ?A s (s\<lparr>cells := c1\<rparr>)" unfolding c1_def by (auto intro!: frame_links)
  have f2: "frame ?A s (s\<lparr>cells := c2\<rparr>)" unfolding c2_def using f1 by (auto intro!: frame_links)
  have "frame ?A s (s\<lparr>cells := ?c\<rparr>)" by (intro frame_links [OF frame_links(2) [OF f2]]) auto
  then have "frame ?A s ?t" by (cases "xs = []"; cases "zs = []") simp_all
  moreover have "rep ?t (xs @ zs)"
    using dll_unlink [OF d c1_def c2_def] d(2) assms
    by (cases "xs = []"; cases "zs = []") (simp_all add: rep_def last_or_def head_or_hd)
  moreover have "c2 a \<noteq> None" using links(3) by (simp add: c1_def c2_def del: not_None_eq)
  then obtain n where "c2 a = Some n" by blast
  then have "?c a = Some (n\<lparr>iprev := None, inext := None\<rparr>)" by (simp add: link_next_def link_prev_def)
  then have "chain ?t [a]" by (simp add: chain_def)
  moreover have "instrlist_remove (Some a) s = Some ?t" by (rule remove_exec [OF links al c1_def c2_def])
  ultimately show ?thesis by (intro exI [of _ ?t] conjI)
qed

section \<open>The interface of instruction lists\<close>

text \<open>
  What the users of an instruction list rely on: \<open>seq s xs\<close> says that \<open>s\<close> holds the list
  \<open>xs\<close>, \<open>free s ys\<close> that \<open>ys\<close> is a chain that can be inserted, \<open>within A s t\<close> that only
  instructions in \<open>A\<close> have been touched between \<open>s\<close> and \<open>t\<close>.
\<close>

locale instr_seq =
  fixes seq free :: "'s \<Rightarrow> 'a list \<Rightarrow> bool"
    and within :: "'a set \<Rightarrow> 's \<Rightarrow> 's \<Rightarrow> bool"
    and get_prev :: "'a option \<Rightarrow> 's \<Rightarrow> 'a option option"
    and remove prepend :: "'a option \<Rightarrow> 's \<Rightarrow> 's option"
    and postinsert :: "'a option \<Rightarrow> 'a option \<Rightarrow> 's \<Rightarrow> 's option"
  assumes get_prev: "seq s (xs @ a # zs) \<Longrightarrow> get_prev (Some a) s = Some (if xs = [] then None else Some (last xs))"
    and remove: "seq s (xs @ a # zs) \<Longrightarrow>
      \<exists>t. remove (Some a) s = Some t \<and> seq t (xs @ zs) \<and> free t [a] \<and> within (set (xs @ a # zs)) s t"
    and prepend: "seq s xs \<Longrightarrow> free s ys \<Longrightarrow> set ys \<inter> set xs = {} \<Longrightarrow>
      \<exists>t. prepend (Some (hd ys)) s = Some t \<and> seq t (ys @ xs) \<and> within (set xs \<union> set ys) s t"
    and postinsert: "seq s (xs @ a # zs) \<Longrightarrow> free s ys \<Longrightarrow> set ys \<inter> set (xs @ a # zs) = {} \<Longrightarrow>
      \<exists>t. postinsert (Some a) (Some (hd ys)) s = Some t \<and> seq t (xs @ a # ys @ zs)
        \<and> within (set (xs @ a # zs) \<union> set ys) s t"
    and postinsert_null: "postinsert None p s = prepend p s"
    and free_within: "within A s t \<Longrightarrow> free s ys \<Longrightarrow> set ys \<inter> A = {} \<Longrightarrow> free t ys"
    and within_trans: "within A s t \<Longrightarrow> within B t u \<Longrightarrow> within (A \<union> B) s u"
    and seq_distinct: "seq s xs \<Longrightarrow> distinct xs"
begin

text \<open>Inserting after the predecessor of an instruction puts the chain before that instruction.\<close>

lemma insert_after_prev:
  assumes "seq s (xs @ zs)" "free s ys" "set ys \<inter> set (xs @ zs) = {}"
  shows "\<exists>t. postinsert (if xs = [] then None else Some (last xs)) (Some (hd ys)) s = Some t
     \<and> seq t (xs @ ys @ zs) \<and> within (set (xs @ zs) \<union> set ys) s t"
proof (cases xs rule: rev_exhaust)
  case Nil
  then show ?thesis using prepend [of s zs ys] assms by (simp add: postinsert_null)
next
  case (snoc us b)
  then show ?thesis using postinsert [of s us b zs ys] assms by simp
qed

text \<open>Removing an instruction and inserting a chain after its former predecessor replaces it.\<close>

lemma replace_at:
  assumes s: "seq s (xs @ a # zs)" and ys: "free s ys" "set ys \<inter> set (xs @ a # zs) = {}"
  shows "\<exists>t u. get_prev (Some a) s = Some (if xs = [] then None else Some (last xs)) \<and> remove (Some a) s = Some t
     \<and> postinsert (if xs = [] then None else Some (last xs)) (Some (hd ys)) t = Some u
     \<and> seq u (xs @ ys @ zs) \<and> within (set (xs @ a # zs) \<union> set ys) s u"
proof -
  obtain t where t: "remove (Some a) s = Some t" "seq t (xs @ zs)" "within (set (xs @ a # zs)) s t"
    using remove [OF s] by blast
  have "free t ys" using free_within [OF t(3) ys] .
  then obtain u where u: "postinsert (if xs = [] then None else Some (last xs)) (Some (hd ys)) t = Some u"
      "seq u (xs @ ys @ zs)" "within (set (xs @ zs) \<union> set ys) t u"
    using insert_after_prev [OF t(2)] ys(2) by auto
  have "set (xs @ a # zs) \<union> (set (xs @ zs) \<union> set ys) = set (xs @ a # zs) \<union> set ys" by auto
  then have "within (set (xs @ a # zs) \<union> set ys) s u" using within_trans [OF t(3) u(3)] by simp
  then show ?thesis using t u get_prev [OF s] by auto
qed

end

interpretation il: instr_seq rep chain frame instr_get_prev instrlist_remove instrlist_prepend instrlist_postinsert
proof
  show "instr_get_prev (Some a) s = Some (if xs = [] then None else Some (last xs))" if "rep s (xs @ a # zs)" for s xs a zs
    using that by (auto simp: rep_def dll_append instr_get_prev_def deref_def last_or_def split: option.splits)
  show "instrlist_postinsert None p s = instrlist_prepend p s" for p s by (simp add: instrlist_postinsert_def)
  show "distinct xs" if "rep s xs" for s xs using that by (simp add: rep_def)
qed (fact instrlist_remove_rep instrlist_prepend_rep instrlist_postinsert_rep frame_chain frame_trans)+

section \<open>Refinement\<close>

text \<open>
  C3. Every insertion of a chain into a list ends and gives the list with the chain at the
  requested place: after or before a given instruction, and, for a null position, at the
  front (\<open>instrlist_postinsert\<close>) or at the end (\<open>instrlist_preinsert\<close>). Only links, stamps and
  the ends of the list change, and only for the instructions of the list and the chain.
\<close>

theorem instrlist_insert_refines:
  assumes "rep s (xs @ zs)" "chain s ys" "set ys \<inter> set (xs @ zs) = {}"
  shows "(\<exists>t. instrlist_postinsert (last_or xs None) (Some (hd ys)) s = Some t
       \<and> rep t (xs @ ys @ zs) \<and> frame (set (xs @ zs) \<union> set ys) s t)
    \<and> (\<exists>t. instrlist_preinsert (head_or zs None) (Some (hd ys)) s = Some t
       \<and> rep t (xs @ ys @ zs) \<and> frame (set (xs @ zs) \<union> set ys) s t)"
proof
  show "\<exists>t. instrlist_postinsert (last_or xs None) (Some (hd ys)) s = Some t
       \<and> rep t (xs @ ys @ zs) \<and> frame (set (xs @ zs) \<union> set ys) s t"
    using il.insert_after_prev [OF assms] by (simp add: last_or_def)
  show "\<exists>t. instrlist_preinsert (head_or zs None) (Some (hd ys)) s = Some t
       \<and> rep t (xs @ ys @ zs) \<and> frame (set (xs @ zs) \<union> set ys) s t"
  proof (cases zs)
    case Nil
    then show ?thesis using instrlist_append_rep [of s xs ys] assms by (simp add: instrlist_preinsert_def)
  next
    case (Cons b bs)
    then show ?thesis using instrlist_preinsert_rep [of s xs b bs ys] assms by simp
  qed
qed

text \<open>A list of two instructions at addresses 1 and 2, and a free chain of two at 3 and 4.\<close>

definition link_sample :: "addr option \<Rightarrow> addr option \<Rightarrow> instr_t" where
  "link_sample p q = \<lparr>inext = q, iprev = p, translation = 0, our_mangling = False, do_not_mangle = False,
     is_avx512_instr = False, body = INSTR_CREATE_clc\<rparr>"

definition list_sample :: lstate where
  "list_sample = \<lparr>ilist = \<lparr>ifirst = Some 1, ilast = Some 2, list_our_mangling = True, translation_target = 0x400,
      fall_through_bb = 0, has_avx512 = False, need_spill_simd = False\<rparr>,
    cells = [1 \<mapsto> link_sample None (Some 2), 2 \<mapsto> link_sample (Some 1) None,
      3 \<mapsto> link_sample None (Some 4), 4 \<mapsto> link_sample (Some 3) None], brk = 5\<rparr>"

lemma list_sample_rep: "rep list_sample [1, 2]" "chain list_sample [3, 4]"
  by (simp_all add: rep_def chain_def list_sample_def link_sample_def last_or_def)

theorem instrlist_insert_refines_witness:
  "(\<exists>t. instrlist_postinsert (Some 1) (Some 3) list_sample = Some t \<and> rep t [1, 3, 4, 2])
   \<and> (\<exists>t. instrlist_preinsert (Some 2) (Some 3) list_sample = Some t \<and> rep t [1, 3, 4, 2])"
  using instrlist_insert_refines [of list_sample "[1]" "[2]" "[3, 4]"] list_sample_rep by auto

text \<open>
  C4. \<open>instrlist_remove\<close> takes an instruction out of the list and leaves it as a chain of
  its own; \<open>instrlist_replace\<close> puts a chain in its place.
\<close>

theorem instrlist_remove_replace_refine:
  assumes "rep s (xs @ a # zs)" "chain s ys" "set ys \<inter> set (xs @ a # zs) = {}"
  shows "(\<exists>t. instrlist_remove (Some a) s = Some t \<and> rep t (xs @ zs) \<and> chain t [a] \<and> chain t ys
       \<and> frame (set (xs @ a # zs)) s t)
    \<and> (\<exists>t. instrlist_replace (Some a) (Some (hd ys)) s = Some t \<and> rep t (xs @ ys @ zs)
       \<and> frame (set (xs @ a # zs) \<union> set ys) s t)"
proof
  show "\<exists>t. instrlist_remove (Some a) s = Some t \<and> rep t (xs @ zs) \<and> chain t [a] \<and> chain t ys
       \<and> frame (set (xs @ a # zs)) s t"
    using instrlist_remove_rep [OF assms(1)] frame_chain [OF _ assms(2,3)] by blast
  obtain t u where "instr_get_prev (Some a) s = Some (last_or xs None)" "instrlist_remove (Some a) s = Some t"
      "instrlist_postinsert (last_or xs None) (Some (hd ys)) t = Some u"
      "rep u (xs @ ys @ zs)" "frame (set (xs @ a # zs) \<union> set ys) s u"
    using il.replace_at [OF assms] unfolding last_or_def by blast
  moreover from this have "instrlist_replace (Some a) (Some (hd ys)) s = Some u"
    by (cases "last_or xs None") (simp_all add: instrlist_replace_def il.postinsert_null)
  ultimately show "\<exists>t. instrlist_replace (Some a) (Some (hd ys)) s = Some t \<and> rep t (xs @ ys @ zs)
       \<and> frame (set (xs @ a # zs) \<union> set ys) s t" by blast
qed

theorem instrlist_remove_replace_refine_witness:
  "\<exists>t. instrlist_replace (Some 1) (Some 3) list_sample = Some t \<and> rep t [3, 4, 2]"
  using instrlist_remove_replace_refine [of list_sample "[]" 1 "[2]" "[3, 4]"] list_sample_rep by auto

lemma instr_destroy_rep:
  assumes "chain s [a]" "rep s xs" "a \<notin> set xs"
  shows "\<exists>t. instr_destroy a s = Some t \<and> rep t xs \<and> cells t = (cells s)(a := None)"
proof -
  have "dll ((cells s)(a := None)) None xs None = dll (cells s) None xs None" using assms(3) by (intro dll_cong) auto
  then show ?thesis
    using assms by (auto simp: instr_destroy_def chain_def rep_def split: option.splits)
qed

text \<open>
  C5. \<open>instrlist_clear\<close> ends on every list, leaves it empty, frees exactly the
  instructions of the list and touches no other cell.
\<close>

theorem instrlist_clear_frees:
  assumes "rep s xs"
  shows "\<exists>t. instrlist_clear s = Some t \<and> rep t [] \<and> cells t = (\<lambda>a. if a \<in> set xs then None else cells s a)"
  using assms
proof (induction xs arbitrary: s)
  case Nil
  then have "instrlist_clear s = Some s" by (subst instrlist_clear.simps) (simp add: instrlist_first_def rep_def)
  then show ?case using Nil by auto
next
  case (Cons a xs)
  obtain s1 where s1: "instrlist_remove (Some a) s = Some s1" "rep s1 xs" "chain s1 [a]" "frame (set (a # xs)) s s1"
    using instrlist_remove_rep [of s "[]" a xs] Cons.prems by auto
  have "a \<notin> set xs" using Cons.prems by (simp add: rep_def)
  with instr_destroy_rep [OF s1(3,2)] obtain s2 where s2: "instr_destroy a s1 = Some s2" "rep s2 xs"
      "cells s2 = (cells s1)(a := None)" by blast
  obtain t where t: "instrlist_clear s2 = Some t" "rep t []" "cells t = (\<lambda>a. if a \<in> set xs then None else cells s2 a)"
    using Cons.IH [OF s2(2)] by blast
  have "instrlist_first s = Some a" using Cons.prems by (simp add: instrlist_first_def rep_def)
  then have "instrlist_clear s = Some t" using s1(1) s2(1) t(1) by (subst instrlist_clear.simps) simp
  moreover have "cells t = (\<lambda>b. if b \<in> set (a # xs) then None else cells s b)"
    using t(3) s2(3) s1(4) by (auto simp: frame_def fun_eq_iff)
  ultimately show ?case using t(2) by blast
qed

theorem instrlist_clear_frees_witness:
  "\<exists>t. instrlist_clear list_sample = Some t \<and> rep t [] \<and> cells t 1 = None \<and> cells t 3 = cells list_sample 3"
  using instrlist_clear_frees [OF list_sample_rep(1)] by auto

end
