(* ===== verification/Spill.thy ===== *)
theory Spill
  imports Regs
begin

unbundle bit_operations_syntax

text \<open>
  The choice of scratch registers (\<open>core/arch/rewrite_utils.c\<close>): the scans over the six
  vector spill registers of each width, the bit-mask search for general-purpose registers,
  the bitmap of used \<open>ymm\<close> registers, and the table that maps a \<open>zmm\<close> register to a pair of
  \<open>ymm\<close> registers. The locale \<open>spill_slots\<close> proves what the vector selectors promise once for
  all widths.
\<close>

section \<open>Vector spill registers\<close>

text \<open>
  The loop of every selector: the first candidate from \<open>lo\<close> to \<open>hi\<close> that passes the test,
  \<open>DR_REG_NULL\<close> if there is none.
\<close>

definition scan :: "(reg_id \<Rightarrow> bool) \<Rightarrow> reg_id list \<Rightarrow> reg_id" where
  "scan ok cs = (case find ok cs of Some c \<Rightarrow> c | None \<Rightarrow> DR_REG_NULL)"

definition slots :: "reg_id \<Rightarrow> reg_id \<Rightarrow> reg_id list" where
  "slots lo hi = [lo..<Suc hi]"

definition avoids3 :: "reg_id \<Rightarrow> reg_id \<Rightarrow> reg_id \<Rightarrow> reg_id \<Rightarrow> bool" where
  "avoids3 a1 a2 a3 c \<longleftrightarrow> c \<noteq> a1 \<and> (a2 = DR_REG_NULL \<or> c \<noteq> a2) \<and> (a3 = DR_REG_NULL \<or> c \<noteq> a3)"

text \<open>The inner loop of the variadic selectors stops at the first conflict.\<close>

fun is_conflict :: "reg_id \<Rightarrow> reg_id list \<Rightarrow> bool" where
  "is_conflict c [] = False"
| "is_conflict c (a # as) = (if a \<noteq> DR_REG_NULL \<and> c = a then True else is_conflict c as)"

fun two_slots :: "reg_id \<Rightarrow> reg_id \<Rightarrow> reg_id list \<Rightarrow> reg_id \<times> reg_id" where
  "two_slots r1 r2 [] = (DR_REG_NULL, DR_REG_NULL)"
| "two_slots r1 r2 (c # cs) =
     (if c = r1 \<or> c = r2 then two_slots r1 r2 cs
      else case find (\<lambda>d. d \<noteq> r1 \<and> d \<noteq> r2) cs of
        Some d \<Rightarrow> (c, d)
      | None \<Rightarrow> two_slots r1 r2 cs)"

definition find_one_available_spill_xmm :: "reg_id \<Rightarrow> reg_id" where
  "find_one_available_spill_xmm reg = scan (\<lambda>c. reg \<noteq> c) (slots DR_REG_XMM10 DR_REG_XMM15)"

definition find_available_spill_xmm_avoiding :: "reg_id \<Rightarrow> reg_id \<Rightarrow> reg_id \<Rightarrow> reg_id" where
  "find_available_spill_xmm_avoiding a1 a2 a3 = scan (avoids3 a1 a2 a3) (slots DR_REG_XMM10 DR_REG_XMM15)"

definition find_available_spill_xmm_avoiding_variadic :: "reg_id list \<Rightarrow> reg_id" where
  "find_available_spill_xmm_avoiding_variadic as = scan (\<lambda>c. \<not> is_conflict c as) (slots DR_REG_XMM10 DR_REG_XMM15)"

definition find_one_available_spill_ymm :: "reg_id \<Rightarrow> reg_id" where
  "find_one_available_spill_ymm reg = scan (\<lambda>c. reg \<noteq> c) (slots DR_REG_YMM10 DR_REG_YMM15)"

definition find_available_spill_ymm_avoiding :: "reg_id \<Rightarrow> reg_id \<Rightarrow> reg_id \<Rightarrow> reg_id" where
  "find_available_spill_ymm_avoiding a1 a2 a3 = scan (avoids3 a1 a2 a3) (slots DR_REG_YMM10 DR_REG_YMM15)"

definition find_available_spill_ymm_avoiding_variadic :: "reg_id list \<Rightarrow> reg_id" where
  "find_available_spill_ymm_avoiding_variadic as = scan (\<lambda>c. \<not> is_conflict c as) (slots DR_REG_YMM10 DR_REG_YMM15)"

definition find_one_available_spill_zmm :: "reg_id \<Rightarrow> reg_id" where
  "find_one_available_spill_zmm reg = scan (\<lambda>c. reg \<noteq> c) (slots DR_REG_ZMM10 DR_REG_ZMM15)"

definition find_available_spill_zmm_avoiding :: "reg_id \<Rightarrow> reg_id \<Rightarrow> reg_id \<Rightarrow> reg_id" where
  "find_available_spill_zmm_avoiding a1 a2 a3 = scan (avoids3 a1 a2 a3) (slots DR_REG_ZMM10 DR_REG_ZMM15)"

definition find_two_available_spill_xmms :: "reg_id \<Rightarrow> reg_id \<Rightarrow> reg_id \<times> reg_id" where
  "find_two_available_spill_xmms r1 r2 = two_slots r1 r2 (slots DR_REG_XMM10 DR_REG_XMM15)"

definition find_two_available_spill_ymms :: "reg_id \<Rightarrow> reg_id \<Rightarrow> reg_id \<times> reg_id" where
  "find_two_available_spill_ymms r1 r2 = two_slots r1 r2 (slots DR_REG_YMM10 DR_REG_YMM15)"

definition find_two_available_spill_zmms :: "reg_id \<Rightarrow> reg_id \<Rightarrow> reg_id \<times> reg_id" where
  "find_two_available_spill_zmms r1 r2 = two_slots r1 r2 (slots DR_REG_ZMM10 DR_REG_ZMM15)"

section \<open>General-purpose spill registers\<close>

definition GPR_SPILL_SLOTS :: "reg_id list" where
  "GPR_SPILL_SLOTS = [DR_REG_RAX, DR_REG_RCX, DR_REG_RDX, DR_REG_RBX, DR_REG_RSI, DR_REG_RDI, DR_REG_R8,
     DR_REG_R9, DR_REG_R10, DR_REG_R11, DR_REG_R12, DR_REG_R13, DR_REG_R14, DR_REG_R15]"

abbreviation GPR_SPILL_SLOT_NUM :: int where "GPR_SPILL_SLOT_NUM \<equiv> 14"

abbreviation MAX_SPILL_AVOIDS :: int where "MAX_SPILL_AVOIDS \<equiv> 6"

definition reg_to_bit :: "reg_id \<Rightarrow> int" where
  "reg_to_bit r = (if DR_REG_RAX \<le> r \<and> r \<le> DR_REG_R15 then int r - int DR_REG_RAX else - 1)"

text \<open>
  A variadic call passes \<open>needed\<close> output pointers and then the registers to avoid. A pointer is
  null or the number of a variable; \<open>va_arg\<close> beyond the last argument is undefined.
\<close>

fun take_args :: "nat \<Rightarrow> 'a list \<Rightarrow> ('a list \<times> 'a list) option" where
  "take_args 0 xs = Some ([], xs)"
| "take_args (Suc n) [] = None"
| "take_args (Suc n) (x # xs) = (case take_args n xs of None \<Rightarrow> None | Some (ys, zs) \<Rightarrow> Some (x # ys, zs))"

text \<open>
  Up to three pointers are stored as they come and only counted if they are not null; from four
  on, null pointers are skipped.
\<close>

definition collect_ptrs :: "nat option list \<Rightarrow> nat option list \<times> nat" where
  "collect_ptrs ps = (let n = length (filter (\<lambda>p. p \<noteq> None) ps) in
     if length ps \<le> 3 then (ps, n) else (filter (\<lambda>p. p \<noteq> None) ps, n))"

fun avoid_bits :: "reg_id list \<Rightarrow> 64 word \<Rightarrow> 64 word" where
  "avoid_bits [] m = m"
| "avoid_bits (r # rs) m = avoid_bits rs
     (if r \<noteq> DR_REG_NULL \<and> 0 \<le> reg_to_bit r \<and> reg_to_bit r < 64 then m OR push_bit (nat (reg_to_bit r)) 1 else m)"

text \<open>A store through a pointer; through a null pointer it is undefined.\<close>

definition store_ptr :: "nat option \<Rightarrow> reg_id \<Rightarrow> (nat \<Rightarrow> reg_id) \<Rightarrow> (nat \<Rightarrow> reg_id) option" where
  "store_ptr p r out = (case p of None \<Rightarrow> None | Some a \<Rightarrow> Some (out(a := r)))"

fun assign_first :: "nat option list \<Rightarrow> reg_id list \<Rightarrow> (nat \<Rightarrow> reg_id) \<Rightarrow> (nat \<Rightarrow> reg_id) option" where
  "assign_first (p # ps) (r # rs) out = (case store_ptr p r out of None \<Rightarrow> None | Some o1 \<Rightarrow> assign_first ps rs o1)"
| "assign_first _ _ out = Some out"

fun select_loop :: "reg_id list \<Rightarrow> int \<Rightarrow> 64 word \<Rightarrow> nat option list \<Rightarrow> nat \<Rightarrow> nat \<Rightarrow> (nat \<Rightarrow> reg_id)
    \<Rightarrow> (int \<times> (nat \<Rightarrow> reg_id)) option" where
  "select_loop [] needed m os n sel out = Some (int sel, out)"
| "select_loop (c # cs) needed m os n sel out =
     (if needed \<le> int sel then Some (int sel, out)
      else if 0 \<le> reg_to_bit c \<and> m AND push_bit (nat (reg_to_bit c)) 1 = 0
      then (if sel < n
            then (case store_ptr (os ! sel) c out of
                    None \<Rightarrow> None
                  | Some o1 \<Rightarrow> select_loop cs needed m os n (Suc sel) o1)
            else select_loop cs needed m os n (Suc sel) out)
      else select_loop cs needed m os n sel out)"

definition find_available_spill_gprs_avoiding_outptrs ::
    "int \<Rightarrow> int \<Rightarrow> nat option list \<Rightarrow> reg_id list \<Rightarrow> (nat \<Rightarrow> reg_id) \<Rightarrow> (int \<times> (nat \<Rightarrow> reg_id)) option" where
  "find_available_spill_gprs_avoiding_outptrs needed num_avoids ptrs avoids out =
     (if needed \<le> 0 then Some (0, out)
      else if GPR_SPILL_SLOT_NUM < needed then Some (0, out)
      else (case take_args (nat needed) ptrs of
        None \<Rightarrow> None
      | Some (ps, more) \<Rightarrow>
          (let (os, n) = collect_ptrs ps;
              clamp_avoids = (if num_avoids < MAX_SPILL_AVOIDS then num_avoids else MAX_SPILL_AVOIDS)
          in (case take_args (nat clamp_avoids) avoids of
               None \<Rightarrow> None
             | Some (as, more) \<Rightarrow>
                 let avoid_mask = avoid_bits as 0 in
                 if avoid_mask = 0
                 then map_option (Pair needed) (assign_first (take (min (nat needed) n) os) GPR_SPILL_SLOTS out)
                 else select_loop GPR_SPILL_SLOTS needed avoid_mask os n 0 out))))"

text \<open>The buffer of registers to avoid of the single-register selector: null registers are left out.\<close>

fun avoid_buffer :: "nat \<Rightarrow> nat \<Rightarrow> reg_id list \<Rightarrow> reg_id list option" where
  "avoid_buffer 0 count as = Some []"
| "avoid_buffer (Suc n) count as =
     (if 6 \<le> count then Some []
      else case as of
        [] \<Rightarrow> None
      | a # as \<Rightarrow> if a \<noteq> DR_REG_NULL then map_option (Cons a) (avoid_buffer n (Suc count) as)
                  else avoid_buffer n count as)"

text \<open>With five or six registers in the buffer, six are announced and five passed.\<close>

definition find_one_available_spill_gpr_avoiding_variadic :: "int \<Rightarrow> reg_id list \<Rightarrow> reg_id option" where
  "find_one_available_spill_gpr_avoiding_variadic num_avoids avoids =
     (case avoid_buffer (nat num_avoids) 0 avoids of
        None \<Rightarrow> None
      | Some buf \<Rightarrow>
          let (k, as) = (if length buf \<le> 4 then (int (length buf), buf) else (MAX_SPILL_AVOIDS, take 5 buf))
          in (case find_available_spill_gprs_avoiding_outptrs 1 k [Some 0] as (\<lambda>_. DR_REG_NULL) of
                None \<Rightarrow> None
              | Some (r, out) \<Rightarrow> Some (if r = 1 then out 0 else DR_REG_NULL)))"

section \<open>The bitmap of used \<open>ymm\<close> registers\<close>

definition SET_YMM_USED :: "nat \<Rightarrow> 16 word \<Rightarrow> 16 word" where
  "SET_YMM_USED i b = b OR push_bit i 1"

definition IS_YMM_USED :: "nat \<Rightarrow> 16 word \<Rightarrow> bool" where
  "IS_YMM_USED i b \<longleftrightarrow> b AND push_bit i 1 \<noteq> 0"

definition SET_YMM_UNUSED :: "nat \<Rightarrow> 16 word \<Rightarrow> 16 word" where
  "SET_YMM_UNUSED i b = b AND NOT (push_bit i 1)"

definition FIND_FIRST_UNUSED_YMM :: "16 word \<Rightarrow> int" where
  "FIND_FIRST_UNUSED_YMM b = (case find (\<lambda>i. \<not> IS_YMM_USED i b) [0..<16] of Some i \<Rightarrow> int i | None \<Rightarrow> - 1)"

definition FIND_AND_SET_FIRST_UNUSED_YMM :: "16 word \<Rightarrow> int \<times> 16 word" where
  "FIND_AND_SET_FIRST_UNUSED_YMM b =
     (case find (\<lambda>i. \<not> IS_YMM_USED i b) [0..<16] of Some i \<Rightarrow> (int i, SET_YMM_USED i b) | None \<Rightarrow> (- 1, b))"

record ymm_pair =
  ymm_upper :: "32 word"
  ymm_lower :: "32 word"

text \<open>
  The loop of \<open>find_and_set_unused_ymm_pair\<close> over the remaining indices; the flag says that the
  lower register has been found. The result is whether a pair was found, the pair and the
  bitmap.
\<close>

fun pair_loop :: "nat list \<Rightarrow> bool \<Rightarrow> ymm_pair \<Rightarrow> 16 word \<Rightarrow> bool \<times> ymm_pair \<times> 16 word" where
  "pair_loop [] found p b = (False, p, b)"
| "pair_loop (i # is) found p b =
     (if IS_YMM_USED i b then pair_loop is found p b
      else if found then (True, p\<lparr>ymm_upper := of_nat i\<rparr>, SET_YMM_USED i b)
      else pair_loop is True (p\<lparr>ymm_lower := of_nat i\<rparr>) (SET_YMM_USED i b))"

definition find_and_set_unused_ymm_pair :: "ymm_pair \<Rightarrow> 16 word \<Rightarrow> bool \<times> ymm_pair \<times> 16 word" where
  "find_and_set_unused_ymm_pair p b = pair_loop [0..<16] False p b"

section \<open>The table from \<open>zmm\<close> registers to pairs of \<open>ymm\<close> registers\<close>

record zmm_map =
  zmm_idx :: "32 word"
  mapped_pair :: ymm_pair

type_synonym zmm_table = "zmm_map list"

definition init_zmm_to_ymm_pair_mapping :: zmm_table where
  "init_zmm_to_ymm_pair_mapping =
     replicate 32 \<lparr>zmm_idx = - 1, mapped_pair = \<lparr>ymm_upper = - 1, ymm_lower = - 1\<rparr>\<rparr>"

text \<open>An index out of range is only reported, not refused: the access is then undefined.\<close>

definition add_zmm_to_ymm_pair_mapping :: "int \<Rightarrow> ymm_pair \<Rightarrow> zmm_table \<Rightarrow> zmm_table option" where
  "add_zmm_to_ymm_pair_mapping i p t =
     (if i < 0 \<or> int (length t) \<le> i then None
      else Some (t[nat i := \<lparr>zmm_idx = word_of_int i, mapped_pair = p\<rparr>]))"

text \<open>The result is the status, whether a pair was found, and the pair.\<close>

definition get_zmm_to_ymm_pair_mapping :: "int \<Rightarrow> ymm_pair \<Rightarrow> zmm_table \<Rightarrow> (bool \<times> ymm_pair) option" where
  "get_zmm_to_ymm_pair_mapping i p t =
     (if i < 0 \<or> int (length t) \<le> i then None
      else let q = mapped_pair (t ! nat i) in
        if ymm_lower q = - 1 \<or> ymm_upper q = - 1 then Some (False, p) else Some (True, q))"

section \<open>The vector selectors\<close>

lemma set_slots [simp]: "set (slots lo hi) = {lo..hi}"
  by (simp only: slots_def set_upt atLeastLessThanSuc_atLeastAtMost)

lemma sorted_slots: "sorted_wrt (<) (slots lo hi)"
  by (simp only: slots_def sorted_wrt_upt)

lemma scan_found: "\<exists>c \<in> set cs. ok c \<Longrightarrow> scan ok cs \<in> set cs \<and> ok (scan ok cs)"
  by (auto simp: scan_def find_Some_iff split: option.splits dest: find_None_iff [THEN iffD1])

lemma scan_null: "0 \<notin> set cs \<Longrightarrow> scan ok cs = DR_REG_NULL \<longleftrightarrow> (\<forall>c \<in> set cs. \<not> ok c)"
proof (cases "find ok cs")
  case (Some c)
  then have "c \<in> set cs" "ok c" by (auto simp: find_Some_iff)
  then show "0 \<notin> set cs \<Longrightarrow> ?thesis" using Some by (auto simp: scan_def)
next
  case None
  moreover from this have "\<forall>c \<in> set cs. \<not> ok c" by (simp add: find_None_iff)
  ultimately show "0 \<notin> set cs \<Longrightarrow> ?thesis" by (simp add: scan_def)
qed

lemma is_conflict_iff: "is_conflict c as \<longleftrightarrow> c \<noteq> DR_REG_NULL \<and> c \<in> set as"
  by (induction as) auto

lemma two_slots_found:
  assumes "sorted_wrt (<) cs" "2 \<le> card (set cs - {r1, r2})"
  shows "fst (two_slots r1 r2 cs) < snd (two_slots r1 r2 cs)
     \<and> fst (two_slots r1 r2 cs) \<in> set cs - {r1, r2} \<and> snd (two_slots r1 r2 cs) \<in> set cs - {r1, r2}"
  using assms
proof (induction cs)
  case (Cons c cs)
  show ?case
  proof (cases "c = r1 \<or> c = r2")
    case True
    then show ?thesis using Cons by (auto simp: insert_Diff_if)
  next
    case False
    then have "card (insert c (set cs - {r1, r2})) \<ge> 2" using Cons.prems(2) by (simp add: insert_Diff_if)
    then have "set cs - {r1, r2} \<noteq> {}" by (intro notI) simp
    then obtain d where d: "find (\<lambda>d. d \<noteq> r1 \<and> d \<noteq> r2) cs = Some d"
      by (cases "find (\<lambda>d. d \<noteq> r1 \<and> d \<noteq> r2) cs") (auto simp: find_None_iff)
    then have "d \<in> set cs" "d \<noteq> r1" "d \<noteq> r2" by (auto simp: find_Some_iff)
    then show ?thesis using False Cons.prems(1) d by simp
  qed
qed simp

text \<open>Six consecutive registers, as every width has them.\<close>

locale spill_slots =
  fixes lo hi :: reg_id
  assumes six: "hi = lo + 5" and not_null: "0 < lo"
begin

lemma free_slot: "finite A \<Longrightarrow> card A < 6 \<Longrightarrow> \<exists>c \<in> set (slots lo hi). c \<notin> A"
proof (rule ccontr)
  assume A: "finite A" "card A < 6" "\<not> (\<exists>c \<in> set (slots lo hi). c \<notin> A)"
  then have "card (set (slots lo hi)) \<le> card A" by (intro card_mono) auto
  then show False using A(2) six by simp
qed


lemma one: "scan (\<lambda>c. r \<noteq> c) (slots lo hi) \<in> {lo..hi} - {r}"
proof -
  have "\<exists>c \<in> set (slots lo hi). r \<noteq> c" using free_slot [of "{r}"] by auto
  from scan_found [OF this] show ?thesis by auto
qed

lemma avoiding: "scan (avoids3 a b c) (slots lo hi) \<in> {lo..hi} - {a, b, c}"
proof -
  have "card {a, b, c} < 6" by (simp add: card_insert_if)
  then obtain d where "d \<in> set (slots lo hi)" "d \<notin> {a, b, c}" using free_slot [of "{a, b, c}"] by auto
  then have "\<exists>d \<in> set (slots lo hi). avoids3 a b c d" by (auto simp: avoids3_def)
  then show ?thesis using scan_found [of "slots lo hi" "avoids3 a b c"] not_null by (auto simp: avoids3_def)
qed

lemma variadic: "scan (\<lambda>c. \<not> is_conflict c as) (slots lo hi) \<in> {lo..hi} - set as
    \<or> scan (\<lambda>c. \<not> is_conflict c as) (slots lo hi) = DR_REG_NULL \<and> {lo..hi} \<subseteq> set as"
  using scan_found [of "slots lo hi" "\<lambda>c. \<not> is_conflict c as"] scan_null [of "slots lo hi" "\<lambda>c. \<not> is_conflict c as"] not_null
  by (cases "\<exists>c \<in> set (slots lo hi). \<not> is_conflict c as") (auto simp: is_conflict_iff)

lemma two: "fst (two_slots r1 r2 (slots lo hi)) < snd (two_slots r1 r2 (slots lo hi))
    \<and> fst (two_slots r1 r2 (slots lo hi)) \<in> {lo..hi} - {r1, r2} \<and> snd (two_slots r1 r2 (slots lo hi)) \<in> {lo..hi} - {r1, r2}"
proof -
  have "card (set (slots lo hi)) - card {r1, r2} \<le> card (set (slots lo hi) - {r1, r2})"
    by (intro diff_card_le_card_Diff) simp
  then have "2 \<le> card (set (slots lo hi) - {r1, r2})" using six by (simp add: card_insert_if split: if_splits)
  then show ?thesis using two_slots_found [OF sorted_slots, of lo hi r1 r2] by simp
qed

end

interpretation xmm_slots: spill_slots DR_REG_XMM10 DR_REG_XMM15
  by unfold_locales simp_all

interpretation ymm_slots: spill_slots DR_REG_YMM10 DR_REG_YMM15
  by unfold_locales simp_all

interpretation zmm_slots: spill_slots DR_REG_ZMM10 DR_REG_ZMM15
  by unfold_locales simp_all

lemma spill_variadic_complete:
  "(if {DR_REG_XMM10..DR_REG_XMM15} \<subseteq> set as then find_available_spill_xmm_avoiding_variadic as = DR_REG_NULL
    else find_available_spill_xmm_avoiding_variadic as \<in> {DR_REG_XMM10..DR_REG_XMM15} - set as)
   \<and> (if {DR_REG_YMM10..DR_REG_YMM15} \<subseteq> set as then find_available_spill_ymm_avoiding_variadic as = DR_REG_NULL
      else find_available_spill_ymm_avoiding_variadic as \<in> {DR_REG_YMM10..DR_REG_YMM15} - set as)"
  using xmm_slots.variadic [of as] ymm_slots.variadic [of as]
  unfolding find_available_spill_xmm_avoiding_variadic_def find_available_spill_ymm_avoiding_variadic_def by auto

lemma spill_selectors_range:
  assumes "(lo, one, avoid, two) \<in> set
     [(DR_REG_XMM10, find_one_available_spill_xmm, find_available_spill_xmm_avoiding, find_two_available_spill_xmms),
      (DR_REG_YMM10, find_one_available_spill_ymm, find_available_spill_ymm_avoiding, find_two_available_spill_ymms),
      (DR_REG_ZMM10, find_one_available_spill_zmm, find_available_spill_zmm_avoiding, find_two_available_spill_zmms)]"
  shows "one r \<in> {lo..lo + 5} - {r} \<and> avoid a b c \<in> {lo..lo + 5} - {a, b, c}
     \<and> fst (two r1 r2) \<noteq> snd (two r1 r2) \<and> {fst (two r1 r2), snd (two r1 r2)} \<subseteq> {lo..lo + 5} - {r1, r2}"
proof -
  note defs = find_one_available_spill_xmm_def find_available_spill_xmm_avoiding_def find_two_available_spill_xmms_def
    find_one_available_spill_ymm_def find_available_spill_ymm_avoiding_def find_two_available_spill_ymms_def
    find_one_available_spill_zmm_def find_available_spill_zmm_avoiding_def find_two_available_spill_zmms_def
  consider "lo = DR_REG_XMM10" | "lo = DR_REG_YMM10" | "lo = DR_REG_ZMM10" using assms by auto
  then show ?thesis
  proof cases
    case 1
    then show ?thesis using assms xmm_slots.one [of r] xmm_slots.avoiding [of a b c] xmm_slots.two [of r1 r2] by (simp add: defs)
  next
    case 2
    then show ?thesis using assms ymm_slots.one [of r] ymm_slots.avoiding [of a b c] ymm_slots.two [of r1 r2] by (simp add: defs)
  next
    case 3
    then show ?thesis using assms zmm_slots.one [of r] zmm_slots.avoiding [of a b c] zmm_slots.two [of r1 r2] by (simp add: defs)
  qed
qed

text \<open>
  C20. The selectors for one register return one of the six spill
  registers of their width, \<open>xmm10\<close> to \<open>xmm15\<close>, \<open>ymm10\<close> to \<open>ymm15\<close> or \<open>zmm10\<close> to \<open>zmm15\<close>, that
  is none of the given registers; the selectors for two return two different ones. They
  never fail. The variadic selectors for \<open>xmm\<close> and \<open>ymm\<close> registers return a spill register that is
  not in the list, and \<open>DR_REG_NULL\<close> exactly if the list contains all six.
\<close>

theorem spill_selectors_avoid:
  assumes "(lo, one, avoid, two) \<in> set
     [(DR_REG_XMM10, find_one_available_spill_xmm, find_available_spill_xmm_avoiding, find_two_available_spill_xmms),
      (DR_REG_YMM10, find_one_available_spill_ymm, find_available_spill_ymm_avoiding, find_two_available_spill_ymms),
      (DR_REG_ZMM10, find_one_available_spill_zmm, find_available_spill_zmm_avoiding, find_two_available_spill_zmms)]"
  shows "one r \<in> {lo..lo + 5} - {r} \<and> avoid a b c \<in> {lo..lo + 5} - {a, b, c}
     \<and> fst (two r1 r2) \<noteq> snd (two r1 r2) \<and> {fst (two r1 r2), snd (two r1 r2)} \<subseteq> {lo..lo + 5} - {r1, r2}
     \<and> (if {DR_REG_XMM10..DR_REG_XMM15} \<subseteq> set as then find_available_spill_xmm_avoiding_variadic as = DR_REG_NULL
         else find_available_spill_xmm_avoiding_variadic as \<in> {DR_REG_XMM10..DR_REG_XMM15} - set as)
     \<and> (if {DR_REG_YMM10..DR_REG_YMM15} \<subseteq> set as then find_available_spill_ymm_avoiding_variadic as = DR_REG_NULL
         else find_available_spill_ymm_avoiding_variadic as \<in> {DR_REG_YMM10..DR_REG_YMM15} - set as)"
  using spill_selectors_range [OF assms, of r a b c r1 r2] spill_variadic_complete [of as] by (simp only: simp_thms)

theorem spill_selectors_avoid_witness:
  "find_one_available_spill_ymm DR_REG_YMM10 \<in> {DR_REG_YMM10..DR_REG_YMM15} - {DR_REG_YMM10}
     \<and> find_available_spill_ymm_avoiding DR_REG_YMM10 DR_REG_YMM11 0 = DR_REG_YMM12
     \<and> find_two_available_spill_ymms DR_REG_YMM10 DR_REG_YMM12 = (DR_REG_YMM11, 201)"
  using spill_selectors_avoid [of DR_REG_YMM10 find_one_available_spill_ymm find_available_spill_ymm_avoiding
      find_two_available_spill_ymms DR_REG_YMM10 DR_REG_YMM10 DR_REG_YMM11 0 DR_REG_YMM10 DR_REG_YMM12 "[]"]
  by (simp add: find_available_spill_ymm_avoiding_def find_two_available_spill_ymms_def scan_def slots_def avoids3_def upt_rec)

section \<open>The general-purpose selectors\<close>

text \<open>
  The reference for the bit-mask search: the first \<open>needed\<close> spill registers that are not to
  be avoided, written to the output variables in order.
\<close>

definition gpr_pick :: "nat \<Rightarrow> reg_id list \<Rightarrow> reg_id list" where
  "gpr_pick needed avoids = take needed (filter (\<lambda>r. r \<notin> set avoids) GPR_SPILL_SLOTS)"

fun write_all :: "nat list \<Rightarrow> reg_id list \<Rightarrow> (nat \<Rightarrow> reg_id) \<Rightarrow> nat \<Rightarrow> reg_id" where
  "write_all (p # ps) (r # rs) out = write_all ps rs (out(p := r))"
| "write_all _ _ out = out"

lemma bit_or_push_1: "j < LENGTH('a) \<Longrightarrow> bit (m OR push_bit j 1) k \<longleftrightarrow> bit m k \<or> k = j" for m :: "'a::len word"
  by (auto simp: bit_or_iff bit_exp_iff)

lemma bit_avoid_bits:
  "bit (avoid_bits rs m) k \<longleftrightarrow> bit m k \<or> k < 16 \<and> k + 1 \<in> set rs"
proof (induction rs arbitrary: m)
  case (Cons r rs)
  show ?case
  proof (cases "1 \<le> r \<and> r \<le> 16")
    case True
    then have "r \<noteq> 0 \<and> 0 \<le> reg_to_bit r \<and> reg_to_bit r < 64" "nat (reg_to_bit r) = r - 1" by (auto simp: reg_to_bit_def)
    then have step: "avoid_bits (r # rs) m = avoid_bits rs (m OR push_bit (r - 1) 1)"
      by (simp only: avoid_bits.simps simp_thms if_True)
    have "r - 1 < 64" using True by linarith
    then have new: "bit (m OR push_bit (r - 1) 1) k \<longleftrightarrow> bit m k \<or> k = r - 1" by (intro bit_or_push_1) simp
    have at: "k = r - 1 \<longleftrightarrow> k < 16 \<and> k + 1 = r" using True by linarith
    show ?thesis unfolding step Cons.IH new at list.set insert_iff by argo
  next
    case False
    then have "\<not> (r \<noteq> 0 \<and> 0 \<le> reg_to_bit r \<and> reg_to_bit r < 64)" by (auto simp: reg_to_bit_def)
    then have step: "avoid_bits (r # rs) m = avoid_bits rs m" by (simp only: avoid_bits.simps if_False)
    have "\<not> (k < 16 \<and> k + 1 = r)" using False by linarith
    then show ?thesis unfolding step Cons.IH list.set insert_iff by argo
  qed
qed simp

lemma slot_free:
  assumes "c \<in> set GPR_SPILL_SLOTS"
  shows "(0 \<le> reg_to_bit c \<and> avoid_bits rs 0 AND push_bit (nat (reg_to_bit c)) 1 = 0) \<longleftrightarrow> c \<notin> set rs"
proof -
  have c: "1 \<le> c" "c \<le> 16" using assms by (auto simp: GPR_SPILL_SLOTS_def)
  then have bit: "nat (reg_to_bit c) = c - 1" "0 \<le> reg_to_bit c" by (auto simp: reg_to_bit_def)
  have "avoid_bits rs 0 AND push_bit (c - 1) 1 = 0 \<longleftrightarrow> \<not> bit (avoid_bits rs 0) (c - 1)"
    by (simp only: push_bit_of_1 and_exp_eq_0_iff_not_bit)
  also have "bit (avoid_bits rs 0) (c - 1) \<longleftrightarrow> c \<in> set rs" using c unfolding bit_avoid_bits by auto
  finally show ?thesis unfolding bit(1) using bit(2) by blast
qed

lemma select_loop_skip:
  assumes "\<not> needed \<le> int sel" "\<not> (0 \<le> reg_to_bit c \<and> m AND push_bit (nat (reg_to_bit c)) 1 = 0)"
  shows "select_loop (c # cs) needed m os n sel out = select_loop cs needed m os n sel out"
  using assms(1) unfolding select_loop.simps if_not_P [OF assms(2)] by simp

lemma select_loop_take:
  assumes "\<not> needed \<le> int sel" "0 \<le> reg_to_bit c \<and> m AND push_bit (nat (reg_to_bit c)) 1 = 0"
    and "sel < n" "os ! sel = Some p"
  shows "select_loop (c # cs) needed m os n sel out = select_loop cs needed m os n (Suc sel) (out(p := c))"
  unfolding select_loop.simps if_not_P [OF assms(1)] if_P [OF assms(2)] if_P [OF assms(3)] assms(4) store_ptr_def
  by (simp only: option.case)

lemma select_loop_picks:
  assumes "set cs \<subseteq> set GPR_SPILL_SLOTS" "int sel + int (length ps) = needed" "length qs = sel"
  shows "select_loop cs needed (avoid_bits rs 0) (map Some (qs @ ps)) (nat needed) sel out
     = (let xs = take (length ps) (filter (\<lambda>r. r \<notin> set rs) cs) in Some (int sel + int (length xs), write_all ps xs out))"
  using assms
proof (induction cs arbitrary: sel ps qs out)
  case (Cons c cs)
  note sub = Cons.prems(1) and len = Cons.prems(2,3) and IH = Cons.IH
  have cs: "set cs \<subseteq> set GPR_SPILL_SLOTS" and c: "c \<in> set GPR_SPILL_SLOTS" using sub by simp_all
  note free = slot_free [OF c, of rs]
  show ?case
  proof (cases ps)
    case Nil
    then show ?thesis using len by (simp add: Let_def)
  next
    case (Cons p ps')
    then have s: "sel < nat needed" "\<not> needed \<le> int sel" using len(1) by auto
    show ?thesis
    proof (cases "c \<in> set rs")
      case True
      with free have "\<not> (0 \<le> reg_to_bit c \<and> avoid_bits rs 0 AND push_bit (nat (reg_to_bit c)) 1 = 0)" by blast
      from select_loop_skip [OF s(2) this] show ?thesis using IH [OF cs len] True by (simp del: select_loop.simps)
    next
      case False
      with free have "0 \<le> reg_to_bit c \<and> avoid_bits rs 0 AND push_bit (nat (reg_to_bit c)) 1 = 0" by blast
      moreover have "map Some (qs @ ps) ! sel = Some p" using len(2) Cons by (simp add: nth_append)
      ultimately have "select_loop (c # cs) needed (avoid_bits rs 0) (map Some (qs @ ps)) (nat needed) sel out
          = select_loop cs needed (avoid_bits rs 0) (map Some ((qs @ [p]) @ ps')) (nat needed) (Suc sel) (out(p := c))"
        using select_loop_take [OF s(2) _ s(1)] Cons by simp
      also have "\<dots> = (let xs = take (length ps') (filter (\<lambda>r. r \<notin> set rs) cs) in
          Some (int (Suc sel) + int (length xs), write_all ps' xs (out(p := c))))"
        using len Cons by (intro IH [OF cs]) simp_all
      finally show ?thesis using Cons False by (simp add: Let_def del: select_loop.simps fun_upd_apply)
    qed
  qed
qed (simp add: Let_def)

lemma assign_first_write: "assign_first (map Some ps) rs out = Some (write_all ps rs out)"
proof (induction ps arbitrary: rs out)
  case (Cons p ps)
  then show ?case by (cases rs) (simp_all add: store_ptr_def fun_upd_def)
qed simp

lemma write_all_take: "write_all ps (take (length ps) rs) out = write_all ps rs out"
proof (induction ps arbitrary: rs out)
  case (Cons p ps)
  then show ?case by (cases rs) (simp_all add: fun_upd_def)
qed simp

lemma take_args_exact: "length xs = n \<Longrightarrow> take_args n (xs @ ys) = Some (xs, ys)"
  by (induction n xs rule: take_args.induct) auto

lemma take_args_short: "length xs < n \<Longrightarrow> take_args n xs = None"
  by (induction n xs rule: take_args.induct) auto

lemma collect_ptrs_some: "collect_ptrs (map Some ps) = (map Some ps, length ps)"
  by (simp add: collect_ptrs_def filter_map comp_def Let_def)

lemma gpr_pick_props:
  "set (gpr_pick n as) \<subseteq> set GPR_SPILL_SLOTS - set as" "distinct (gpr_pick n as)"
  "length as \<le> 6 \<Longrightarrow> n \<le> 8 \<Longrightarrow> length (gpr_pick n as) = n"
proof -
  show "set (gpr_pick n as) \<subseteq> set GPR_SPILL_SLOTS - set as" by (auto simp: gpr_pick_def dest: in_set_takeD)
  have d: "distinct GPR_SPILL_SLOTS" "length GPR_SPILL_SLOTS = 14" by (simp_all add: GPR_SPILL_SLOTS_def)
  then show "distinct (gpr_pick n as)" by (simp add: gpr_pick_def)
  assume n: "length as \<le> 6" "n \<le> 8"
  have "length (filter (\<lambda>r. r \<in> set as) GPR_SPILL_SLOTS) = card (set (filter (\<lambda>r. r \<in> set as) GPR_SPILL_SLOTS))"
    using d by (simp only: distinct_card distinct_filter)
  also have "\<dots> \<le> card (set as)" by (intro card_mono) auto
  also have "\<dots> \<le> length as" by (rule card_length)
  finally have "8 \<le> length (filter (\<lambda>r. r \<notin> set as) GPR_SPILL_SLOTS)"
    using n sum_length_filter_compl [of "\<lambda>r. r \<in> set as" GPR_SPILL_SLOTS] d(2) by simp
  then show "length (gpr_pick n as) = n" using n by (simp add: gpr_pick_def)
qed

lemma gpr_selector_run:
  assumes "0 < length ps" "length ps \<le> 14" "length as \<le> 6"
  shows "find_available_spill_gprs_avoiding_outptrs (int (length ps)) (int (length as)) (map Some ps) as out
     = Some (int (length (gpr_pick (length ps) as)), write_all ps (gpr_pick (length ps) as) out)"
proof -
  have args: "take_args (length ps) (map Some ps) = Some (map Some ps, [])" "take_args (length as) as = Some (as, [])"
    using take_args_exact [of "map Some ps" "length ps" "[]"] take_args_exact [of as "length as" "[]"] by simp_all
  have clamp: "(if int (length as) < 6 then int (length as) else 6) = int (length as)" using assms(3) by auto
  have call: "find_available_spill_gprs_avoiding_outptrs (int (length ps)) (int (length as)) (map Some ps) as out
      = (if avoid_bits as 0 = 0
         then map_option (Pair (int (length ps))) (assign_first (map Some ps) GPR_SPILL_SLOTS out)
         else select_loop GPR_SPILL_SLOTS (int (length ps)) (avoid_bits as 0) (map Some ps) (length ps) 0 out)"
    unfolding find_available_spill_gprs_avoiding_outptrs_def clamp
    using assms(1,2) by (simp add: args collect_ptrs_some Let_def del: select_loop.simps)
  show ?thesis
  proof (cases "avoid_bits as 0 = 0")
    case True
    have "c \<notin> set as" if "c \<in> set GPR_SPILL_SLOTS" for c
    proof -
      have "k < 16 \<Longrightarrow> k + 1 \<notin> set as" for k using bit_avoid_bits [of as 0 k] True by simp
      moreover have "1 \<le> c" "c \<le> 16" using that by (auto simp: GPR_SPILL_SLOTS_def)
      ultimately show ?thesis by (metis le_add_diff_inverse2 less_Suc_eq_le Suc_eq_plus1 add_less_cancel_right eval_nat_numeral(3))
    qed
    then have pick: "gpr_pick (length ps) as = take (length ps) GPR_SPILL_SLOTS"
      by (simp add: gpr_pick_def cong: filter_cong)
    have "length (take (length ps) GPR_SPILL_SLOTS) = length ps" using assms(2) by (simp add: GPR_SPILL_SLOTS_def)
    then show ?thesis using True by (simp add: call assign_first_write pick write_all_take)
  next
    case False
    have "select_loop GPR_SPILL_SLOTS (int (length ps)) (avoid_bits as 0) (map Some ps) (length ps) 0 out
        = Some (int (length (gpr_pick (length ps) as)), write_all ps (gpr_pick (length ps) as) out)"
      using select_loop_picks [of GPR_SPILL_SLOTS 0 ps "int (length ps)" "[]" as out] by (simp add: gpr_pick_def Let_def)
    then show ?thesis using False by (simp only: call if_False)
  qed
qed

text \<open>
  C19. The search for general-purpose scratch registers with a bit mask
  returns what a plain search returns: for at most six registers to avoid it finds as many
  registers as are free, in the order of the spill list, writes them to the output variables
  and returns their number. They are pairwise different, none is to be avoided, none is
  \<open>rsp\<close> or \<open>rbp\<close>, and up to eight requested registers are always found.
\<close>

theorem gpr_selector_reference:
  assumes "0 < length ps" "length ps \<le> 14" "length as \<le> 6"
  shows "find_available_spill_gprs_avoiding_outptrs (int (length ps)) (int (length as)) (map Some ps) as out
       = Some (int (length (gpr_pick (length ps) as)), write_all ps (gpr_pick (length ps) as) out)
     \<and> distinct (gpr_pick (length ps) as) \<and> set (gpr_pick (length ps) as) \<inter> (set as \<union> {DR_REG_RSP, DR_REG_RBP}) = {}
     \<and> (length (gpr_pick (length ps) as) = length ps \<or> 8 < length ps)"
proof -
  have sub: "set (gpr_pick (length ps) as) \<subseteq> set GPR_SPILL_SLOTS - set as" by (rule gpr_pick_props(1))
  have "DR_REG_RSP \<notin> set GPR_SPILL_SLOTS" "DR_REG_RBP \<notin> set GPR_SPILL_SLOTS" by (simp_all add: GPR_SPILL_SLOTS_def)
  then have avoid: "set (gpr_pick (length ps) as) \<inter> (set as \<union> {DR_REG_RSP, DR_REG_RBP}) = {}" using sub by blast
  have "length (gpr_pick (length ps) as) = length ps \<or> 8 < length ps"
    using gpr_pick_props(3) [OF assms(3), of "length ps"] by (cases "length ps \<le> 8") simp_all
  then show ?thesis by (intro conjI gpr_selector_run [OF assms] gpr_pick_props(2) avoid)
qed

theorem gpr_selector_reference_witness:
  "find_available_spill_gprs_avoiding_outptrs 2 2 [Some 0, Some 1] [DR_REG_RAX, DR_REG_RDX] (\<lambda>_. 0)
     = Some (2, ((\<lambda>_. 0)(0 := DR_REG_RCX, 1 := DR_REG_RBX)))"
  using gpr_selector_reference [of "[0, 1]" "[DR_REG_RAX, DR_REG_RDX]" "\<lambda>_. 0"]
  by (simp add: gpr_pick_def GPR_SPILL_SLOTS_def fun_upd_def)

lemma avoid_buffer_filter:
  "c \<le> 6 \<Longrightarrow> avoid_buffer (length as) c as = Some (take (6 - c) (filter (\<lambda>a. a \<noteq> DR_REG_NULL) as))"
proof (induction as arbitrary: c)
  case (Cons a as)
  show ?case
  proof (cases "c = 6")
    case False
    then obtain k where k: "6 - c = Suc k" "6 - Suc c = k" "Suc c \<le> 6" using Cons.prems by (cases "6 - c") auto
    have "avoid_buffer (length as) (Suc c) as = Some (take k (filter (\<lambda>a. a \<noteq> DR_REG_NULL) as))"
        "avoid_buffer (length as) c as = Some (take (Suc k) (filter (\<lambda>a. a \<noteq> DR_REG_NULL) as))"
      using Cons.IH [OF k(3)] Cons.IH [OF Cons.prems] by (simp_all only: k(1,2))
    moreover have "\<not> 6 \<le> c" using k(3) by simp
    ultimately show ?thesis by (simp only: k(1) list.size avoid_buffer.simps add_Suc_right add_0_right if_False list.case) simp
  qed simp
qed simp

lemma gpr_pick_nonnull: "gpr_pick n (filter (\<lambda>a. a \<noteq> DR_REG_NULL) as) = gpr_pick n as"
proof -
  have "r \<noteq> 0" if "r \<in> set GPR_SPILL_SLOTS" for r using that by (auto simp: GPR_SPILL_SLOTS_def)
  then have "filter (\<lambda>r. r \<notin> set (filter (\<lambda>a. a \<noteq> DR_REG_NULL) as)) GPR_SPILL_SLOTS = filter (\<lambda>r. r \<notin> set as) GPR_SPILL_SLOTS"
    by (intro filter_cong) auto
  then show ?thesis by (simp only: gpr_pick_def)
qed

text \<open>
  The selector of one general-purpose register, on all its inputs: with
  at most four registers to avoid, null registers not counted, it returns the first spill
  register that is not among them; with more, it announces six registers to the search and
  passes five, which is undefined.
\<close>

lemma gpr_single_selector:
  "find_one_available_spill_gpr_avoiding_variadic (int (length as)) as
     = (if length (filter (\<lambda>a. a \<noteq> DR_REG_NULL) as) \<le> 4 then Some (hd (gpr_pick 1 as)) else None)"
proof (cases "length (filter (\<lambda>a. a \<noteq> DR_REG_NULL) as) \<le> 4")
  case True
  let ?b = "filter (\<lambda>a. a \<noteq> DR_REG_NULL) as"
  have buf: "avoid_buffer (length as) 0 as = Some ?b" using avoid_buffer_filter [of 0 as] True by simp
  have "length (gpr_pick 1 ?b) = 1" using gpr_pick_props(3) [of ?b 1] True by simp
  then obtain r where r: "gpr_pick 1 ?b = [r]" by (cases "gpr_pick 1 ?b") auto
  have "find_available_spill_gprs_avoiding_outptrs 1 (int (length ?b)) [Some 0] ?b (\<lambda>_. 0) = Some (1, (\<lambda>_. 0)(0 := r))"
    using gpr_selector_run [of "[0]" ?b "\<lambda>_. 0"] True r by simp
  moreover have "gpr_pick 1 as = [r]" using r by (simp only: gpr_pick_nonnull)
  ultimately show ?thesis using True buf by (simp add: find_one_available_spill_gpr_avoiding_variadic_def)
next
  case False
  let ?b = "take 6 (filter (\<lambda>a. a \<noteq> DR_REG_NULL) as)"
  have buf: "avoid_buffer (length as) 0 as = Some ?b" using avoid_buffer_filter [of 0 as] by simp
  have short: "take_args 6 (take 5 ?b) = None" by (intro take_args_short) simp
  have "take_args 1 [Some 0] = Some ([Some 0], [])" by simp
  then have "find_available_spill_gprs_avoiding_outptrs 1 6 [Some 0] (take 5 ?b) out = None" for out
    using short by (simp add: find_available_spill_gprs_avoiding_outptrs_def collect_ptrs_def)
  then show ?thesis using False buf by (simp add: find_one_available_spill_gpr_avoiding_variadic_def min_le_iff_disj)
qed

section \<open>The bitmap and the table\<close>

lemma IS_YMM_USED_bit: "i < 16 \<Longrightarrow> IS_YMM_USED i b \<longleftrightarrow> bit b i"
  unfolding IS_YMM_USED_def push_bit_of_1 and_exp_eq_0_iff_not_bit by simp

lemma bit_SET_YMM_USED: "i < 16 \<Longrightarrow> bit (SET_YMM_USED i b) k \<longleftrightarrow> bit b k \<or> k = i"
  unfolding SET_YMM_USED_def by (intro bit_or_push_1) simp

abbreviation unused :: "16 word \<Rightarrow> nat list \<Rightarrow> nat list" where
  "unused b is \<equiv> filter (\<lambda>i. \<not> bit b i) is"

lemma pair_loop_upper:
  "set is \<subseteq> {..<16} \<Longrightarrow> pair_loop is True p b =
     (case unused b is of [] \<Rightarrow> (False, p, b) | j # js \<Rightarrow> (True, p\<lparr>ymm_upper := of_nat j\<rparr>, SET_YMM_USED j b))"
  by (induction "is") (auto simp: IS_YMM_USED_bit)

lemma pair_loop_lower:
  "set is \<subseteq> {..<16} \<Longrightarrow> distinct is \<Longrightarrow> pair_loop is False p b =
     (case unused b is of
        [] \<Rightarrow> (False, p, b)
      | [i] \<Rightarrow> (False, p\<lparr>ymm_lower := of_nat i\<rparr>, SET_YMM_USED i b)
      | i # j # js \<Rightarrow> (True, \<lparr>ymm_upper = of_nat j, ymm_lower = of_nat i\<rparr>, SET_YMM_USED j (SET_YMM_USED i b)))"
proof (induction "is")
  case (Cons i js)
  have i: "i < 16" "i \<notin> set js" "set js \<subseteq> {..<16}" using Cons.prems by auto
  have "unused (SET_YMM_USED i b) js = unused b js"
    using i by (intro filter_cong) (auto simp: bit_SET_YMM_USED)
  then show ?case using Cons i pair_loop_upper [OF i(3)]
    by (auto simp: IS_YMM_USED_bit split: list.splits)
qed simp

lemma ymm_pair_run:
  "find_and_set_unused_ymm_pair p b =
     (case unused b [0..<16] of
        [] \<Rightarrow> (False, p, b)
      | [i] \<Rightarrow> (False, p\<lparr>ymm_lower := of_nat i\<rparr>, SET_YMM_USED i b)
      | i # j # js \<Rightarrow> (True, \<lparr>ymm_upper = of_nat j, ymm_lower = of_nat i\<rparr>, SET_YMM_USED j (SET_YMM_USED i b)))"
  unfolding find_and_set_unused_ymm_pair_def by (intro pair_loop_lower) auto

lemma unused_IS_YMM_USED: "filter (\<lambda>i. \<not> IS_YMM_USED i b) [0..<16] = unused b [0..<16]"
  by (intro filter_cong) (auto simp: IS_YMM_USED_bit)

text \<open>
  Taking two unused \<open>ymm\<close> registers: the two lowest unused ones are
  returned and marked as used. If only one is left the call fails, and still marks it as
  used and overwrites the lower half of the pair.
\<close>

lemma ymm_pair_allocation:
  "find_and_set_unused_ymm_pair p b =
     (case filter (\<lambda>i. \<not> IS_YMM_USED i b) [0..<16] of
        [] \<Rightarrow> (False, p, b)
      | [i] \<Rightarrow> (False, p\<lparr>ymm_lower := of_nat i\<rparr>, SET_YMM_USED i b)
      | i # j # js \<Rightarrow> (True, \<lparr>ymm_upper = of_nat j, ymm_lower = of_nat i\<rparr>, SET_YMM_USED j (SET_YMM_USED i b)))"
  unfolding unused_IS_YMM_USED by (rule ymm_pair_run)

text \<open>Successive allocations, until one fails: the registers handed out, in order, and the bitmap.\<close>

fun alloc_pairs :: "nat \<Rightarrow> 16 word \<Rightarrow> nat list \<times> 16 word" where
  "alloc_pairs 0 b = ([], b)"
| "alloc_pairs (Suc n) b =
     (case find_and_set_unused_ymm_pair \<lparr>ymm_upper = 0, ymm_lower = 0\<rparr> b of
        (True, q, b1) \<Rightarrow> (let (rs, b2) = alloc_pairs n b1 in (unat (ymm_lower q) # unat (ymm_upper q) # rs, b2))
      | (False, q, b1) \<Rightarrow> ([], b1))"

lemma alloc_pairs_take:
  "fst (alloc_pairs n b) = take (2 * min n (length (unused b [0..<16]) div 2)) (unused b [0..<16])"
proof (induction n arbitrary: b)
  case (Suc n)
  note run = ymm_pair_run [of "\<lparr>ymm_upper = 0, ymm_lower = 0\<rparr>" b]
  consider "unused b [0..<16] = []" | i where "unused b [0..<16] = [i]"
    | i j js where "unused b [0..<16] = i # j # js" by (metis neq_Nil_conv)
  then show ?case
  proof cases
    case (3 i j js)
    have "set (unused b [0..<16]) \<subseteq> {..<16}" "distinct (unused b [0..<16])" by (auto simp del: upt_Suc)
    then have ij: "i < 16" "j < 16" "i \<noteq> j" "i \<notin> set js" "j \<notin> set js" using 3 by auto
    have "unused (SET_YMM_USED j (SET_YMM_USED i b)) [0..<16] = filter (\<lambda>k. k \<noteq> i \<and> k \<noteq> j) (unused b [0..<16])"
      using ij by (simp only: filter_filter) (intro filter_cong; auto simp: bit_SET_YMM_USED)
    also have "\<dots> = js" using 3 ij by (auto simp: filter_id_conv)
    finally have js: "unused (SET_YMM_USED j (SET_YMM_USED i b)) [0..<16] = js" .
    have u: "unat (of_nat i :: 32 word) = i" "unat (of_nat j :: 32 word) = j" using ij by (simp_all add: unat_of_nat)
    show ?thesis using Suc.IH [of "SET_YMM_USED j (SET_YMM_USED i b)"] u unfolding alloc_pairs.simps run 3 js
      by (simp add: split_beta Let_def)
  qed (simp_all add: run del: upt_Suc)
qed simp

text \<open>
  C21. Successive allocations never hand out a register twice, nor one that
  was in use: \<open>n\<close> of them return the lowest unused registers in order, two each, as long as
  two are left.
\<close>

theorem ymm_pairs_disjoint:
  "fst (alloc_pairs n b) = take (2 * min n (length (filter (\<lambda>i. \<not> IS_YMM_USED i b) [0..<16]) div 2))
       (filter (\<lambda>i. \<not> IS_YMM_USED i b) [0..<16])
   \<and> distinct (fst (alloc_pairs n b))"
  unfolding unused_IS_YMM_USED alloc_pairs_take by (intro conjI refl distinct_take distinct_filter distinct_upt)

text \<open>
  The table from \<open>zmm\<close> registers to pairs of \<open>ymm\<close> registers: the
  empty table has no pair for any register; after a pair without the marker of empty entries
  has been added, it is what the register gets, and all other registers get what they got
  before.
\<close>

lemma zmm_mapping_roundtrip:
  assumes "0 \<le> i" "i < int (length t)" "ymm_lower p \<noteq> - 1" "ymm_upper p \<noteq> - 1" "0 \<le> k" "k < 32"
  shows "(\<exists>t1. add_zmm_to_ymm_pair_mapping i p t = Some t1
       \<and> get_zmm_to_ymm_pair_mapping j q t1 = (if j = i then Some (True, p) else get_zmm_to_ymm_pair_mapping j q t))
     \<and> get_zmm_to_ymm_pair_mapping k q init_zmm_to_ymm_pair_mapping = Some (False, q)"
  using assms by (auto simp: add_zmm_to_ymm_pair_mapping_def get_zmm_to_ymm_pair_mapping_def Let_def
      init_zmm_to_ymm_pair_mapping_def nth_list_update nat_eq_iff)

lemma zmm_mapping_roundtrip_witness:
  "\<exists>t1. add_zmm_to_ymm_pair_mapping 5 \<lparr>ymm_upper = 3, ymm_lower = 2\<rparr> init_zmm_to_ymm_pair_mapping = Some t1
     \<and> get_zmm_to_ymm_pair_mapping 5 \<lparr>ymm_upper = 0, ymm_lower = 0\<rparr> t1 = Some (True, \<lparr>ymm_upper = 3, ymm_lower = 2\<rparr>)"
  using zmm_mapping_roundtrip [of 5 init_zmm_to_ymm_pair_mapping "\<lparr>ymm_upper = 3, ymm_lower = 2\<rparr>" 0 5 "\<lparr>ymm_upper = 0, ymm_lower = 0\<rparr>"]
  by (simp add: init_zmm_to_ymm_pair_mapping_def)

end
