(* ===== verification/Vec_Rules.thy ===== *)
theory Vec_Rules
  imports Rewrite_Base Spill
begin

text \<open>
  Reasoning about emitted vector code. The code of a vector rewrite moves 32-byte values
  between the \<open>ymm\<close> registers of the processor and the halves of the \<open>zmm\<close> spill slots and
  combines registers. Such code is a list of assignments to cells; what it does to the
  machine follows from what the assignments do to a map from cells to values, in which cells
  do not overlap.
\<close>

section \<open>Cells\<close>

text \<open>The registers an instruction names: 16-byte \<open>xmm\<close> or 32-byte \<open>ymm\<close>.\<close>

datatype vclass = XMM | YMM

fun opsz :: "vclass \<Rightarrow> nat" where
  "opsz XMM = 16"
| "opsz YMM = 32"

fun vbase :: "vclass \<Rightarrow> reg_id" where
  "vbase XMM = DR_REG_XMM0"
| "vbase YMM = DR_REG_YMM0"

text \<open>
  A register, or the lower or upper half of a spill slot. In 16-byte code the cells for
  registers and lower halves are their lowest 16 bytes.
\<close>

datatype cell = Y nat | Z nat bool

type_synonym cstate = "cell \<Rightarrow> vec"

abbreviation half :: "bool \<Rightarrow> nat" where "half h \<equiv> (if h then 32 else 0)"

fun gcells :: "vclass \<Rightarrow> mstate \<Rightarrow> cstate" where
  "gcells c s (Y k) = clip (opsz c) (ymm s k)"
| "gcells c s (Z z h) = clip (if h then 32 else opsz c) (tls_get (tls s) (zslot z + half h))"

abbreviation vcells :: "mstate \<Rightarrow> cstate" where "vcells \<equiv> gcells YMM"

text \<open>
  \<open>Move d c\<close> copies \<open>c\<close> to \<open>d\<close> between a register and a slot; \<open>Una opc d a\<close> and \<open>Bin opc d a b\<close> put the
  result of \<open>opc\<close> on \<open>a\<close>, or on \<open>a\<close> and \<open>b\<close>, into \<open>d\<close>.
\<close>

datatype asn = Move cell cell | Una opcode cell cell | Bin opcode cell cell cell

fun grun :: "vclass \<Rightarrow> asn \<Rightarrow> cstate \<Rightarrow> cstate" where
  "grun v (Move d c) \<sigma> = \<sigma>(d := \<sigma> c)"
| "grun v (Una opc d a) \<sigma> = \<sigma>(d := clip (opsz v) (vop1 opc (\<sigma> a)))"
| "grun v (Bin opc d a b) \<sigma> = \<sigma>(d := clip (opsz v) (vop2 opc (\<sigma> a) (\<sigma> b)))"

abbreviation run_asn :: "asn \<Rightarrow> cstate \<Rightarrow> cstate" where "run_asn \<equiv> grun YMM"

text \<open>The operations on equal lanes, and all binary operations.\<close>

definition vops :: "opcode list" where
  "vops = [OP_vpaddb, OP_vpaddw, OP_vpaddd, OP_vpaddq, OP_vpsubb, OP_vpsubw, OP_vpsubd, OP_vpsubq, OP_vpand, OP_vpor, OP_vpxor]"

definition lops :: "opcode list" where
  "lops = vops @ [OP_vunpcklps, OP_vunpckhps, OP_vunpcklpd, OP_vunpckhpd, OP_vmovss, OP_vmovsd, OP_vpsllq]"

text \<open>The moves.\<close>

definition mops :: "opcode list" where
  "mops = [OP_vmovdqu, OP_vmovdqa, OP_vmovaps, OP_vmovapd, OP_vmovups, OP_vmovupd, OP_vmovsldup, OP_vmovshdup, OP_vmovddup]"

fun ginstr :: "vclass \<Rightarrow> asn \<Rightarrow> instr" where
  "ginstr c (Move (Z z h) (Y k)) = SAVE_SIMD_TO_SIZED_TLS (vbase c + k) (zslot z + half h) (opsz c)"
| "ginstr c (Move (Y k) (Z z h)) = RESTORE_SIMD_FROM_SIZED_TLS (vbase c + k) (zslot z + half h) (opsz c)"
| "ginstr c (Una opc (Y d) (Y a)) = Instr opc [OReg (vbase c + d)] [OReg (vbase c + a)]"
| "ginstr c (Bin opc (Y d) (Y a) (Y b)) = Instr opc [OReg (vbase c + d)] [OReg (vbase c + a), OReg (vbase c + b)]"
| "ginstr c _ = Instr OP_nop [] []"

abbreviation asn_instr :: "asn \<Rightarrow> instr" where "asn_instr \<equiv> ginstr YMM"

fun gvalid :: "vclass \<Rightarrow> asn \<Rightarrow> bool" where
  "gvalid c (Move (Z z h) (Y k)) \<longleftrightarrow> k < 16 \<and> (h \<longrightarrow> c = YMM)"
| "gvalid c (Move (Y k) (Z z h)) \<longleftrightarrow> k < 16 \<and> (h \<longrightarrow> c = YMM)"
| "gvalid c (Una opc (Y d) (Y a)) \<longleftrightarrow> opc \<in> set mops \<and> d < 16 \<and> a < 16"
| "gvalid c (Bin opc (Y d) (Y a) (Y b)) \<longleftrightarrow> opc \<in> set lops \<and> d < 16 \<and> a < 16 \<and> b < 16"
| "gvalid c _ \<longleftrightarrow> False"

abbreviation valid_asn :: "asn \<Rightarrow> bool" where "valid_asn \<equiv> gvalid YMM"

lemma vops_lops: "opc \<in> set vops \<Longrightarrow> opc \<in> set lops" by (simp add: lops_def)

lemma opsz_cases: "opsz c = 16 \<or> opsz c = 32" by (cases c) simp_all

lemma clip_clip [simp]: "clip n (clip n v) = clip n v"
  by (simp add: clip_def fun_eq_iff)

section \<open>Lanes\<close>

text \<open>A lane of the vector from byte 32 on, and of a vector cut after 32 bytes.\<close>

lemma lanewise_shift:
  assumes "0 < n" "n dvd p"
  shows "lanewise n f a b (p + i) = lanewise n f (\<lambda>j. a (p + j)) (\<lambda>j. b (p + j)) i"
proof -
  obtain q where q: "p = n * q" using assms(2) by blast
  have "(p + i) div n = q + i div n" "(p + i) mod n = i mod n" using q assms(1) by simp_all
  moreover have "lane n v (q + i div n) = lane n (\<lambda>j. v (p + j)) (i div n)" for v
    by (simp add: lane_def q algebra_simps)
  ultimately show ?thesis by (simp add: lanewise_def)
qed

lemma lanewise_cut:
  assumes "0 < n" "n dvd m" "i < m" "\<And>j. j < m \<Longrightarrow> a j = c j" "\<And>j. j < m \<Longrightarrow> b j = d j"
  shows "lanewise n f a b i = lanewise n f c d i"
proof -
  obtain q where q: "m = n * q" using assms(2) by blast
  then have "i div n < q" using assms(1,3) by (simp add: less_mult_imp_div_less mult.commute)
  have "n * (i div n) + j < m" if "j < n" for j
  proof -
    have "n * (i div n) + j < n * Suc (i div n)" using that by simp
    also have "\<dots> \<le> m" unfolding q using \<open>i div n < q\<close> by (intro mult_le_mono) simp_all
    finally show ?thesis .
  qed
  then have "lane n a (i div n) = lane n c (i div n)" "lane n b (i div n) = lane n d (i div n)"
    unfolding lane_def using assms(4,5) by (auto intro: le_cong)
  then show ?thesis by (simp add: lanewise_def)
qed

lemmas vops_cases = vops_def vop2_def

lemma vop2_shift: "opc \<in> set vops \<Longrightarrow> p = 0 \<or> p = 32 \<Longrightarrow>
    vop2 opc a b (p + i) = vop2 opc (\<lambda>j. a (p + j)) (\<lambda>j. b (p + j)) i"
  using lanewise_shift [of _ p _ a b i] by (auto simp: vops_cases)

lemma vop2_cut:
  assumes "opc \<in> set vops" "i < 32" "\<And>j. j < 32 \<Longrightarrow> a j = c j" "\<And>j. j < 32 \<Longrightarrow> b j = d j"
  shows "vop2 opc a b i = vop2 opc c d i"
  using assms lanewise_cut [of _ 32 i a c b d] by (auto simp: vops_cases)

lemma unpack_cut:
  assumes "n = 4 \<or> n = 8" "m = 16 \<or> m = 32" "i < m" "\<And>j. j < m \<Longrightarrow> a j = c j" "\<And>j. j < m \<Longrightarrow> b j = d j"
  shows "unpack n hi a b i = unpack n hi c d i"
proof -
  have "16 * (i div 16) + 16 \<le> m" using assms(2,3) by auto
  moreover have "(if hi then 8 else 0) + n * (i mod 16 div (2 * n)) + i mod n < 16"
  proof -
    have "i mod 16 div (2 * 4) \<le> 1" "i mod 16 div (2 * 8) = 0" "i mod 4 < 4" "i mod 8 < 8"
      using mod_less_divisor [of 16 i] by (auto simp: less_mult_imp_div_less intro: div_le_mono [THEN order_trans])
    then show ?thesis using assms(1) by auto
  qed
  ultimately have "16 * (i div 16) + (if hi then 8 else 0) + n * (i mod 16 div (2 * n)) + i mod n < m" by linarith
  then show ?thesis using assms(4,5) by (simp add: unpack_def)
qed

lemma shift_left_q_cut:
  assumes "m = 16 \<or> m = 32" "i < m" "\<And>j. j < m \<Longrightarrow> a j = c j" "\<And>j. j < m \<Longrightarrow> b j = d j"
  shows "shift_left_q a b i = shift_left_q c d i"
proof -
  have "le 8 b = (le 8 d :: 64 word)" using assms(1,4) by (auto intro!: le_cong)
  have "lanewise 8 (\<lambda>x y. if 63 < w then 0 else push_bit (unat w) x) a b i
      = lanewise 8 (\<lambda>x y. if 63 < w then 0 else push_bit (unat w) x) c d i" for w :: "64 word"
    using assms by (intro lanewise_cut [where m = m]) auto
  from this [of "le 8 d"] \<open>le 8 b = (le 8 d :: 64 word)\<close> show ?thesis
    unfolding shift_left_q_def lanewise_def by (simp split: if_splits)
qed

lemma vop2_cut_low:
  assumes "opc \<in> set lops" "m = 16 \<or> m = 32" "i < m" "\<And>j. j < m \<Longrightarrow> a j = c j" "\<And>j. j < m \<Longrightarrow> b j = d j"
  shows "vop2 opc a b i = vop2 opc c d i"
proof -
  have "lanewise n f a b i = lanewise n f c d i" if "n = 1 \<or> n = 2 \<or> n = 4 \<or> n = 8" for n f
    using that assms by (intro lanewise_cut [where m = m]) auto
  moreover have "unpack n hi a b i = unpack n hi c d i" if "n = 4 \<or> n = 8" for n hi
    using that assms(2-5) by (rule unpack_cut)
  moreover have "shift_left_q a b i = shift_left_q c d i" using assms(2-5) by (rule shift_left_q_cut)
  ultimately show ?thesis using assms by (auto simp: lops_def vops_cases merge_low_def)
qed

lemma vop2_clip:
  "opc \<in> set lops \<Longrightarrow> clip (opsz c) (vop2 opc (clip (opsz c) a) (clip (opsz c) b)) = clip (opsz c) (vop2 opc a b)"
  using vop2_cut_low [of opc "opsz c" _ "clip (opsz c) a" a "clip (opsz c) b" b] opsz_cases [of c]
  by (auto simp: clip_def fun_eq_iff)

lemma vop1_cut:
  assumes "m = 16 \<or> m = 32" "i < m" "\<And>j. j < m \<Longrightarrow> a j = b j"
  shows "vop1 opc a i = vop1 opc b i"
proof -
  have "16 * (i div 16) + 16 \<le> m" "8 * (i div 8) + 8 \<le> m" using assms(1,2) by auto
  moreover have "i mod 4 < 4" "i mod 8 < 8" by simp_all
  ultimately have "8 * (i div 8) + i mod 4 < m" "8 * (i div 8) + 4 + i mod 4 < m" "16 * (i div 16) + i mod 8 < m" by linarith+
  then show ?thesis using assms(2,3) by (cases opc) (simp_all add: vop1_def)
qed

lemma vop1_clip: "clip (opsz c) (vop1 opc (clip (opsz c) a)) = clip (opsz c) (vop1 opc a)"
  using vop1_cut [of "opsz c" _ "clip (opsz c) a" a opc] opsz_cases [of c] by (auto simp: clip_def fun_eq_iff)

section \<open>From assignments to the machine\<close>

lemma vreg_vbase: "k < 16 \<Longrightarrow> vreg (vbase c + k) = Some (k, opsz c)"
  by (cases c) (simp_all add: vreg_def)

lemma step_save_simd:
  "k < 16 \<Longrightarrow> step (SAVE_SIMD_TO_SIZED_TLS (vbase c + k) off (opsz c)) s
     = Next (s\<lparr>tls := tls_put (tls s) off (opsz c) (ymm s k)\<rparr>)"
  by (cases c) (simp_all add: step_def step_exec_def create_defs do_vmov_def vop1_def needs_alignment_def vreg_vbase [of k XMM, simplified] vreg_vbase [of k YMM, simplified])

lemma step_restore_simd:
  "k < 16 \<Longrightarrow> step (RESTORE_SIMD_FROM_SIZED_TLS (vbase c + k) off (opsz c)) s
     = Next (s\<lparr>ymm := (ymm s)(k := clip (opsz c) (tls_get (tls s) off))\<rparr>)"
  by (cases c) (simp_all add: step_def step_exec_def create_defs do_vmov_def vop1_def needs_alignment_def vreg_vbase [of k XMM, simplified] vreg_vbase [of k YMM, simplified])

lemma step_vmov:
  assumes "opc \<in> set mops" "d < 16" "a < 16"
  shows "step (Instr opc [OReg (vbase c + d)] [OReg (vbase c + a)]) s
     = Next (s\<lparr>ymm := (ymm s)(d := clip (opsz c) (vop1 opc (ymm s a)))\<rparr>)"
proof -
  have "opsz c \<noteq> 0" using opsz_cases [of c] by auto
  then show ?thesis using assms by (auto simp: step_def step_exec_def do_vmov_def vreg_vbase mops_def)
qed

lemma step_vop2:
  assumes "opc \<in> set lops" "d < 16" "a < 16" "b < 16"
  shows "step (Instr opc [OReg (vbase c + d)] [OReg (vbase c + a), OReg (vbase c + b)]) s
     = Next (s\<lparr>ymm := (ymm s)(d := clip (opsz c) (vop2 opc (ymm s a) (ymm s b)))\<rparr>)"
proof -
  have "opsz c \<noteq> 0" using opsz_cases [of c] by auto
  then show ?thesis using assms by (auto simp: step_def step_exec_def do_vop2_def vreg_vbase lops_def vops_def)
qed

text \<open>What vector code keeps: everything but the registers and the \<open>zmm\<close> slots.\<close>

definition same_rest :: "mstate \<Rightarrow> mstate \<Rightarrow> bool" where
  "same_rest s t \<longleftrightarrow> gpr t = gpr s \<and> flg t = flg s \<and> mem t = mem s \<and> mapped t = mapped s
     \<and> undef_bit t = undef_bit s \<and> (\<forall>a < 128. tls t a = tls s a)"

lemma gcells_tls_put:
  assumes t: "tls t = tls_put (tls s) (zslot z + half h) (opsz c) v" "ymm t = ymm s" and h: "h \<longrightarrow> c = YMM"
  shows "gcells c t = (gcells c s)(Z z h := clip (opsz c) v)"
proof (rule ext)
  fix x
  show "gcells c t x = ((gcells c s)(Z z h := clip (opsz c) v)) x"
  proof (cases x)
    case (Z z' h')
    let ?n = "if h' then 32 else opsz c"
    have n: "opsz c \<le> 32" "?n \<le> 32" using opsz_cases [of c] by auto
    have "z' = z \<and> h' = h \<or> zslot z' + half h' + 32 \<le> zslot z + half h \<or> zslot z + half h + 32 \<le> zslot z' + half h'"
      unfolding zslot_def by (cases h; cases h') auto
    then show ?thesis
    proof
      assume "z' = z \<and> h' = h"
      then show ?thesis using Z t(1) h tls_get_put_same [of _ "opsz c" "tls s" "zslot z + half h" v] by (auto simp: clip_def)
    next
      assume d: "zslot z' + half h' + 32 \<le> zslot z + half h \<or> zslot z + half h + 32 \<le> zslot z' + half h'"
      then have ne: "Z z' h' \<noteq> Z z h" by (cases h; cases h') auto
      have "clip ?n (tls_get (tls t) (zslot z' + half h')) = clip ?n (tls_get (tls s) (zslot z' + half h'))"
      proof (intro ext)
        fix i
        have "zslot z' + half h' + ?n \<le> zslot z + half h \<or> zslot z + half h + opsz c \<le> zslot z' + half h'"
          using d n by linarith
        then show "clip ?n (tls_get (tls t) (zslot z' + half h')) i = clip ?n (tls_get (tls s) (zslot z' + half h')) i"
          using tls_get_put_disj [of i ?n "zslot z' + half h'" "zslot z + half h" "opsz c" "tls s" v] unfolding t(1) clip_def
          by (cases "i < ?n") simp_all
      qed
      then show ?thesis unfolding Z fun_upd_other [OF ne] gcells.simps .
    qed
  qed (simp add: t(2))
qed

lemma step_asn:
  assumes "gvalid c x"
  shows "\<exists>t. step (ginstr c x) s = Next t \<and> gcells c t = grun c x (gcells c s) \<and> same_rest s t"
  using assms
proof (cases "(c, x)" rule: gvalid.cases)
  case (1 c z h k)
  let ?t = "s\<lparr>tls := tls_put (tls s) (zslot z + half h) (opsz c) (ymm s k)\<rparr>"
  have "gcells c ?t = (gcells c s)(Z z h := clip (opsz c) (ymm s k))"
    by (rule gcells_tls_put) (use 1 assms in simp_all)
  then have "gcells c ?t = grun c x (gcells c s)" using 1 by simp
  moreover have "same_rest s ?t" by (simp add: same_rest_def tls_put_def zslot_def)
  moreover have "step (ginstr c x) s = Next ?t" using 1 assms step_save_simd by simp
  ultimately show ?thesis using 1 by blast
next
  case (2 c k z h)
  let ?t = "s\<lparr>ymm := (ymm s)(k := clip (opsz c) (tls_get (tls s) (zslot z + half h)))\<rparr>"
  have "gcells c ?t y = grun c x (gcells c s) y" for y using 2 assms by (cases y) (auto split: if_splits)
  then have "gcells c ?t = grun c x (gcells c s)" by blast
  moreover have "same_rest s ?t" by (simp add: same_rest_def)
  moreover have "step (ginstr c x) s = Next ?t" using 2 assms step_restore_simd by simp
  ultimately show ?thesis using 2 by blast
next
  case (3 c opc d a)
  let ?t = "s\<lparr>ymm := (ymm s)(d := clip (opsz c) (vop1 opc (ymm s a)))\<rparr>"
  have "gcells c ?t y = grun c x (gcells c s) y" for y using 3 assms vop1_clip by (cases y) simp_all
  then have "gcells c ?t = grun c x (gcells c s)" by blast
  moreover have "same_rest s ?t" by (simp add: same_rest_def)
  moreover have "step (ginstr c x) s = Next ?t" using 3 assms step_vmov by simp
  ultimately show ?thesis using 3 by blast
next
  case (4 c opc d a b)
  let ?t = "s\<lparr>ymm := (ymm s)(d := clip (opsz c) (vop2 opc (ymm s a) (ymm s b)))\<rparr>"
  have "gcells c ?t y = grun c x (gcells c s) y" for y using 4 assms vop2_clip by (cases y) simp_all
  then have "gcells c ?t = grun c x (gcells c s)" by blast
  moreover have "same_rest s ?t" by (simp add: same_rest_def)
  moreover have "step (ginstr c x) s = Next ?t" using 4 assms step_vop2 by simp
  ultimately show ?thesis using 4 by blast
qed simp_all

lemma exec_asns:
  "list_all (gvalid c) xs \<Longrightarrow>
     \<exists>t. exec (map (ginstr c) xs) s = Inr t \<and> gcells c t = fold (grun c) xs (gcells c s) \<and> same_rest s t"
proof (induction xs arbitrary: s)
  case (Cons x xs)
  obtain u where u: "step (ginstr c x) s = Next u" "gcells c u = grun c x (gcells c s)" "same_rest s u"
    using step_asn [of c x s] Cons.prems by auto
  obtain t where "exec (map (ginstr c) xs) u = Inr t" "gcells c t = fold (grun c) xs (gcells c u)" "same_rest u t"
    using Cons by fastforce
  then show ?case using u by (intro exI [of _ t]) (simp add: same_rest_def)
qed (simp add: same_rest_def)

section \<open>The application's view\<close>

definition view :: "cstate \<Rightarrow> nat \<Rightarrow> bool \<Rightarrow> vec" where
  "view \<sigma> r h = \<sigma> (if r < 16 \<and> \<not> h then Y r else Z r h)"

lemma mod_half: "i < 64 \<Longrightarrow> 32 \<le> i \<Longrightarrow> i mod 32 = i - (32 :: nat)"
  by (simp add: le_mod_geq)

lemma abs_zmm_view:
  "abs_zmm s r i = (if r < 32 \<and> i < 64 then view (vcells s) r (32 \<le> i) (i mod 32) else 0)"
  by (cases "i < 32") (auto simp: abs_zmm_def view_def clip_def tls_get_def mod_half)

definition set_z :: "nat \<Rightarrow> vec \<Rightarrow> astate \<Rightarrow> astate" where
  "set_z d v a = a\<lparr>azmm := (azmm a)(d := v)\<rparr>"

text \<open>The reference: the operation on all 64 bytes.\<close>

definition spec_zmm :: "opcode \<Rightarrow> nat \<Rightarrow> nat \<Rightarrow> nat \<Rightarrow> astate \<Rightarrow> astate" where
  "spec_zmm opc d a b s = set_z d (clip 64 (vop2 opc (azmm s a) (azmm s b))) s"

lemma view_vop2:
  assumes "opc \<in> set vops" "a < 32" "b < 32" "i < 64"
  shows "clip 32 (vop2 opc (view (vcells s) a (32 \<le> i)) (view (vcells s) b (32 \<le> i))) (i mod 32)
     = clip 64 (vop2 opc (abs_zmm s a) (abs_zmm s b)) i"
proof -
  define p where "p = (if 32 \<le> i then 32 else 0 :: nat)"
  have i: "i = p + i mod 32" using assms(4) mod_half [of i] by (simp add: p_def)
  have v: "abs_zmm s r (p + j) = view (vcells s) r (32 \<le> i) j" if "r < 32" "j < 32" for r j
    using that by (auto simp: abs_zmm_view p_def)
  have "vop2 opc (abs_zmm s a) (abs_zmm s b) i
      = vop2 opc (\<lambda>j. abs_zmm s a (p + j)) (\<lambda>j. abs_zmm s b (p + j)) (i mod 32)"
    using vop2_shift [OF assms(1), of p "abs_zmm s a" "abs_zmm s b" "i mod 32"] i by (simp add: p_def)
  also have "\<dots> = vop2 opc (view (vcells s) a (32 \<le> i)) (view (vcells s) b (32 \<le> i)) (i mod 32)"
    using assms by (intro vop2_cut) (simp_all add: v)
  finally show ?thesis using assms(4) by (simp add: clip_def)
qed

lemma same_rest_abs: "same_rest s t \<Longrightarrow> abs_zmm t = z \<Longrightarrow> abs_state t = (abs_state s)\<lparr>azmm := z\<rparr>"
  by (auto simp: same_rest_def abs_state_def abs_k_def kslot_def tls_get_def fun_eq_iff intro!: le_cong)

lemma abs_spec_zmm:
  assumes "same_rest s t" "opc \<in> set vops" "a < 32" "b < 32" "d < 32"
    and "\<And>r h. r < 32 \<Longrightarrow> view (vcells t) r h
        = (if r = d then clip 32 (vop2 opc (view (vcells s) a h) (view (vcells s) b h)) else view (vcells s) r h)"
  shows "abs_state t = spec_zmm opc d a b (abs_state s)"
proof -
  have "abs_zmm t r i = ((abs_zmm s)(d := clip 64 (vop2 opc (abs_zmm s a) (abs_zmm s b)))) r i" for r i
  proof (cases "r < 32 \<and> i < 64")
    case True
    then show ?thesis
      using assms(6) [of r "32 \<le> i"] view_vop2 [OF assms(2-4), of i s] by (simp add: abs_zmm_view)
  next
    case False
    then show ?thesis using assms(5) by (auto simp: abs_zmm_def clip_def)
  qed
  then have "abs_zmm t = (abs_zmm s)(d := clip 64 (vop2 opc (abs_zmm s a) (abs_zmm s b)))" by blast
  from same_rest_abs [OF assms(1) this] show ?thesis by (simp add: spec_zmm_def set_z_def abs_state_def)
qed

section \<open>Code between saving and restoring scratch registers\<close>

definition saves :: "nat list \<Rightarrow> asn list" where
  "saves es = map (\<lambda>e. Move (Z e False) (Y e)) es"

definition restores :: "nat list \<Rightarrow> asn list" where
  "restores es = map (\<lambda>e. Move (Y e) (Z e False)) es"

definition loads :: "(nat \<times> nat \<times> bool) list \<Rightarrow> asn list" where
  "loads ls = map (\<lambda>(e, z, h). Move (Y e) (Z z h)) ls"

lemma run_saves:
  "fold (grun v) (saves es) \<sigma> (Y k) = \<sigma> (Y k)"
  "fold (grun v) (saves es) \<sigma> (Z z h) = (if z \<in> set es \<and> \<not> h then \<sigma> (Y z) else \<sigma> (Z z h))"
  by (induction es arbitrary: \<sigma>) (auto simp: saves_def)

lemma run_restores:
  "fold (grun v) (restores es) \<sigma> (Y k) = (if k \<in> set es then \<sigma> (Z k False) else \<sigma> (Y k))"
  "fold (grun v) (restores es) \<sigma> (Z z h) = \<sigma> (Z z h)"
  by (induction es arbitrary: \<sigma>) (auto simp: restores_def)

lemma run_loads_Z: "fold (grun v) (loads ls) \<sigma> (Z z h) = \<sigma> (Z z h)"
  by (induction ls arbitrary: \<sigma>) (auto simp: loads_def)

lemma run_loads_Y:
  "distinct (map fst ls) \<Longrightarrow> fold (grun v) (loads ls) \<sigma> (Y k)
     = (case map_of ls k of None \<Rightarrow> \<sigma> (Y k) | Some (z, h) \<Rightarrow> \<sigma> (Z z h))"
proof (induction ls arbitrary: \<sigma>)
  case (Cons l ls)
  obtain e z' h' where l: "l = (e, z', h')" by (cases l) auto
  let ?\<tau> = "\<sigma>(Y e := \<sigma> (Z z' h'))"
  have "fold (grun v) (loads (l # ls)) \<sigma> = fold (grun v) (loads ls) ?\<tau>" using l by (simp add: loads_def)
  moreover have "fold (grun v) (loads ls) ?\<tau> (Y k)
      = (case map_of ls k of None \<Rightarrow> ?\<tau> (Y k) | Some (z, h) \<Rightarrow> ?\<tau> (Z z h))"
    using Cons.prems by (intro Cons.IH) simp
  moreover have "map_of ls e = None" using Cons.prems l by (auto simp: map_of_eq_None_iff)
  ultimately show ?case using l by (cases "k = e") (simp_all split: option.splits)
qed (simp add: loads_def)

lemmas run_parts = run_saves run_restores run_loads_Z run_loads_Y

text \<open>
  The code of an operation on 64-byte registers: save scratch registers, load what is not in
  a register, operate on the lower and on the upper half, store the result, restore the
  scratch registers. \<open>lower_in\<close> says that a register holds the lower half of an operand after
  the loads.
\<close>

definition zmm_code :: "opcode \<Rightarrow> nat list \<Rightarrow> (nat \<times> nat \<times> bool) list \<Rightarrow> nat \<Rightarrow> nat \<times> nat \<Rightarrow> nat \<times> nat \<Rightarrow> nat \<times> nat \<Rightarrow> asn list" where
  "zmm_code opc es ls d du au bu = saves es @ loads ls
     @ [Bin opc (Y (fst du)) (Y (fst au)) (Y (fst bu)), Bin opc (Y (snd du)) (Y (snd au)) (Y (snd bu)),
        Move (Z d False) (Y (fst du)), Move (Z d True) (Y (snd du))] @ restores es"

definition lower_in :: "nat list \<Rightarrow> (nat \<times> nat \<times> bool) list \<Rightarrow> nat \<Rightarrow> nat \<Rightarrow> bool" where
  "lower_in es ls a k \<longleftrightarrow> (if a < 16 then k = a \<and> a \<notin> set es else map_of ls k = Some (a, False))"

lemma zmm_code_run:
  assumes es: "distinct es" "set es \<subseteq> {..<16}" and ls: "distinct (map fst ls)" "fst ` set ls \<subseteq> set es"
    and a: "lower_in es ls a al" "map_of ls au = Some (a, True)"
    and b: "lower_in es ls b bl" "map_of ls bu = Some (b, True)"
    and d: "if d < 16 then dl = d \<and> d \<notin> set es else dl \<in> set es" "du \<in> set es" "dl \<noteq> du" "dl \<noteq> au" "dl \<noteq> bu"
  shows "view (fold run_asn (zmm_code opc es ls d (dl, du) (al, au) (bl, bu)) \<sigma>) r h
     = (if r = d then clip 32 (vop2 opc (view \<sigma> a h) (view \<sigma> b h)) else view \<sigma> r h)"
proof -
  define \<tau> where "\<tau> = fold run_asn (loads ls) (fold run_asn (saves es) \<sigma>)"
  have none: "map_of ls k = None" if "k \<notin> set es" for k using that ls(2) by (auto simp: map_of_eq_None_iff)
  have Z: "\<tau> (Z z g) = (if z \<in> set es \<and> \<not> g then \<sigma> (Y z) else \<sigma> (Z z g))" for z g
    by (simp add: \<tau>_def run_parts)
  have lo: "\<tau> (Y k) = view \<sigma> c False" if "lower_in es ls c k" for c k
    using that es(2) ls(1) none [of c] by (auto simp: \<tau>_def run_parts lower_in_def view_def split: if_splits)
  have up: "\<tau> (Y k) = view \<sigma> c True" if "map_of ls k = Some (c, True)" for c k
    using that ls(1) by (simp add: \<tau>_def run_parts view_def)
  have keep: "\<tau> (Y k) = \<sigma> (Y k)" if "k \<notin> set es" for k
    using that ls(1) none [of k] by (simp add: \<tau>_def run_parts)
  let ?v = "clip 32 (vop2 opc (view \<sigma> a False) (view \<sigma> b False))"
  let ?w = "clip 32 (vop2 opc (view \<sigma> a True) (view \<sigma> b True))"
  define \<rho> where "\<rho> = \<tau>(Y dl := ?v, Y du := ?w, Z d False := ?v, Z d True := ?w)"
  have "fold run_asn [Bin opc (Y dl) (Y al) (Y bl), Bin opc (Y du) (Y au) (Y bu), Move (Z d False) (Y dl), Move (Z d True) (Y du)] \<tau> = \<rho>"
    using d(3-5) lo [OF a(1)] lo [OF b(1)] up [OF a(2)] up [OF b(2)] by (simp add: \<rho>_def)
  then have run: "fold run_asn (zmm_code opc es ls d (dl, du) (al, au) (bl, bu)) \<sigma> = fold run_asn (restores es) \<rho>"
    unfolding zmm_code_def fold_append comp_apply fst_conv snd_conv \<tau>_def [symmetric] by simp
  have ne: "du \<noteq> r \<and> (r \<noteq> d \<longrightarrow> dl \<noteq> r)" if "r \<notin> set es" using that d(1,2) by (auto split: if_splits)
  have reg: "r < 16" if "r \<in> set es" using that es(2) by auto
  show ?thesis
  proof (cases "r < 16 \<and> \<not> h")
    case True
    then have "view (fold run_asn (restores es) \<rho>) r h = (if r \<in> set es then \<rho> (Z r False) else \<rho> (Y r))"
      by (simp add: view_def run_restores)
    then show ?thesis using True d(1) keep [of r] Z [of r False] ne unfolding run \<rho>_def
      by (cases "r = d"; cases "r \<in> set es") (simp_all add: view_def)
  next
    case False
    then have "view (fold run_asn (restores es) \<rho>) r h = \<rho> (Z r h)" by (auto simp: view_def run_restores)
    then show ?thesis using False Z [of r h] reg unfolding run \<rho>_def
      by (cases "r = d"; cases h) (auto simp: view_def)
  qed
qed

lemma lower_in_reg: "lower_in es ls a k \<Longrightarrow> set es \<subseteq> {..<16} \<Longrightarrow> fst ` set ls \<subseteq> set es \<Longrightarrow> k < 16"
  by (force simp: lower_in_def split: if_splits dest: map_of_SomeD)

lemma zmm_code_exec:
  assumes opc: "opc \<in> set vops" and z: "a < 32" "b < 32" "d < 32"
    and es: "distinct es" "set es \<subseteq> {..<16}" and ls: "distinct (map fst ls)" "fst ` set ls \<subseteq> set es"
    and a: "lower_in es ls a al" "map_of ls au = Some (a, True)"
    and b: "lower_in es ls b bl" "map_of ls bu = Some (b, True)"
    and d: "if d < 16 then dl = d \<and> d \<notin> set es else dl \<in> set es" "du \<in> set es" "dl \<noteq> du" "dl \<noteq> au" "dl \<noteq> bu"
    and code: "code = map asn_instr xs" "set xs = set (zmm_code opc es ls d (dl, du) (al, au) (bl, bu))"
      "\<And>\<sigma>. fold run_asn xs \<sigma> = fold run_asn (zmm_code opc es ls d (dl, du) (al, au) (bl, bu)) \<sigma>"
  shows "\<exists>t. exec code s = Inr t \<and> abs_state t = spec_zmm opc d a b (abs_state s)"
proof -
  have "\<forall>k \<in> fst ` set ls. k < 16" using es(2) ls(2) by blast
  moreover have "au < 16" "bu < 16" using calculation a(2) b(2) by (force dest: map_of_SomeD)+
  moreover have "dl < 16" "du < 16" using d(1,2) es(2) by (auto split: if_splits)
  moreover have "al < 16" "bl < 16" using lower_in_reg [OF _ es(2) ls(2)] a(1) b(1) by blast+
  ultimately have "list_all valid_asn (zmm_code opc es ls d (dl, du) (al, au) (bl, bu))"
    using vops_lops [OF opc] es(2) by (auto simp: zmm_code_def saves_def restores_def loads_def list_all_iff)
  then have "list_all valid_asn xs" using code(2) by (simp add: list_all_iff)
  then obtain t where t: "exec code s = Inr t" "same_rest s t"
      "vcells t = fold run_asn (zmm_code opc es ls d (dl, du) (al, au) (bl, bu)) (vcells s)"
    using exec_asns [of YMM xs s] code(1,3) by metis
  have "abs_state t = spec_zmm opc d a b (abs_state s)"
    using zmm_code_run [OF es ls a b d, of opc "vcells s"] t(3) by (intro abs_spec_zmm [OF t(2) opc z]) simp
  then show ?thesis using t(1) by blast
qed

section \<open>Registers and slots of emitted code\<close>

lemma zslot_ymm: "k < 32 \<Longrightarrow> TLS_ZMM_idx_SLOT (TO_YMM_REG_INDEX (DR_REG_YMM0 + k)) = zslot k"
  by (simp add: TLS_ZMM_idx_SLOT_def TO_YMM_REG_INDEX_def offsets to_ushort_small zslot_def)

lemma zslot_zmm: "k < 32 \<Longrightarrow> TLS_ZMM_idx_SLOT (TO_ZMM_REG_INDEX (DR_REG_ZMM0 + k)) = zslot k"
  by (simp add: TLS_ZMM_idx_SLOT_def TO_ZMM_REG_INDEX_def offsets to_ushort_small zslot_def)

lemma ZMM_TO_YMM_reg: "k < 32 \<Longrightarrow> ZMM_TO_YMM (DR_REG_ZMM0 + k) = DR_REG_YMM0 + k"
  by (simp add: ZMM_TO_YMM_def to_ushort_small)

text \<open>A spill register for a list of registers to avoid of which at most five are spill registers.\<close>

lemma pick_spill:
  assumes "set as \<inter> {DR_REG_YMM10..DR_REG_YMM15} \<subseteq> set bs" "length bs \<le> 5"
  obtains e where "find_available_spill_ymm_avoiding_variadic as = DR_REG_YMM0 + e" "10 \<le> e" "e \<le> 15"
    "DR_REG_YMM0 + e \<notin> set as"
proof -
  let ?r = "find_available_spill_ymm_avoiding_variadic as"
  have "\<not> {DR_REG_YMM10..DR_REG_YMM15} \<subseteq> set as"
  proof
    assume "{DR_REG_YMM10..DR_REG_YMM15} \<subseteq> set as"
    then have "card {DR_REG_YMM10..DR_REG_YMM15} \<le> card (set bs)" using assms(1) by (intro card_mono) auto
    also have "\<dots> \<le> 5" using card_length [of bs] assms(2) by linarith
    finally show False by simp
  qed
  then have "?r \<in> {DR_REG_YMM10..DR_REG_YMM15} - set as"
    using ymm_slots.variadic [of as] unfolding find_available_spill_ymm_avoiding_variadic_def by blast
  then show thesis by (intro that [of "?r - DR_REG_YMM0"]) auto
qed

text \<open>Spill registers chosen one after the other, each also avoiding those chosen before.\<close>

fun spills :: "reg_id list \<Rightarrow> nat list \<Rightarrow> bool" where
  "spills as [] \<longleftrightarrow> True"
| "spills as (e # es) \<longleftrightarrow>
     find_available_spill_ymm_avoiding_variadic as = DR_REG_YMM0 + e \<and> spills (as @ [DR_REG_YMM0 + e]) es"

lemma spills_exist:
  "set as \<inter> {DR_REG_YMM10..DR_REG_YMM15} \<subseteq> set bs \<Longrightarrow> length bs + n \<le> 6 \<Longrightarrow>
     \<exists>es. spills as es \<and> length es = n \<and> distinct es \<and> set es \<subseteq> {10..15}
       \<and> (\<forall>e \<in> set es. DR_REG_YMM0 + e \<notin> set as)"
proof (induction n arbitrary: as bs)
  case (Suc n)
  obtain e where e: "find_available_spill_ymm_avoiding_variadic as = DR_REG_YMM0 + e" "10 \<le> e" "e \<le> 15"
      "DR_REG_YMM0 + e \<notin> set as"
    by (rule pick_spill [of as bs]) (use Suc.prems in auto)
  obtain es where es: "spills (as @ [DR_REG_YMM0 + e]) es" "length es = n"
      "distinct es" "set es \<subseteq> {10..15}" "\<forall>k \<in> set es. DR_REG_YMM0 + k \<notin> set (as @ [DR_REG_YMM0 + e])"
    using Suc.IH [of "as @ [DR_REG_YMM0 + e]" "bs @ [DR_REG_YMM0 + e]"] Suc.prems by fastforce
  then have "e \<notin> set es" by auto
  then show ?case using e es by (intro exI [of _ "e # es"]) auto
qed simp

lemma spills_avoiding:
  assumes "length (filter (\<lambda>r. r < 16) rs) + n \<le> 6"
  obtains es where "spills (map (\<lambda>r. DR_REG_YMM0 + r) rs) es" "length es = n" "distinct es" "set es \<subseteq> {10..15}"
    "set rs \<inter> set es = {}"
proof -
  have "set (map (\<lambda>r. DR_REG_YMM0 + r) rs) \<inter> {DR_REG_YMM10..DR_REG_YMM15}
      \<subseteq> set (map (\<lambda>r. DR_REG_YMM0 + r) (filter (\<lambda>r. r < 16) rs))" by auto
  from spills_exist [OF this, of n] show thesis using assms that by fastforce
qed

text \<open>
  A plan places the operands by position in the list of spill registers: \<open>ils\<close> are the loads by
  position, \<open>place\<close> the register that holds a lower half (the operand's own register when it is
  below 16, a spill register otherwise).
\<close>

fun place :: "nat list \<Rightarrow> nat \<Rightarrow> nat option \<Rightarrow> nat" where
  "place es r None = r"
| "place es r (Some i) = es ! i"

fun placed :: "(nat \<times> nat \<times> bool) list \<Rightarrow> nat \<Rightarrow> nat option \<Rightarrow> bool" where
  "placed ils r None \<longleftrightarrow> r < 16"
| "placed ils r (Some i) \<longleftrightarrow> 16 \<le> r \<and> map_of ils i = Some (r, False)"

definition at_pos :: "nat list \<Rightarrow> (nat \<times> nat \<times> bool) list \<Rightarrow> (nat \<times> nat \<times> bool) list" where
  "at_pos es ils = map (\<lambda>(i, z, h). (es ! i, z, h)) ils"

lemma fst_at: "map fst (at_pos es ils) = map ((!) es) (map fst ils)" by (auto simp: at_pos_def)

lemma distinct_at:
  assumes "distinct es" "distinct (map fst ils)" "fst ` set ils \<subseteq> {..<length es}"
  shows "distinct (map fst (at_pos es ils))"
  unfolding fst_at using assms by (subst distinct_map) (auto intro: inj_on_nth)

lemma map_of_at:
  assumes "distinct es" "fst ` set ils \<subseteq> {..<length es}" "i < length es"
  shows "map_of (at_pos es ils) (es ! i) = map_of ils i"
  using assms(2) by (induction ils) (auto simp: at_pos_def nth_eq_iff_index_eq [OF assms(1)] assms(3))

lemma lower_in_place:
  assumes "placed ils r p" "r \<notin> set es" "distinct es" "fst ` set ils \<subseteq> {..<length es}"
  shows "lower_in es (at_pos es ils) r (place es r p)"
proof (cases p)
  case (Some i)
  then have "map_of ils i = Some (r, False)" "\<not> r < 16" using assms(1) by auto
  moreover have "i < length es" using calculation(1) assms(4) by (force dest: map_of_SomeD)
  ultimately show ?thesis using Some map_of_at [OF assms(3,4)] by (simp add: lower_in_def)
qed (use assms in \<open>auto simp: lower_in_def\<close>)

lemma zmm_plan_any:
  assumes opc: "opc \<in> set vops" and z: "a < 32" "b < 32" "d < 32"
    and n: "length (filter (\<lambda>r. r < 16) rs) + n \<le> 6" "set rs = {a, b, d}"
    and ils: "distinct (map fst ils)" "fst ` set ils \<subseteq> {..<n}"
    and a: "placed ils a pa" "map_of ils au = Some (a, True)"
    and b: "placed ils b pb" "map_of ils bu = Some (b, True)"
    and d: "case pd of None \<Rightarrow> d < 16 | Some i \<Rightarrow> 16 \<le> d \<and> i < n \<and> i \<noteq> du \<and> i \<noteq> au \<and> i \<noteq> bu" "du < n"
    and code: "\<And>es. spills (map (\<lambda>r. DR_REG_YMM0 + r) rs) es \<Longrightarrow> length es = n \<Longrightarrow> set es \<subseteq> {..<32} \<Longrightarrow>
      set rs \<inter> set es = {} \<Longrightarrow>
      \<exists>xs. code = map asn_instr xs
        \<and> set xs = set (zmm_code opc es (at_pos es ils) d (place es d pd, es ! du) (place es a pa, es ! au) (place es b pb, es ! bu))
        \<and> (\<forall>\<sigma>. fold run_asn xs \<sigma> = fold run_asn (zmm_code opc es (at_pos es ils) d (place es d pd, es ! du)
              (place es a pa, es ! au) (place es b pb, es ! bu)) \<sigma>)"
  shows "\<exists>t. exec code s = Inr t \<and> abs_state t = spec_zmm opc d a b (abs_state s)"
proof -
  obtain es where es: "spills (map (\<lambda>r. DR_REG_YMM0 + r) rs) es" "length es = n" "distinct es" "set es \<subseteq> {10..15}"
      "set rs \<inter> set es = {}" by (rule spills_avoiding [OF n(1)])
  have out: "a \<notin> set es" "b \<notin> set es" "d \<notin> set es" using es(5) n(2) by auto
  have lt: "fst ` set ils \<subseteq> {..<length es}" using ils(2) es(2) by simp
  have u: "au < n" "bu < n" using a(2) b(2) ils(2) by (force dest: map_of_SomeD)+
  have mem: "es ! i \<in> set es" if "i < n" for i using that es(2) by simp
  have "fst ` set (at_pos es ils) \<subseteq> set es" using lt by (auto simp: at_pos_def)
  moreover have "if d < 16 then place es d pd = d \<and> d \<notin> set es else place es d pd \<in> set es"
      "place es d pd \<noteq> es ! du" "place es d pd \<noteq> es ! au" "place es d pd \<noteq> es ! bu"
    using d u mem out(3) es(2) nth_eq_iff_index_eq [OF es(3)] by (auto split: option.splits)
  moreover have "set es \<subseteq> {..<16}" "set es \<subseteq> {..<32}" using es(4) by auto
  moreover obtain xs where "code = map asn_instr xs"
      "set xs = set (zmm_code opc es (at_pos es ils) d (place es d pd, es ! du) (place es a pa, es ! au) (place es b pb, es ! bu))"
      "\<And>\<sigma>. fold run_asn xs \<sigma> = fold run_asn (zmm_code opc es (at_pos es ils) d (place es d pd, es ! du)
              (place es a pa, es ! au) (place es b pb, es ! bu)) \<sigma>"
    using code [OF es(1,2) _ es(5)] calculation(7) by blast
  ultimately show ?thesis
    using map_of_at [OF es(3) lt] u es(2) a(2) b(2) mem [OF d(2)]
    by (intro zmm_code_exec [where au = "es ! au" and bu = "es ! bu" and du = "es ! du" and xs = xs, OF opc z es(3) _ distinct_at [OF es(3) ils(1) lt] _
          lower_in_place [OF a(1) out(1) es(3) lt] _ lower_in_place [OF b(1) out(2) es(3) lt]]) simp_all
qed

lemma zmm_plan:
  assumes "opc \<in> set vops" "a < 32" "b < 32" "d < 32"
    and "length (filter (\<lambda>r. r < 16) rs) + n \<le> 6" "set rs = {a, b, d}"
    and "distinct (map fst ils)" "fst ` set ils \<subseteq> {..<n}"
    and "placed ils a pa" "map_of ils au = Some (a, True)"
    and "placed ils b pb" "map_of ils bu = Some (b, True)"
    and "case pd of None \<Rightarrow> d < 16 | Some i \<Rightarrow> 16 \<le> d \<and> i < n \<and> i \<noteq> du \<and> i \<noteq> au \<and> i \<noteq> bu" "du < n"
    and code: "\<And>es. spills (map (\<lambda>r. DR_REG_YMM0 + r) rs) es \<Longrightarrow> length es = n \<Longrightarrow> set es \<subseteq> {..<32} \<Longrightarrow>
      code = map asn_instr (zmm_code opc es (at_pos es ils) d (place es d pd, es ! du) (place es a pa, es ! au) (place es b pb, es ! bu))"
  shows "\<exists>t. exec code s = Inr t \<and> abs_state t = spec_zmm opc d a b (abs_state s)"
  by (rule zmm_plan_any [OF assms(1-14)]) (use code in blast)

text \<open>An operation on registers that the loads do not touch can precede the loads.\<close>

lemma loads_after_bin:
  "d \<notin> fst ` set ls \<Longrightarrow> a \<notin> fst ` set ls \<Longrightarrow> b \<notin> fst ` set ls \<Longrightarrow>
     fold run_asn (loads ls) (run_asn (Bin opc (Y d) (Y a) (Y b)) \<sigma>)
     = run_asn (Bin opc (Y d) (Y a) (Y b)) (fold run_asn (loads ls) \<sigma>)"
proof (induction ls arbitrary: \<sigma>)
  case (Cons l ls)
  obtain e z h where l: "l = (e, z, h)" by (cases l) auto
  then have "e \<noteq> d" "e \<noteq> a" "e \<noteq> b" using Cons.prems by auto
  then have "run_asn (Move (Y e) (Z z h)) (run_asn (Bin opc (Y d) (Y a) (Y b)) \<sigma>)
      = run_asn (Bin opc (Y d) (Y a) (Y b)) (run_asn (Move (Y e) (Z z h)) \<sigma>)"
    by (simp add: fun_upd_twist)
  then show ?case using Cons l by (simp add: loads_def del: grun.simps)
qed (simp add: loads_def)

lemma length_2_to_6:
  "length xs = 2 \<Longrightarrow> \<exists>a b. xs = [a, b]"
  "length xs = 3 \<Longrightarrow> \<exists>a b c. xs = [a, b, c]"
  "length xs = 4 \<Longrightarrow> \<exists>a b c d. xs = [a, b, c, d]"
  "length xs = 5 \<Longrightarrow> \<exists>a b c d e. xs = [a, b, c, d, e]"
  "length xs = 6 \<Longrightarrow> \<exists>a b c d e f. xs = [a, b, c, d, e, f]"
  by (auto simp: numeral_eq_Suc length_Suc_conv)

lemma nth_steps:
  "(x # xs) ! 0 = x" "(x # xs) ! 1 = xs ! 0" "(x # xs) ! 2 = xs ! 1" "(x # xs) ! 3 = xs ! 2" "(x # xs) ! 4 = xs ! 3"
  "(x # xs) ! 5 = xs ! 4"
  by simp_all

end
