(* ===== verification/Vec_Zmm.thy ===== *)
theory Vec_Zmm
  imports Vec_Rules
begin

text \<open>
  The rewriting of operations on three \<open>zmm\<close> registers (\<open>core/arch/rewrite.c\<close>):
  \<open>vpaddd_zmm_and_zmm_gen\<close> and \<open>vpsubq_zmm_and_zmm_gen\<close>, which emit the same code for
  different operations. Which of the three registers are above \<open>zmm15\<close> selects one of eight
  cases; each becomes a definition.
\<close>

abbreviation SIZE_OF_YMM :: nat where "SIZE_OF_YMM \<equiv> 0x20"

section \<open>The eight cases\<close>

definition zmm_case_0 :: "opcode \<Rightarrow> reg_id \<Rightarrow> reg_id \<Rightarrow> reg_id \<Rightarrow> instr list" where
  "zmm_case_0 opc src1 src2 dst =
     (if src1 = dst
      then let src1_reg_lower = ZMM_TO_YMM src1;
            src2_reg_lower = ZMM_TO_YMM src2;
            dst_reg_lower = src1_reg_lower;
            src1_reg_upper = find_available_spill_ymm_avoiding_variadic [src1_reg_lower, src2_reg_lower];
            src2_reg_upper = find_available_spill_ymm_avoiding_variadic [src1_reg_lower, src2_reg_lower, src1_reg_upper];
            dst_reg_upper = src1_reg_upper
        in [SAVE_SIMD_TO_SIZED_TLS src1_reg_upper (TLS_ZMM_idx_SLOT (TO_YMM_REG_INDEX src1_reg_upper)) 32,
            SAVE_SIMD_TO_SIZED_TLS src2_reg_upper (TLS_ZMM_idx_SLOT (TO_YMM_REG_INDEX src2_reg_upper)) 32,
            RESTORE_SIMD_FROM_SIZED_TLS src1_reg_upper (TLS_ZMM_idx_SLOT (TO_ZMM_REG_INDEX src1) + SIZE_OF_YMM) 32,
            RESTORE_SIMD_FROM_SIZED_TLS src2_reg_upper (TLS_ZMM_idx_SLOT (TO_ZMM_REG_INDEX src2) + SIZE_OF_YMM) 32,
            Instr opc [OReg dst_reg_lower] [OReg src1_reg_lower, OReg src2_reg_lower],
            Instr opc [OReg dst_reg_upper] [OReg src1_reg_upper, OReg src2_reg_upper],
            SAVE_SIMD_TO_SIZED_TLS dst_reg_lower (TLS_ZMM_idx_SLOT (TO_ZMM_REG_INDEX dst)) 32,
            SAVE_SIMD_TO_SIZED_TLS dst_reg_upper (TLS_ZMM_idx_SLOT (TO_ZMM_REG_INDEX dst) + SIZE_OF_YMM) 32,
            RESTORE_SIMD_FROM_SIZED_TLS src1_reg_upper (TLS_ZMM_idx_SLOT (TO_YMM_REG_INDEX src1_reg_upper)) 32,
            RESTORE_SIMD_FROM_SIZED_TLS src2_reg_upper (TLS_ZMM_idx_SLOT (TO_YMM_REG_INDEX src2_reg_upper)) 32]
      else let src1_reg_lower = ZMM_TO_YMM src1;
            src2_reg_lower = ZMM_TO_YMM src2;
            dst_reg_lower = ZMM_TO_YMM dst;
            src1_reg_upper = find_available_spill_ymm_avoiding_variadic [src1_reg_lower, src2_reg_lower, dst_reg_lower];
            src2_reg_upper = find_available_spill_ymm_avoiding_variadic [src1_reg_lower, src2_reg_lower, dst_reg_lower, src1_reg_upper];
            dst_reg_upper = find_available_spill_ymm_avoiding_variadic [src1_reg_lower, src2_reg_lower, dst_reg_lower, src1_reg_upper, src2_reg_upper]
        in [SAVE_SIMD_TO_SIZED_TLS src1_reg_upper (TLS_ZMM_idx_SLOT (TO_YMM_REG_INDEX src1_reg_upper)) 32,
            SAVE_SIMD_TO_SIZED_TLS src2_reg_upper (TLS_ZMM_idx_SLOT (TO_YMM_REG_INDEX src2_reg_upper)) 32,
            SAVE_SIMD_TO_SIZED_TLS dst_reg_upper (TLS_ZMM_idx_SLOT (TO_YMM_REG_INDEX dst_reg_upper)) 32,
            RESTORE_SIMD_FROM_SIZED_TLS src1_reg_upper (TLS_ZMM_idx_SLOT (TO_ZMM_REG_INDEX src1) + SIZE_OF_YMM) 32,
            RESTORE_SIMD_FROM_SIZED_TLS src2_reg_upper (TLS_ZMM_idx_SLOT (TO_ZMM_REG_INDEX src2) + SIZE_OF_YMM) 32,
            Instr opc [OReg dst_reg_lower] [OReg src1_reg_lower, OReg src2_reg_lower],
            Instr opc [OReg dst_reg_upper] [OReg src1_reg_upper, OReg src2_reg_upper],
            SAVE_SIMD_TO_SIZED_TLS dst_reg_lower (TLS_ZMM_idx_SLOT (TO_ZMM_REG_INDEX dst)) 32,
            SAVE_SIMD_TO_SIZED_TLS dst_reg_upper (TLS_ZMM_idx_SLOT (TO_ZMM_REG_INDEX dst) + SIZE_OF_YMM) 32,
            RESTORE_SIMD_FROM_SIZED_TLS src1_reg_upper (TLS_ZMM_idx_SLOT (TO_YMM_REG_INDEX src1_reg_upper)) 32,
            RESTORE_SIMD_FROM_SIZED_TLS src2_reg_upper (TLS_ZMM_idx_SLOT (TO_YMM_REG_INDEX src2_reg_upper)) 32,
            RESTORE_SIMD_FROM_SIZED_TLS dst_reg_upper (TLS_ZMM_idx_SLOT (TO_YMM_REG_INDEX dst_reg_upper)) 32])"

definition zmm_case_1 :: "opcode \<Rightarrow> reg_id \<Rightarrow> reg_id \<Rightarrow> reg_id \<Rightarrow> instr list" where
  "zmm_case_1 opc src1 src2 dst =
     (let src1_reg_lower = ZMM_TO_YMM src1;
          src2_reg_lower = ZMM_TO_YMM src2;
          dst_reg_lower = ZMM_TO_YMM dst;
          spill_src1_lower = find_available_spill_ymm_avoiding_variadic [src1_reg_lower, src2_reg_lower, dst_reg_lower];
          src1_reg_upper = find_available_spill_ymm_avoiding_variadic [src1_reg_lower, src2_reg_lower, dst_reg_lower, spill_src1_lower];
          src2_reg_upper = find_available_spill_ymm_avoiding_variadic [src1_reg_lower, src2_reg_lower, dst_reg_lower, spill_src1_lower, src1_reg_upper];
          dst_reg_upper = find_available_spill_ymm_avoiding_variadic [src1_reg_lower, src2_reg_lower, dst_reg_lower, spill_src1_lower, src1_reg_upper, src2_reg_upper]
      in [SAVE_SIMD_TO_SIZED_TLS spill_src1_lower (TLS_ZMM_idx_SLOT (TO_YMM_REG_INDEX spill_src1_lower)) 32,
          SAVE_SIMD_TO_SIZED_TLS src1_reg_upper (TLS_ZMM_idx_SLOT (TO_YMM_REG_INDEX src1_reg_upper)) 32,
          SAVE_SIMD_TO_SIZED_TLS src2_reg_upper (TLS_ZMM_idx_SLOT (TO_YMM_REG_INDEX src2_reg_upper)) 32,
          SAVE_SIMD_TO_SIZED_TLS dst_reg_upper (TLS_ZMM_idx_SLOT (TO_YMM_REG_INDEX dst_reg_upper)) 32,
          RESTORE_SIMD_FROM_SIZED_TLS spill_src1_lower (TLS_ZMM_idx_SLOT (TO_ZMM_REG_INDEX src1)) 32,
          RESTORE_SIMD_FROM_SIZED_TLS src1_reg_upper (TLS_ZMM_idx_SLOT (TO_ZMM_REG_INDEX src1) + SIZE_OF_YMM) 32,
          RESTORE_SIMD_FROM_SIZED_TLS src2_reg_upper (TLS_ZMM_idx_SLOT (TO_ZMM_REG_INDEX src2) + SIZE_OF_YMM) 32,
          Instr opc [OReg dst_reg_lower] [OReg spill_src1_lower, OReg src2_reg_lower],
          Instr opc [OReg dst_reg_upper] [OReg src1_reg_upper, OReg src2_reg_upper],
          SAVE_SIMD_TO_SIZED_TLS dst_reg_lower (TLS_ZMM_idx_SLOT (TO_ZMM_REG_INDEX dst)) 32,
          SAVE_SIMD_TO_SIZED_TLS dst_reg_upper (TLS_ZMM_idx_SLOT (TO_ZMM_REG_INDEX dst) + SIZE_OF_YMM) 32,
          RESTORE_SIMD_FROM_SIZED_TLS spill_src1_lower (TLS_ZMM_idx_SLOT (TO_YMM_REG_INDEX spill_src1_lower)) 32,
          RESTORE_SIMD_FROM_SIZED_TLS src1_reg_upper (TLS_ZMM_idx_SLOT (TO_YMM_REG_INDEX src1_reg_upper)) 32,
          RESTORE_SIMD_FROM_SIZED_TLS src2_reg_upper (TLS_ZMM_idx_SLOT (TO_YMM_REG_INDEX src2_reg_upper)) 32,
          RESTORE_SIMD_FROM_SIZED_TLS dst_reg_upper (TLS_ZMM_idx_SLOT (TO_YMM_REG_INDEX dst_reg_upper)) 32])"

definition zmm_case_2 :: "opcode \<Rightarrow> reg_id \<Rightarrow> reg_id \<Rightarrow> reg_id \<Rightarrow> instr list" where
  "zmm_case_2 opc src1 src2 dst =
     (let src1_reg_lower = ZMM_TO_YMM src1;
          src2_reg_lower = ZMM_TO_YMM src2;
          dst_reg_lower = ZMM_TO_YMM dst;
          spill_src2_lower = find_available_spill_ymm_avoiding_variadic [src1_reg_lower, src2_reg_lower, dst_reg_lower];
          src1_reg_upper = find_available_spill_ymm_avoiding_variadic [src1_reg_lower, src2_reg_lower, dst_reg_lower, spill_src2_lower];
          src2_reg_upper = find_available_spill_ymm_avoiding_variadic [src1_reg_lower, src2_reg_lower, dst_reg_lower, spill_src2_lower, src1_reg_upper];
          dst_reg_upper = find_available_spill_ymm_avoiding_variadic [src1_reg_lower, src2_reg_lower, dst_reg_lower, spill_src2_lower, src1_reg_upper, src2_reg_upper]
      in [SAVE_SIMD_TO_SIZED_TLS spill_src2_lower (TLS_ZMM_idx_SLOT (TO_YMM_REG_INDEX spill_src2_lower)) 32,
          SAVE_SIMD_TO_SIZED_TLS src1_reg_upper (TLS_ZMM_idx_SLOT (TO_YMM_REG_INDEX src1_reg_upper)) 32,
          SAVE_SIMD_TO_SIZED_TLS src2_reg_upper (TLS_ZMM_idx_SLOT (TO_YMM_REG_INDEX src2_reg_upper)) 32,
          SAVE_SIMD_TO_SIZED_TLS dst_reg_upper (TLS_ZMM_idx_SLOT (TO_YMM_REG_INDEX dst_reg_upper)) 32,
          RESTORE_SIMD_FROM_SIZED_TLS src1_reg_upper (TLS_ZMM_idx_SLOT (TO_ZMM_REG_INDEX src1) + SIZE_OF_YMM) 32,
          RESTORE_SIMD_FROM_SIZED_TLS spill_src2_lower (TLS_ZMM_idx_SLOT (TO_ZMM_REG_INDEX src2)) 32,
          RESTORE_SIMD_FROM_SIZED_TLS src2_reg_upper (TLS_ZMM_idx_SLOT (TO_ZMM_REG_INDEX src2) + SIZE_OF_YMM) 32,
          Instr opc [OReg dst_reg_lower] [OReg src1_reg_lower, OReg spill_src2_lower],
          Instr opc [OReg dst_reg_upper] [OReg src1_reg_upper, OReg src2_reg_upper],
          SAVE_SIMD_TO_SIZED_TLS dst_reg_lower (TLS_ZMM_idx_SLOT (TO_ZMM_REG_INDEX dst)) 32,
          SAVE_SIMD_TO_SIZED_TLS dst_reg_upper (TLS_ZMM_idx_SLOT (TO_ZMM_REG_INDEX dst) + SIZE_OF_YMM) 32,
          RESTORE_SIMD_FROM_SIZED_TLS spill_src2_lower (TLS_ZMM_idx_SLOT (TO_YMM_REG_INDEX spill_src2_lower)) 32,
          RESTORE_SIMD_FROM_SIZED_TLS src1_reg_upper (TLS_ZMM_idx_SLOT (TO_YMM_REG_INDEX src1_reg_upper)) 32,
          RESTORE_SIMD_FROM_SIZED_TLS src2_reg_upper (TLS_ZMM_idx_SLOT (TO_YMM_REG_INDEX src2_reg_upper)) 32,
          RESTORE_SIMD_FROM_SIZED_TLS dst_reg_upper (TLS_ZMM_idx_SLOT (TO_YMM_REG_INDEX dst_reg_upper)) 32])"

definition zmm_case_3 :: "opcode \<Rightarrow> reg_id \<Rightarrow> reg_id \<Rightarrow> reg_id \<Rightarrow> instr list" where
  "zmm_case_3 opc src1 src2 dst =
     (let src1_reg_lower = ZMM_TO_YMM src1;
          src2_reg_lower = ZMM_TO_YMM src2;
          dst_reg_lower = ZMM_TO_YMM dst;
          spill_src1_lower = find_available_spill_ymm_avoiding_variadic [src1_reg_lower, src2_reg_lower, dst_reg_lower];
          spill_src2_lower = find_available_spill_ymm_avoiding_variadic [src1_reg_lower, src2_reg_lower, dst_reg_lower, spill_src1_lower];
          src1_reg_upper = find_available_spill_ymm_avoiding_variadic [src1_reg_lower, src2_reg_lower, dst_reg_lower, spill_src1_lower, spill_src2_lower];
          src2_reg_upper = find_available_spill_ymm_avoiding_variadic [src1_reg_lower, src2_reg_lower, dst_reg_lower, spill_src1_lower, spill_src2_lower, src1_reg_upper];
          dst_reg_upper = find_available_spill_ymm_avoiding_variadic [src1_reg_lower, src2_reg_lower, dst_reg_lower, spill_src1_lower, spill_src2_lower, src1_reg_upper, src2_reg_upper]
      in [SAVE_SIMD_TO_SIZED_TLS spill_src1_lower (TLS_ZMM_idx_SLOT (TO_YMM_REG_INDEX spill_src1_lower)) 32,
          SAVE_SIMD_TO_SIZED_TLS spill_src2_lower (TLS_ZMM_idx_SLOT (TO_YMM_REG_INDEX spill_src2_lower)) 32,
          SAVE_SIMD_TO_SIZED_TLS src1_reg_upper (TLS_ZMM_idx_SLOT (TO_YMM_REG_INDEX src1_reg_upper)) 32,
          SAVE_SIMD_TO_SIZED_TLS src2_reg_upper (TLS_ZMM_idx_SLOT (TO_YMM_REG_INDEX src2_reg_upper)) 32,
          SAVE_SIMD_TO_SIZED_TLS dst_reg_upper (TLS_ZMM_idx_SLOT (TO_YMM_REG_INDEX dst_reg_upper)) 32,
          RESTORE_SIMD_FROM_SIZED_TLS spill_src1_lower (TLS_ZMM_idx_SLOT (TO_ZMM_REG_INDEX src1)) 32,
          RESTORE_SIMD_FROM_SIZED_TLS src1_reg_upper (TLS_ZMM_idx_SLOT (TO_ZMM_REG_INDEX src1) + SIZE_OF_YMM) 32,
          RESTORE_SIMD_FROM_SIZED_TLS spill_src2_lower (TLS_ZMM_idx_SLOT (TO_ZMM_REG_INDEX src2)) 32,
          RESTORE_SIMD_FROM_SIZED_TLS src2_reg_upper (TLS_ZMM_idx_SLOT (TO_ZMM_REG_INDEX src2) + SIZE_OF_YMM) 32,
          Instr opc [OReg dst_reg_lower] [OReg spill_src1_lower, OReg spill_src2_lower],
          Instr opc [OReg dst_reg_upper] [OReg src1_reg_upper, OReg src2_reg_upper],
          SAVE_SIMD_TO_SIZED_TLS dst_reg_lower (TLS_ZMM_idx_SLOT (TO_ZMM_REG_INDEX dst)) 32,
          SAVE_SIMD_TO_SIZED_TLS dst_reg_upper (TLS_ZMM_idx_SLOT (TO_ZMM_REG_INDEX dst) + SIZE_OF_YMM) 32,
          RESTORE_SIMD_FROM_SIZED_TLS spill_src1_lower (TLS_ZMM_idx_SLOT (TO_YMM_REG_INDEX spill_src1_lower)) 32,
          RESTORE_SIMD_FROM_SIZED_TLS spill_src2_lower (TLS_ZMM_idx_SLOT (TO_YMM_REG_INDEX spill_src2_lower)) 32,
          RESTORE_SIMD_FROM_SIZED_TLS src1_reg_upper (TLS_ZMM_idx_SLOT (TO_YMM_REG_INDEX src1_reg_upper)) 32,
          RESTORE_SIMD_FROM_SIZED_TLS src2_reg_upper (TLS_ZMM_idx_SLOT (TO_YMM_REG_INDEX src2_reg_upper)) 32,
          RESTORE_SIMD_FROM_SIZED_TLS dst_reg_upper (TLS_ZMM_idx_SLOT (TO_YMM_REG_INDEX dst_reg_upper)) 32])"

definition zmm_case_4 :: "opcode \<Rightarrow> reg_id \<Rightarrow> reg_id \<Rightarrow> reg_id \<Rightarrow> instr list" where
  "zmm_case_4 opc src1 src2 dst =
     (let src1_reg_lower = ZMM_TO_YMM src1;
          src2_reg_lower = ZMM_TO_YMM src2;
          dst_reg_lower = ZMM_TO_YMM dst;
          spill_dst_lower = find_available_spill_ymm_avoiding_variadic [src1_reg_lower, src2_reg_lower, dst_reg_lower];
          src1_reg_upper = find_available_spill_ymm_avoiding_variadic [src1_reg_lower, src2_reg_lower, dst_reg_lower, spill_dst_lower];
          src2_reg_upper = find_available_spill_ymm_avoiding_variadic [src1_reg_lower, src2_reg_lower, dst_reg_lower, spill_dst_lower, src1_reg_upper];
          dst_reg_upper = find_available_spill_ymm_avoiding_variadic [src1_reg_lower, src2_reg_lower, dst_reg_lower, spill_dst_lower, src1_reg_upper, src2_reg_upper]
      in [SAVE_SIMD_TO_SIZED_TLS spill_dst_lower (TLS_ZMM_idx_SLOT (TO_YMM_REG_INDEX spill_dst_lower)) 32,
          SAVE_SIMD_TO_SIZED_TLS src1_reg_upper (TLS_ZMM_idx_SLOT (TO_YMM_REG_INDEX src1_reg_upper)) 32,
          SAVE_SIMD_TO_SIZED_TLS src2_reg_upper (TLS_ZMM_idx_SLOT (TO_YMM_REG_INDEX src2_reg_upper)) 32,
          SAVE_SIMD_TO_SIZED_TLS dst_reg_upper (TLS_ZMM_idx_SLOT (TO_YMM_REG_INDEX dst_reg_upper)) 32,
          RESTORE_SIMD_FROM_SIZED_TLS src1_reg_upper (TLS_ZMM_idx_SLOT (TO_ZMM_REG_INDEX src1) + SIZE_OF_YMM) 32,
          RESTORE_SIMD_FROM_SIZED_TLS src2_reg_upper (TLS_ZMM_idx_SLOT (TO_ZMM_REG_INDEX src2) + SIZE_OF_YMM) 32,
          Instr opc [OReg spill_dst_lower] [OReg src1_reg_lower, OReg src2_reg_lower],
          Instr opc [OReg dst_reg_upper] [OReg src1_reg_upper, OReg src2_reg_upper],
          SAVE_SIMD_TO_SIZED_TLS spill_dst_lower (TLS_ZMM_idx_SLOT (TO_ZMM_REG_INDEX dst)) 32,
          SAVE_SIMD_TO_SIZED_TLS dst_reg_upper (TLS_ZMM_idx_SLOT (TO_ZMM_REG_INDEX dst) + SIZE_OF_YMM) 32,
          RESTORE_SIMD_FROM_SIZED_TLS spill_dst_lower (TLS_ZMM_idx_SLOT (TO_YMM_REG_INDEX spill_dst_lower)) 32,
          RESTORE_SIMD_FROM_SIZED_TLS src1_reg_upper (TLS_ZMM_idx_SLOT (TO_YMM_REG_INDEX src1_reg_upper)) 32,
          RESTORE_SIMD_FROM_SIZED_TLS src2_reg_upper (TLS_ZMM_idx_SLOT (TO_YMM_REG_INDEX src2_reg_upper)) 32,
          RESTORE_SIMD_FROM_SIZED_TLS dst_reg_upper (TLS_ZMM_idx_SLOT (TO_YMM_REG_INDEX dst_reg_upper)) 32])"

definition zmm_case_5 :: "opcode \<Rightarrow> reg_id \<Rightarrow> reg_id \<Rightarrow> reg_id \<Rightarrow> instr list" where
  "zmm_case_5 opc src1 src2 dst =
     (let src1_reg_lower = ZMM_TO_YMM src1;
          src2_reg_lower = ZMM_TO_YMM src2;
          dst_reg_lower = ZMM_TO_YMM dst;
          spill_src1_lower = find_available_spill_ymm_avoiding_variadic [src1_reg_lower, src2_reg_lower, dst_reg_lower];
          spill_dst_lower = find_available_spill_ymm_avoiding_variadic [src1_reg_lower, src2_reg_lower, dst_reg_lower, spill_src1_lower];
          src1_reg_upper = find_available_spill_ymm_avoiding_variadic [src1_reg_lower, src2_reg_lower, dst_reg_lower, spill_src1_lower, spill_dst_lower];
          src2_reg_upper = find_available_spill_ymm_avoiding_variadic [src1_reg_lower, src2_reg_lower, dst_reg_lower, spill_src1_lower, spill_dst_lower, src1_reg_upper];
          dst_reg_upper = find_available_spill_ymm_avoiding_variadic [src1_reg_lower, src2_reg_lower, dst_reg_lower, spill_src1_lower, spill_dst_lower, src1_reg_upper, src2_reg_upper]
      in [SAVE_SIMD_TO_SIZED_TLS spill_src1_lower (TLS_ZMM_idx_SLOT (TO_YMM_REG_INDEX spill_src1_lower)) 32,
          SAVE_SIMD_TO_SIZED_TLS spill_dst_lower (TLS_ZMM_idx_SLOT (TO_YMM_REG_INDEX spill_dst_lower)) 32,
          SAVE_SIMD_TO_SIZED_TLS src1_reg_upper (TLS_ZMM_idx_SLOT (TO_YMM_REG_INDEX src1_reg_upper)) 32,
          SAVE_SIMD_TO_SIZED_TLS src2_reg_upper (TLS_ZMM_idx_SLOT (TO_YMM_REG_INDEX src2_reg_upper)) 32,
          SAVE_SIMD_TO_SIZED_TLS dst_reg_upper (TLS_ZMM_idx_SLOT (TO_YMM_REG_INDEX dst_reg_upper)) 32,
          RESTORE_SIMD_FROM_SIZED_TLS spill_src1_lower (TLS_ZMM_idx_SLOT (TO_ZMM_REG_INDEX src1)) 32,
          RESTORE_SIMD_FROM_SIZED_TLS src1_reg_upper (TLS_ZMM_idx_SLOT (TO_ZMM_REG_INDEX src1) + SIZE_OF_YMM) 32,
          RESTORE_SIMD_FROM_SIZED_TLS src2_reg_upper (TLS_ZMM_idx_SLOT (TO_ZMM_REG_INDEX src2) + SIZE_OF_YMM) 32,
          Instr opc [OReg spill_dst_lower] [OReg spill_src1_lower, OReg src2_reg_lower],
          Instr opc [OReg dst_reg_upper] [OReg src1_reg_upper, OReg src2_reg_upper],
          SAVE_SIMD_TO_SIZED_TLS spill_dst_lower (TLS_ZMM_idx_SLOT (TO_ZMM_REG_INDEX dst)) 32,
          SAVE_SIMD_TO_SIZED_TLS dst_reg_upper (TLS_ZMM_idx_SLOT (TO_ZMM_REG_INDEX dst) + SIZE_OF_YMM) 32,
          RESTORE_SIMD_FROM_SIZED_TLS spill_src1_lower (TLS_ZMM_idx_SLOT (TO_YMM_REG_INDEX spill_src1_lower)) 32,
          RESTORE_SIMD_FROM_SIZED_TLS spill_dst_lower (TLS_ZMM_idx_SLOT (TO_YMM_REG_INDEX spill_dst_lower)) 32,
          RESTORE_SIMD_FROM_SIZED_TLS src1_reg_upper (TLS_ZMM_idx_SLOT (TO_YMM_REG_INDEX src1_reg_upper)) 32,
          RESTORE_SIMD_FROM_SIZED_TLS src2_reg_upper (TLS_ZMM_idx_SLOT (TO_YMM_REG_INDEX src2_reg_upper)) 32,
          RESTORE_SIMD_FROM_SIZED_TLS dst_reg_upper (TLS_ZMM_idx_SLOT (TO_YMM_REG_INDEX dst_reg_upper)) 32])"

definition zmm_case_6 :: "opcode \<Rightarrow> reg_id \<Rightarrow> reg_id \<Rightarrow> reg_id \<Rightarrow> instr list" where
  "zmm_case_6 opc src1 src2 dst =
     (let src1_reg_lower = ZMM_TO_YMM src1;
          src2_reg_lower = ZMM_TO_YMM src2;
          dst_reg_lower = ZMM_TO_YMM dst;
          spill_src2_lower = find_available_spill_ymm_avoiding_variadic [src1_reg_lower, src2_reg_lower, dst_reg_lower];
          spill_dst_lower = find_available_spill_ymm_avoiding_variadic [src1_reg_lower, src2_reg_lower, dst_reg_lower, spill_src2_lower];
          src1_reg_upper = find_available_spill_ymm_avoiding_variadic [src1_reg_lower, src2_reg_lower, dst_reg_lower, spill_src2_lower, spill_dst_lower];
          src2_reg_upper = find_available_spill_ymm_avoiding_variadic [src1_reg_lower, src2_reg_lower, dst_reg_lower, spill_src2_lower, spill_dst_lower, src1_reg_upper];
          dst_reg_upper = find_available_spill_ymm_avoiding_variadic [src1_reg_lower, src2_reg_lower, dst_reg_lower, spill_src2_lower, spill_dst_lower, src1_reg_upper, src2_reg_upper]
      in [SAVE_SIMD_TO_SIZED_TLS spill_src2_lower (TLS_ZMM_idx_SLOT (TO_YMM_REG_INDEX spill_src2_lower)) 32,
          SAVE_SIMD_TO_SIZED_TLS spill_dst_lower (TLS_ZMM_idx_SLOT (TO_YMM_REG_INDEX spill_dst_lower)) 32,
          SAVE_SIMD_TO_SIZED_TLS src1_reg_upper (TLS_ZMM_idx_SLOT (TO_YMM_REG_INDEX src1_reg_upper)) 32,
          SAVE_SIMD_TO_SIZED_TLS src2_reg_upper (TLS_ZMM_idx_SLOT (TO_YMM_REG_INDEX src2_reg_upper)) 32,
          SAVE_SIMD_TO_SIZED_TLS dst_reg_upper (TLS_ZMM_idx_SLOT (TO_YMM_REG_INDEX dst_reg_upper)) 32,
          RESTORE_SIMD_FROM_SIZED_TLS src1_reg_upper (TLS_ZMM_idx_SLOT (TO_ZMM_REG_INDEX src1) + SIZE_OF_YMM) 32,
          RESTORE_SIMD_FROM_SIZED_TLS spill_src2_lower (TLS_ZMM_idx_SLOT (TO_ZMM_REG_INDEX src2)) 32,
          RESTORE_SIMD_FROM_SIZED_TLS src2_reg_upper (TLS_ZMM_idx_SLOT (TO_ZMM_REG_INDEX src2) + SIZE_OF_YMM) 32,
          Instr opc [OReg spill_dst_lower] [OReg src1_reg_lower, OReg spill_src2_lower],
          Instr opc [OReg dst_reg_upper] [OReg src1_reg_upper, OReg src2_reg_upper],
          SAVE_SIMD_TO_SIZED_TLS spill_dst_lower (TLS_ZMM_idx_SLOT (TO_ZMM_REG_INDEX dst)) 32,
          SAVE_SIMD_TO_SIZED_TLS dst_reg_upper (TLS_ZMM_idx_SLOT (TO_ZMM_REG_INDEX dst) + SIZE_OF_YMM) 32,
          RESTORE_SIMD_FROM_SIZED_TLS spill_src2_lower (TLS_ZMM_idx_SLOT (TO_YMM_REG_INDEX spill_src2_lower)) 32,
          RESTORE_SIMD_FROM_SIZED_TLS spill_dst_lower (TLS_ZMM_idx_SLOT (TO_YMM_REG_INDEX spill_dst_lower)) 32,
          RESTORE_SIMD_FROM_SIZED_TLS src1_reg_upper (TLS_ZMM_idx_SLOT (TO_YMM_REG_INDEX src1_reg_upper)) 32,
          RESTORE_SIMD_FROM_SIZED_TLS src2_reg_upper (TLS_ZMM_idx_SLOT (TO_YMM_REG_INDEX src2_reg_upper)) 32,
          RESTORE_SIMD_FROM_SIZED_TLS dst_reg_upper (TLS_ZMM_idx_SLOT (TO_YMM_REG_INDEX dst_reg_upper)) 32])"

definition zmm_case_7 :: "opcode \<Rightarrow> reg_id \<Rightarrow> reg_id \<Rightarrow> reg_id \<Rightarrow> instr list" where
  "zmm_case_7 opc src1 src2 dst =
     (let src1_reg_lower = ZMM_TO_YMM src1;
          src2_reg_lower = ZMM_TO_YMM src2;
          dst_reg_lower = ZMM_TO_YMM dst;
          spill_src1_lower = find_available_spill_ymm_avoiding_variadic [src1_reg_lower, src2_reg_lower, dst_reg_lower];
          spill_src2_lower = find_available_spill_ymm_avoiding_variadic [src1_reg_lower, src2_reg_lower, dst_reg_lower, spill_src1_lower];
          spill_dst_lower = find_available_spill_ymm_avoiding_variadic [src1_reg_lower, src2_reg_lower, dst_reg_lower, spill_src1_lower, spill_src2_lower];
          src1_reg_upper = find_available_spill_ymm_avoiding_variadic [src1_reg_lower, src2_reg_lower, dst_reg_lower, spill_src1_lower, spill_src2_lower, spill_dst_lower];
          src2_reg_upper = find_available_spill_ymm_avoiding_variadic [src1_reg_lower, src2_reg_lower, dst_reg_lower, spill_src1_lower, spill_src2_lower, spill_dst_lower, src1_reg_upper];
          dst_reg_upper = find_available_spill_ymm_avoiding_variadic [src1_reg_lower, src2_reg_lower, dst_reg_lower, spill_src1_lower, spill_src2_lower, spill_dst_lower, src1_reg_upper, src2_reg_upper]
      in [SAVE_SIMD_TO_SIZED_TLS spill_src1_lower (TLS_ZMM_idx_SLOT (TO_YMM_REG_INDEX spill_src1_lower)) 32,
          SAVE_SIMD_TO_SIZED_TLS spill_src2_lower (TLS_ZMM_idx_SLOT (TO_YMM_REG_INDEX spill_src2_lower)) 32,
          SAVE_SIMD_TO_SIZED_TLS spill_dst_lower (TLS_ZMM_idx_SLOT (TO_YMM_REG_INDEX spill_dst_lower)) 32,
          SAVE_SIMD_TO_SIZED_TLS src1_reg_upper (TLS_ZMM_idx_SLOT (TO_YMM_REG_INDEX src1_reg_upper)) 32,
          SAVE_SIMD_TO_SIZED_TLS src2_reg_upper (TLS_ZMM_idx_SLOT (TO_YMM_REG_INDEX src2_reg_upper)) 32,
          SAVE_SIMD_TO_SIZED_TLS dst_reg_upper (TLS_ZMM_idx_SLOT (TO_YMM_REG_INDEX dst_reg_upper)) 32,
          RESTORE_SIMD_FROM_SIZED_TLS spill_src1_lower (TLS_ZMM_idx_SLOT (TO_ZMM_REG_INDEX src1)) 32,
          RESTORE_SIMD_FROM_SIZED_TLS src1_reg_upper (TLS_ZMM_idx_SLOT (TO_ZMM_REG_INDEX src1) + SIZE_OF_YMM) 32,
          RESTORE_SIMD_FROM_SIZED_TLS spill_src2_lower (TLS_ZMM_idx_SLOT (TO_ZMM_REG_INDEX src2)) 32,
          RESTORE_SIMD_FROM_SIZED_TLS src2_reg_upper (TLS_ZMM_idx_SLOT (TO_ZMM_REG_INDEX src2) + SIZE_OF_YMM) 32,
          Instr opc [OReg spill_dst_lower] [OReg spill_src1_lower, OReg spill_src2_lower],
          Instr opc [OReg dst_reg_upper] [OReg src1_reg_upper, OReg src2_reg_upper],
          SAVE_SIMD_TO_SIZED_TLS spill_dst_lower (TLS_ZMM_idx_SLOT (TO_ZMM_REG_INDEX dst)) 32,
          SAVE_SIMD_TO_SIZED_TLS dst_reg_upper (TLS_ZMM_idx_SLOT (TO_ZMM_REG_INDEX dst) + SIZE_OF_YMM) 32,
          RESTORE_SIMD_FROM_SIZED_TLS spill_src1_lower (TLS_ZMM_idx_SLOT (TO_YMM_REG_INDEX spill_src1_lower)) 32,
          RESTORE_SIMD_FROM_SIZED_TLS spill_src2_lower (TLS_ZMM_idx_SLOT (TO_YMM_REG_INDEX spill_src2_lower)) 32,
          RESTORE_SIMD_FROM_SIZED_TLS spill_dst_lower (TLS_ZMM_idx_SLOT (TO_YMM_REG_INDEX spill_dst_lower)) 32,
          RESTORE_SIMD_FROM_SIZED_TLS src1_reg_upper (TLS_ZMM_idx_SLOT (TO_YMM_REG_INDEX src1_reg_upper)) 32,
          RESTORE_SIMD_FROM_SIZED_TLS src2_reg_upper (TLS_ZMM_idx_SLOT (TO_YMM_REG_INDEX src2_reg_upper)) 32,
          RESTORE_SIMD_FROM_SIZED_TLS dst_reg_upper (TLS_ZMM_idx_SLOT (TO_YMM_REG_INDEX dst_reg_upper)) 32])"

text \<open>The flags of \<open>need_spill\<close> and the selection of the case.\<close>

definition need_spill :: "reg_id \<Rightarrow> reg_id \<Rightarrow> reg_id \<Rightarrow> nat" where
  "need_spill src1 src2 dst =
     (if NEED_SPILL_ZMM src1 then 1 else 0) + (if NEED_SPILL_ZMM src2 then 2 else 0) + (if NEED_SPILL_ZMM dst then 4 else 0)"

definition zmm_and_zmm_gen :: "opcode \<Rightarrow> reg_id \<Rightarrow> reg_id \<Rightarrow> reg_id \<Rightarrow> rw_result" where
  "zmm_and_zmm_gen opc src1 src2 dst =
     (let n = need_spill src1 src2 dst in
      if n = 0 then Rw True (zmm_case_0 opc src1 src2 dst)
      else if n = 1 then Rw True (zmm_case_1 opc src1 src2 dst)
      else if n = 2 then Rw True (zmm_case_2 opc src1 src2 dst)
      else if n = 3 then Rw True (zmm_case_3 opc src1 src2 dst)
      else if n = 4 then Rw True (zmm_case_4 opc src1 src2 dst)
      else if n = 5 then Rw True (zmm_case_5 opc src1 src2 dst)
      else if n = 6 then Rw True (zmm_case_6 opc src1 src2 dst)
      else if n = 7 then Rw True (zmm_case_7 opc src1 src2 dst)
      else RwNull True)"

text \<open>
  The functions that emit this code. All of them get the register of the write mask, and none
  looks at it.
\<close>

definition vpaddd_zmm_and_zmm_gen :: "reg_id \<Rightarrow> reg_id \<Rightarrow> reg_id \<Rightarrow> reg_id \<Rightarrow> rw_result" where
  "vpaddd_zmm_and_zmm_gen src1 src2 dst mask_reg = zmm_and_zmm_gen OP_vpaddd src1 src2 dst"

definition vpaddq_zmm_reg_reg_gen :: "reg_id \<Rightarrow> reg_id \<Rightarrow> reg_id \<Rightarrow> reg_id \<Rightarrow> rw_result" where
  "vpaddq_zmm_reg_reg_gen src1 src2 dst mask_reg = zmm_and_zmm_gen OP_vpaddq src1 src2 dst"

definition vpsubq_zmm_and_zmm_gen :: "reg_id \<Rightarrow> reg_id \<Rightarrow> reg_id \<Rightarrow> reg_id \<Rightarrow> rw_result" where
  "vpsubq_zmm_and_zmm_gen src1 src2 dst mask_reg = zmm_and_zmm_gen OP_vpsubq src1 src2 dst"

definition vporq_zmm_and_zmm_gen :: "reg_id \<Rightarrow> reg_id \<Rightarrow> reg_id \<Rightarrow> reg_id \<Rightarrow> rw_result" where
  "vporq_zmm_and_zmm_gen src1 src2 dst mask_reg = zmm_and_zmm_gen OP_vpor src1 src2 dst"

definition vpxorq_zmm_and_zmm_gen :: "reg_id \<Rightarrow> reg_id \<Rightarrow> reg_id \<Rightarrow> reg_id \<Rightarrow> rw_result" where
  "vpxorq_zmm_and_zmm_gen src1 src2 dst mask_reg = zmm_and_zmm_gen OP_vpxor src1 src2 dst"

text \<open>
  \<open>vpsubd\<close> has code for its first case only, \<open>vpsubw\<close> for none: there the functions return
  no instruction, \<open>vpsubd\<close> after it has destroyed the original.
\<close>

definition vpsubd_zmm_case_0 :: "opcode \<Rightarrow> reg_id \<Rightarrow> reg_id \<Rightarrow> reg_id \<Rightarrow> instr list" where
  "vpsubd_zmm_case_0 opc src1 src2 dst =
     (let src1_reg_lower = ZMM_TO_YMM src1;
          src2_reg_lower = ZMM_TO_YMM src2;
          dst_reg_lower = ZMM_TO_YMM dst;
          src1_reg_upper = find_available_spill_ymm_avoiding_variadic [src1_reg_lower, src2_reg_lower, dst_reg_lower];
          src2_reg_upper = find_available_spill_ymm_avoiding_variadic [src1_reg_lower, src2_reg_lower, dst_reg_lower, src1_reg_upper];
          dst_reg_upper = find_available_spill_ymm_avoiding_variadic [src1_reg_lower, src2_reg_lower, dst_reg_lower, src1_reg_upper, src2_reg_upper]
      in [SAVE_SIMD_TO_SIZED_TLS src1_reg_upper (TLS_ZMM_idx_SLOT (TO_YMM_REG_INDEX src1_reg_upper)) 32,
          SAVE_SIMD_TO_SIZED_TLS src2_reg_upper (TLS_ZMM_idx_SLOT (TO_YMM_REG_INDEX src2_reg_upper)) 32,
          SAVE_SIMD_TO_SIZED_TLS dst_reg_upper (TLS_ZMM_idx_SLOT (TO_YMM_REG_INDEX dst_reg_upper)) 32,
          Instr opc [OReg dst_reg_lower] [OReg src1_reg_lower, OReg src2_reg_lower],
          RESTORE_SIMD_FROM_SIZED_TLS src1_reg_upper (TLS_ZMM_idx_SLOT (TO_ZMM_REG_INDEX src1) + SIZE_OF_YMM) 32,
          RESTORE_SIMD_FROM_SIZED_TLS src2_reg_upper (TLS_ZMM_idx_SLOT (TO_ZMM_REG_INDEX src2) + SIZE_OF_YMM) 32,
          Instr opc [OReg dst_reg_upper] [OReg src1_reg_upper, OReg src2_reg_upper],
          SAVE_SIMD_TO_SIZED_TLS dst_reg_lower (TLS_ZMM_idx_SLOT (TO_ZMM_REG_INDEX dst)) 32,
          SAVE_SIMD_TO_SIZED_TLS dst_reg_upper (TLS_ZMM_idx_SLOT (TO_ZMM_REG_INDEX dst) + SIZE_OF_YMM) 32,
          RESTORE_SIMD_FROM_SIZED_TLS src1_reg_upper (TLS_ZMM_idx_SLOT (TO_YMM_REG_INDEX src1_reg_upper)) 32,
          RESTORE_SIMD_FROM_SIZED_TLS src2_reg_upper (TLS_ZMM_idx_SLOT (TO_YMM_REG_INDEX src2_reg_upper)) 32,
          RESTORE_SIMD_FROM_SIZED_TLS dst_reg_upper (TLS_ZMM_idx_SLOT (TO_YMM_REG_INDEX dst_reg_upper)) 32])"

definition vpsubd_zmm_and_zmm_gen :: "reg_id \<Rightarrow> reg_id \<Rightarrow> reg_id \<Rightarrow> reg_id \<Rightarrow> rw_result" where
  "vpsubd_zmm_and_zmm_gen src1 src2 dst mask_reg =
     (if need_spill src1 src2 dst = 0 then Rw True (vpsubd_zmm_case_0 OP_vpsubd src1 src2 dst) else RwNull True)"

definition vpsubw_zmm_and_zmm_gen :: "reg_id \<Rightarrow> reg_id \<Rightarrow> reg_id \<Rightarrow> reg_id \<Rightarrow> rw_result" where
  "vpsubw_zmm_and_zmm_gen src1 src2 dst mask_reg = RwNull False"

section \<open>What the cases do\<close>

lemmas emit_simps = saves_def loads_def restores_def zmm_code_def zslot_ymm zslot_zmm ZMM_TO_YMM_reg Let_def at_pos_def place.simps
  spills.simps ginstr.simps vbase.simps opsz.simps list.map append.simps list.set insert_subset lessThan_iff insert_iff empty_iff ball_simps simp_thms
  if_False if_True add_0_right prod.case fst_conv snd_conv nth_steps

lemma zmm_case_0_run:
  assumes "opc \<in> set vops" "a < 16" "b < 16" "d < 16"
  shows "\<exists>t. exec (zmm_case_0 opc (DR_REG_ZMM0 + a) (DR_REG_ZMM0 + b) (DR_REG_ZMM0 + d)) s = Inr t
     \<and> abs_state t = spec_zmm opc d a b (abs_state s)"
proof (cases "a = d")
  case True
  show ?thesis
  proof (rule zmm_plan [where rs = "[a, b]" and n = 2 and ils = "[(0, a, True), (1, b, True)]"
        and pa = None and au = 0 and pb = None and bu = 1 and pd = None and du = 0])
    fix es assume es: "spills (map (\<lambda>r. DR_REG_YMM0 + r) [a, b]) es" "length es = 2" "set es \<subseteq> {..<32}"
    have "b < 32" "d < 32" using assms by simp_all
    then show "zmm_case_0 opc (DR_REG_ZMM0 + a) (DR_REG_ZMM0 + b) (DR_REG_ZMM0 + d) = map asn_instr (zmm_code opc es
        (at_pos es [(0, a, True), (1, b, True)]) d (place es d None, es ! 0) (place es a None, es ! 0) (place es b None, es ! 1))"
      using es length_2_to_6(1) [OF es(2)] unfolding True by (elim exE) (simp only: zmm_case_0_def emit_simps)
  qed (use assms True in auto)
next
  case False
  then have neq: "(DR_REG_ZMM0 + a = DR_REG_ZMM0 + d) = False" by simp
  show ?thesis
  proof (rule zmm_plan [where rs = "[a, b, d]" and n = 3 and ils = "[(0, a, True), (1, b, True)]"
        and pa = None and au = 0 and pb = None and bu = 1 and pd = None and du = 2])
    fix es assume es: "spills (map (\<lambda>r. DR_REG_YMM0 + r) [a, b, d]) es" "length es = 3" "set es \<subseteq> {..<32}"
    have "a < 32" "b < 32" "d < 32" using assms by simp_all
    then show "zmm_case_0 opc (DR_REG_ZMM0 + a) (DR_REG_ZMM0 + b) (DR_REG_ZMM0 + d) = map asn_instr (zmm_code opc es
        (at_pos es [(0, a, True), (1, b, True)]) d (place es d None, es ! 2) (place es a None, es ! 0) (place es b None, es ! 1))"
      using es length_2_to_6(2) [OF es(2)] by (elim exE) (simp only: zmm_case_0_def neq emit_simps)
  qed (use assms in simp_all)
qed

lemma zmm_case_1_run:
  assumes "opc \<in> set vops" "16 \<le> a" "a < 32" "b < 16" "d < 16"
  shows "\<exists>t. exec (zmm_case_1 opc (DR_REG_ZMM0 + a) (DR_REG_ZMM0 + b) (DR_REG_ZMM0 + d)) s = Inr t
     \<and> abs_state t = spec_zmm opc d a b (abs_state s)"
proof (rule zmm_plan [where rs = "[a, b, d]" and n = 4 and ils = "[(0, a, False), (1, a, True), (2, b, True)]"
      and pa = "Some 0" and au = 1 and pb = "None" and bu = 2 and pd = "None" and du = 3])
  fix es assume es: "spills (map (\<lambda>r. DR_REG_YMM0 + r) [a, b, d]) es" "length es = 4" "set es \<subseteq> {..<32}"
  have "a < 32" "b < 32" "d < 32" using assms by simp_all
  then show "zmm_case_1 opc (DR_REG_ZMM0 + a) (DR_REG_ZMM0 + b) (DR_REG_ZMM0 + d) = map asn_instr (zmm_code opc es
      (at_pos es [(0, a, False), (1, a, True), (2, b, True)]) d (place es d (None), es ! 3) (place es a (Some 0), es ! 1) (place es b (None), es ! 2))"
    using es length_2_to_6(3) [OF es(2)] by (elim exE) (simp only: zmm_case_1_def emit_simps)
qed (use assms in simp_all)

lemma zmm_case_2_run:
  assumes "opc \<in> set vops" "a < 16" "16 \<le> b" "b < 32" "d < 16"
  shows "\<exists>t. exec (zmm_case_2 opc (DR_REG_ZMM0 + a) (DR_REG_ZMM0 + b) (DR_REG_ZMM0 + d)) s = Inr t
     \<and> abs_state t = spec_zmm opc d a b (abs_state s)"
proof (rule zmm_plan [where rs = "[a, b, d]" and n = 4 and ils = "[(1, a, True), (0, b, False), (2, b, True)]"
      and pa = "None" and au = 1 and pb = "Some 0" and bu = 2 and pd = "None" and du = 3])
  fix es assume es: "spills (map (\<lambda>r. DR_REG_YMM0 + r) [a, b, d]) es" "length es = 4" "set es \<subseteq> {..<32}"
  have "a < 32" "b < 32" "d < 32" using assms by simp_all
  then show "zmm_case_2 opc (DR_REG_ZMM0 + a) (DR_REG_ZMM0 + b) (DR_REG_ZMM0 + d) = map asn_instr (zmm_code opc es
      (at_pos es [(1, a, True), (0, b, False), (2, b, True)]) d (place es d (None), es ! 3) (place es a (None), es ! 1) (place es b (Some 0), es ! 2))"
    using es length_2_to_6(3) [OF es(2)] by (elim exE) (simp only: zmm_case_2_def emit_simps)
qed (use assms in simp_all)

lemma zmm_case_3_run:
  assumes "opc \<in> set vops" "16 \<le> a" "a < 32" "16 \<le> b" "b < 32" "d < 16"
  shows "\<exists>t. exec (zmm_case_3 opc (DR_REG_ZMM0 + a) (DR_REG_ZMM0 + b) (DR_REG_ZMM0 + d)) s = Inr t
     \<and> abs_state t = spec_zmm opc d a b (abs_state s)"
proof (rule zmm_plan [where rs = "[a, b, d]" and n = 5 and ils = "[(0, a, False), (2, a, True), (1, b, False), (3, b, True)]"
      and pa = "Some 0" and au = 2 and pb = "Some 1" and bu = 3 and pd = "None" and du = 4])
  fix es assume es: "spills (map (\<lambda>r. DR_REG_YMM0 + r) [a, b, d]) es" "length es = 5" "set es \<subseteq> {..<32}"
  have "a < 32" "b < 32" "d < 32" using assms by simp_all
  then show "zmm_case_3 opc (DR_REG_ZMM0 + a) (DR_REG_ZMM0 + b) (DR_REG_ZMM0 + d) = map asn_instr (zmm_code opc es
      (at_pos es [(0, a, False), (2, a, True), (1, b, False), (3, b, True)]) d (place es d (None), es ! 4) (place es a (Some 0), es ! 2) (place es b (Some 1), es ! 3))"
    using es length_2_to_6(4) [OF es(2)] by (elim exE) (simp only: zmm_case_3_def emit_simps)
qed (use assms in simp_all)

lemma zmm_case_4_run:
  assumes "opc \<in> set vops" "a < 16" "b < 16" "16 \<le> d" "d < 32"
  shows "\<exists>t. exec (zmm_case_4 opc (DR_REG_ZMM0 + a) (DR_REG_ZMM0 + b) (DR_REG_ZMM0 + d)) s = Inr t
     \<and> abs_state t = spec_zmm opc d a b (abs_state s)"
proof (rule zmm_plan [where rs = "[a, b, d]" and n = 4 and ils = "[(1, a, True), (2, b, True)]"
      and pa = "None" and au = 1 and pb = "None" and bu = 2 and pd = "Some 0" and du = 3])
  fix es assume es: "spills (map (\<lambda>r. DR_REG_YMM0 + r) [a, b, d]) es" "length es = 4" "set es \<subseteq> {..<32}"
  have "a < 32" "b < 32" "d < 32" using assms by simp_all
  then show "zmm_case_4 opc (DR_REG_ZMM0 + a) (DR_REG_ZMM0 + b) (DR_REG_ZMM0 + d) = map asn_instr (zmm_code opc es
      (at_pos es [(1, a, True), (2, b, True)]) d (place es d (Some 0), es ! 3) (place es a (None), es ! 1) (place es b (None), es ! 2))"
    using es length_2_to_6(3) [OF es(2)] by (elim exE) (simp only: zmm_case_4_def emit_simps)
qed (use assms in simp_all)

lemma zmm_case_5_run:
  assumes "opc \<in> set vops" "16 \<le> a" "a < 32" "b < 16" "16 \<le> d" "d < 32"
  shows "\<exists>t. exec (zmm_case_5 opc (DR_REG_ZMM0 + a) (DR_REG_ZMM0 + b) (DR_REG_ZMM0 + d)) s = Inr t
     \<and> abs_state t = spec_zmm opc d a b (abs_state s)"
proof (rule zmm_plan [where rs = "[a, b, d]" and n = 5 and ils = "[(0, a, False), (2, a, True), (3, b, True)]"
      and pa = "Some 0" and au = 2 and pb = "None" and bu = 3 and pd = "Some 1" and du = 4])
  fix es assume es: "spills (map (\<lambda>r. DR_REG_YMM0 + r) [a, b, d]) es" "length es = 5" "set es \<subseteq> {..<32}"
  have "a < 32" "b < 32" "d < 32" using assms by simp_all
  then show "zmm_case_5 opc (DR_REG_ZMM0 + a) (DR_REG_ZMM0 + b) (DR_REG_ZMM0 + d) = map asn_instr (zmm_code opc es
      (at_pos es [(0, a, False), (2, a, True), (3, b, True)]) d (place es d (Some 1), es ! 4) (place es a (Some 0), es ! 2) (place es b (None), es ! 3))"
    using es length_2_to_6(4) [OF es(2)] by (elim exE) (simp only: zmm_case_5_def emit_simps)
qed (use assms in simp_all)

lemma zmm_case_6_run:
  assumes "opc \<in> set vops" "a < 16" "16 \<le> b" "b < 32" "16 \<le> d" "d < 32"
  shows "\<exists>t. exec (zmm_case_6 opc (DR_REG_ZMM0 + a) (DR_REG_ZMM0 + b) (DR_REG_ZMM0 + d)) s = Inr t
     \<and> abs_state t = spec_zmm opc d a b (abs_state s)"
proof (rule zmm_plan [where rs = "[a, b, d]" and n = 5 and ils = "[(2, a, True), (0, b, False), (3, b, True)]"
      and pa = "None" and au = 2 and pb = "Some 0" and bu = 3 and pd = "Some 1" and du = 4])
  fix es assume es: "spills (map (\<lambda>r. DR_REG_YMM0 + r) [a, b, d]) es" "length es = 5" "set es \<subseteq> {..<32}"
  have "a < 32" "b < 32" "d < 32" using assms by simp_all
  then show "zmm_case_6 opc (DR_REG_ZMM0 + a) (DR_REG_ZMM0 + b) (DR_REG_ZMM0 + d) = map asn_instr (zmm_code opc es
      (at_pos es [(2, a, True), (0, b, False), (3, b, True)]) d (place es d (Some 1), es ! 4) (place es a (None), es ! 2) (place es b (Some 0), es ! 3))"
    using es length_2_to_6(4) [OF es(2)] by (elim exE) (simp only: zmm_case_6_def emit_simps)
qed (use assms in simp_all)

lemma zmm_case_7_run:
  assumes "opc \<in> set vops" "16 \<le> a" "a < 32" "16 \<le> b" "b < 32" "16 \<le> d" "d < 32"
  shows "\<exists>t. exec (zmm_case_7 opc (DR_REG_ZMM0 + a) (DR_REG_ZMM0 + b) (DR_REG_ZMM0 + d)) s = Inr t
     \<and> abs_state t = spec_zmm opc d a b (abs_state s)"
proof (rule zmm_plan [where rs = "[a, b, d]" and n = 6 and ils = "[(0, a, False), (3, a, True), (1, b, False), (4, b, True)]"
      and pa = "Some 0" and au = 3 and pb = "Some 1" and bu = 4 and pd = "Some 2" and du = 5])
  fix es assume es: "spills (map (\<lambda>r. DR_REG_YMM0 + r) [a, b, d]) es" "length es = 6" "set es \<subseteq> {..<32}"
  have "a < 32" "b < 32" "d < 32" using assms by simp_all
  then show "zmm_case_7 opc (DR_REG_ZMM0 + a) (DR_REG_ZMM0 + b) (DR_REG_ZMM0 + d) = map asn_instr (zmm_code opc es
      (at_pos es [(0, a, False), (3, a, True), (1, b, False), (4, b, True)]) d (place es d (Some 2), es ! 5) (place es a (Some 0), es ! 3) (place es b (Some 1), es ! 4))"
    using es length_2_to_6(5) [OF es(2)] by (elim exE) (simp only: zmm_case_7_def emit_simps)
qed (use assms in simp_all)

lemma zmm_cases_nonempty:
  "zmm_case_0 opc p q r \<noteq> []" "zmm_case_1 opc p q r \<noteq> []" "zmm_case_2 opc p q r \<noteq> []" "zmm_case_3 opc p q r \<noteq> []"
  "zmm_case_4 opc p q r \<noteq> []" "zmm_case_5 opc p q r \<noteq> []" "zmm_case_6 opc p q r \<noteq> []" "zmm_case_7 opc p q r \<noteq> []"
  by (simp_all only: zmm_case_0_def zmm_case_1_def zmm_case_2_def zmm_case_3_def zmm_case_4_def zmm_case_5_def zmm_case_6_def
      zmm_case_7_def Let_def list.distinct simp_thms split: if_splits)

lemma vpsubd_zmm_nonempty: "vpsubd_zmm_case_0 opc p q r \<noteq> []"
  by (simp only: vpsubd_zmm_case_0_def Let_def list.distinct simp_thms)

lemma need_spill_reg:
  assumes "a < 32" "b < 32" "d < 32"
  shows "need_spill (DR_REG_ZMM0 + a) (DR_REG_ZMM0 + b) (DR_REG_ZMM0 + d)
     = (if a < 16 then 0 else 1) + (if b < 16 then 0 else 2) + (if d < 16 then 0 else 4)"
  using assms by (simp add: need_spill_def NEED_SPILL_ZMM_def)

lemma zmm_and_zmm_gen_run:
  assumes "opc \<in> set vops" "a < 32" "b < 32" "d < 32"
  shows "\<exists>chain t. zmm_and_zmm_gen opc (DR_REG_ZMM0 + a) (DR_REG_ZMM0 + b) (DR_REG_ZMM0 + d) = Rw True chain
     \<and> exec chain s = Inr t \<and> abs_state t = spec_zmm opc d a b (abs_state s)"
  using zmm_case_0_run zmm_case_1_run zmm_case_2_run zmm_case_3_run zmm_case_4_run zmm_case_5_run zmm_case_6_run
    zmm_case_7_run assms
  by (cases "a < 16"; cases "b < 16"; cases "d < 16") (simp_all add: zmm_and_zmm_gen_def need_spill_reg)

lemma vpsubd_zmm_case_0_run:
  assumes "opc \<in> set vops" "a < 16" "b < 16" "d < 16"
  shows "\<exists>t. exec (vpsubd_zmm_case_0 opc (DR_REG_ZMM0 + a) (DR_REG_ZMM0 + b) (DR_REG_ZMM0 + d)) s = Inr t
     \<and> abs_state t = spec_zmm opc d a b (abs_state s)"
proof (rule zmm_plan_any [where rs = "[a, b, d]" and n = 3 and ils = "[(0, a, True), (1, b, True)]"
      and pa = None and au = 0 and pb = None and bu = 1 and pd = None and du = 2])
  fix es assume es: "spills (map (\<lambda>r. DR_REG_YMM0 + r) [a, b, d]) es" "length es = 3" "set es \<subseteq> {..<32}"
      "set [a, b, d] \<inter> set es = {}"
  let ?ls = "at_pos es [(0, a, True), (1, b, True)]"
  let ?lo = "Bin opc (Y d) (Y a) (Y b)"
  let ?r = "[Bin opc (Y (es ! 2)) (Y (es ! 0)) (Y (es ! 1)), Move (Z d False) (Y d), Move (Z d True) (Y (es ! 2))] @ restores es"
  have "a < 32" "b < 32" "d < 32" using assms by simp_all
  then have "vpsubd_zmm_case_0 opc (DR_REG_ZMM0 + a) (DR_REG_ZMM0 + b) (DR_REG_ZMM0 + d)
      = map asn_instr (saves es @ [?lo] @ loads ?ls @ ?r)"
    using es length_2_to_6(2) [OF es(2)] by (elim exE) (simp only: vpsubd_zmm_case_0_def emit_simps)
  moreover have "fold run_asn (saves es @ [?lo] @ loads ?ls @ ?r) \<sigma> = fold run_asn (zmm_code opc es ?ls d
      (place es d None, es ! 2) (place es a None, es ! 0) (place es b None, es ! 1)) \<sigma>" for \<sigma>
  proof -
    have "fst ` set ?ls \<subseteq> set es" using es(2) by (auto simp: at_pos_def)
    then have "d \<notin> fst ` set ?ls" "a \<notin> fst ` set ?ls" "b \<notin> fst ` set ?ls" using es(4) by auto
    from loads_after_bin [OF this, of opc "fold run_asn (saves es) \<sigma>"] show ?thesis
      unfolding zmm_code_def fold_append comp_apply place.simps fst_conv snd_conv by (simp del: grun.simps)
  qed
  moreover have "set (saves es @ [?lo] @ loads ?ls @ ?r) = set (zmm_code opc es ?ls d
      (place es d None, es ! 2) (place es a None, es ! 0) (place es b None, es ! 1))"
    by (auto simp: zmm_code_def)
  ultimately show "\<exists>xs. vpsubd_zmm_case_0 opc (DR_REG_ZMM0 + a) (DR_REG_ZMM0 + b) (DR_REG_ZMM0 + d) = map asn_instr xs
      \<and> set xs = set (zmm_code opc es ?ls d (place es d None, es ! 2) (place es a None, es ! 0) (place es b None, es ! 1))
      \<and> (\<forall>\<sigma>. fold run_asn xs \<sigma> = fold run_asn (zmm_code opc es ?ls d (place es d None, es ! 2) (place es a None, es ! 0)
            (place es b None, es ! 1)) \<sigma>)"
    by blast
qed (use assms in simp_all)

section \<open>Properties\<close>

definition zmm_gens :: "((reg_id \<Rightarrow> reg_id \<Rightarrow> reg_id \<Rightarrow> reg_id \<Rightarrow> rw_result) \<times> opcode) list" where
  "zmm_gens = [(vpaddd_zmm_and_zmm_gen, OP_vpaddd), (vpaddq_zmm_reg_reg_gen, OP_vpaddq), (vpsubq_zmm_and_zmm_gen, OP_vpsubq),
     (vporq_zmm_and_zmm_gen, OP_vpor), (vpxorq_zmm_and_zmm_gen, OP_vpxor)]"

text \<open>
  C11. The code emitted for \<open>vpaddd\<close>, \<open>vpaddq\<close>, \<open>vpsubq\<close>, \<open>vporq\<close> and \<open>vpxorq\<close> on three
  \<open>zmm\<close> registers, whichever of the 32 they are and whether or not they coincide, runs to its
  end on the processor without AVX-512. In the application's view it puts the result of the
  operation on all 64 bytes into the destination and changes nothing else: every scratch
  register, mask register, general-purpose register, flag and memory byte is as before.
\<close>

theorem zmm_binop_rewrite:
  assumes "(f, opc) \<in> set zmm_gens" "a < 32" "b < 32" "d < 32"
  shows "\<exists>chain t. f (DR_REG_ZMM0 + a) (DR_REG_ZMM0 + b) (DR_REG_ZMM0 + d) mask_reg = Rw True chain
     \<and> exec chain s = Inr t \<and> abs_state t = spec_zmm opc d a b (abs_state s)"
proof -
  have "f (DR_REG_ZMM0 + a) (DR_REG_ZMM0 + b) (DR_REG_ZMM0 + d) mask_reg
      = zmm_and_zmm_gen opc (DR_REG_ZMM0 + a) (DR_REG_ZMM0 + b) (DR_REG_ZMM0 + d)" and "opc \<in> set vops"
    using assms(1) by (auto simp: zmm_gens_def vops_def vpaddd_zmm_and_zmm_gen_def vpaddq_zmm_reg_reg_gen_def
        vpsubq_zmm_and_zmm_gen_def vporq_zmm_and_zmm_gen_def vpxorq_zmm_and_zmm_gen_def)
  then show ?thesis using zmm_and_zmm_gen_run [OF _ assms(2-4)] by simp
qed

text \<open>A state with 1 in all bytes of the registers and 3 in all bytes of the slots.\<close>

definition vec_sample :: mstate where
  "vec_sample = (sample (\<lambda>_. True) [])\<lparr>ymm := \<lambda>_ _. 1, tls := \<lambda>_. 3\<rparr>"

theorem zmm_binop_rewrite_witness:
  "\<exists>chain t. vpxorq_zmm_and_zmm_gen (DR_REG_ZMM0 + 17) (DR_REG_ZMM0 + 10) (DR_REG_ZMM0 + 17) DR_REG_K0 = Rw True chain
     \<and> exec chain vec_sample = Inr t \<and> azmm (abs_state t) 17 0 = 2 \<and> azmm (abs_state t) 17 40 = 0
     \<and> azmm (abs_state t) 10 0 = 1"
proof -
  have "azmm (spec_zmm OP_vpxor 17 17 10 (abs_state vec_sample)) 17 0 = 2"
      "azmm (spec_zmm OP_vpxor 17 17 10 (abs_state vec_sample)) 17 40 = 0"
      "azmm (spec_zmm OP_vpxor 17 17 10 (abs_state vec_sample)) 10 0 = 1"
    by (simp_all add: spec_zmm_def set_z_def abs_state_def abs_zmm_def clip_def vop2_def vec_sample_def)
  then show ?thesis
    using zmm_binop_rewrite [of vpxorq_zmm_and_zmm_gen OP_vpxor 17 10 17 DR_REG_K0 vec_sample] by (auto simp: zmm_gens_def)
qed

text \<open>
  C33. \<open>vpsubd\<close> on \<open>zmm\<close> registers is rewritten only if all three registers are
  below \<open>zmm16\<close>; then the emitted code is right. In the other cases the function destroys the
  original instruction and returns no replacement.
\<close>

theorem vpsubd_zmm_rewrite:
  assumes "a < 32" "b < 32" "d < 32"
  shows "if a < 16 \<and> b < 16 \<and> d < 16
     then \<exists>chain t. vpsubd_zmm_and_zmm_gen (DR_REG_ZMM0 + a) (DR_REG_ZMM0 + b) (DR_REG_ZMM0 + d) mask_reg = Rw True chain
       \<and> exec chain s = Inr t \<and> abs_state t = spec_zmm OP_vpsubd d a b (abs_state s)
     else vpsubd_zmm_and_zmm_gen (DR_REG_ZMM0 + a) (DR_REG_ZMM0 + b) (DR_REG_ZMM0 + d) mask_reg = RwNull True"
  using vpsubd_zmm_case_0_run [of OP_vpsubd a b d s] need_spill_reg [OF assms]
  by (auto simp: vpsubd_zmm_and_zmm_gen_def vops_def)

theorem vpsubd_zmm_rewrite_witness:
  "vpsubd_zmm_and_zmm_gen (DR_REG_ZMM0 + 1) (DR_REG_ZMM0 + 2) (DR_REG_ZMM0 + 16) DR_REG_K0 = RwNull True"
  using vpsubd_zmm_rewrite [of 1 2 16 DR_REG_K0] by simp

end
