(* ===== verification/Vec_Low.thy ===== *)
theory Vec_Low
  imports Vec_Rules
begin

text \<open>
  The rewriting of operations on three \<open>xmm\<close> or \<open>ymm\<close> registers (\<open>core/arch/rewrite.c\<close>). The
  functions differ in the emitted opcode, in the register class and in how they choose scratch
  registers when two operands are above register 15. The code for no such operand, for one
  such source and for three is the same in all of them; for the rest there are three
  variants: fixed scratch registers (\<open>vpsubw\<close>, \<open>vpsubd\<close>, \<open>vpsubq\<close> on \<open>ymm\<close>, \<open>vpsubw\<close> and
  \<open>vpsllq\<close> on \<open>xmm\<close>, the four unpack instructions, \<open>vmovss\<close> and \<open>vmovsd\<close>), scratch registers
  that avoid the operands (\<open>vpaddd\<close> on \<open>ymm\<close>), and the one of \<open>vpaddw\<close>, \<open>vpaddd\<close>, \<open>vpsubd\<close> and
  \<open>vpsubq\<close> on \<open>xmm\<close>.
\<close>

section \<open>Registers of a class\<close>

fun SPILL_SLOT0 :: "vclass \<Rightarrow> reg_id" where
  "SPILL_SLOT0 XMM = DR_REG_XMM10"
| "SPILL_SLOT0 YMM = DR_REG_YMM10"

fun SPILL_SLOT1 :: "vclass \<Rightarrow> reg_id" where
  "SPILL_SLOT1 XMM = DR_REG_XMM11"
| "SPILL_SLOT1 YMM = DR_REG_YMM11"

fun find_one_available_spill :: "vclass \<Rightarrow> reg_id \<Rightarrow> reg_id" where
  "find_one_available_spill XMM = find_one_available_spill_xmm"
| "find_one_available_spill YMM = find_one_available_spill_ymm"

fun find_available_spill_avoiding :: "vclass \<Rightarrow> reg_id \<Rightarrow> reg_id \<Rightarrow> reg_id \<Rightarrow> reg_id" where
  "find_available_spill_avoiding XMM = find_available_spill_xmm_avoiding"
| "find_available_spill_avoiding YMM = find_available_spill_ymm_avoiding"

fun REG_INDEX :: "vclass \<Rightarrow> reg_id \<Rightarrow> int" where
  "REG_INDEX XMM = TO_XMM_REG_INDEX"
| "REG_INDEX YMM = TO_YMM_REG_INDEX"

fun NEED_SPILL :: "vclass \<Rightarrow> reg_id \<Rightarrow> bool" where
  "NEED_SPILL XMM = NEED_SPILL_XMM"
| "NEED_SPILL YMM = NEED_SPILL_YMM"

section \<open>The cases\<close>

text \<open>No register above 15, one source above 15, all three above 15.\<close>

definition low_case_0 :: "vclass \<Rightarrow> opcode \<Rightarrow> reg_id \<Rightarrow> reg_id \<Rightarrow> reg_id \<Rightarrow> instr list" where
  "low_case_0 c opc src1 src2 dst =
     ([Instr opc [OReg dst] [OReg src1, OReg src2]])"

definition low_case_1 :: "vclass \<Rightarrow> opcode \<Rightarrow> reg_id \<Rightarrow> reg_id \<Rightarrow> reg_id \<Rightarrow> instr list" where
  "low_case_1 c opc src1 src2 dst =
     (let spill_src1_reg = (if src2 = dst then find_one_available_spill c src2 else find_available_spill_avoiding c src2 dst DR_REG_NULL)
      in [SAVE_SIMD_TO_SIZED_TLS spill_src1_reg (TLS_ZMM_idx_SLOT (REG_INDEX c spill_src1_reg)) (opsz c),
          RESTORE_SIMD_FROM_SIZED_TLS spill_src1_reg (TLS_ZMM_idx_SLOT (REG_INDEX c src1)) (opsz c),
          Instr opc [OReg dst] [OReg spill_src1_reg, OReg src2],
          RESTORE_SIMD_FROM_SIZED_TLS spill_src1_reg (TLS_ZMM_idx_SLOT (REG_INDEX c spill_src1_reg)) (opsz c)])"

definition low_case_2 :: "vclass \<Rightarrow> opcode \<Rightarrow> reg_id \<Rightarrow> reg_id \<Rightarrow> reg_id \<Rightarrow> instr list" where
  "low_case_2 c opc src1 src2 dst =
     (let spill_src2_reg = (if src1 = dst then find_one_available_spill c src2 else find_available_spill_avoiding c src1 dst DR_REG_NULL)
      in [SAVE_SIMD_TO_SIZED_TLS spill_src2_reg (TLS_ZMM_idx_SLOT (REG_INDEX c spill_src2_reg)) (opsz c),
          RESTORE_SIMD_FROM_SIZED_TLS spill_src2_reg (TLS_ZMM_idx_SLOT (REG_INDEX c src2)) (opsz c),
          Instr opc [OReg dst] [OReg src1, OReg spill_src2_reg],
          RESTORE_SIMD_FROM_SIZED_TLS spill_src2_reg (TLS_ZMM_idx_SLOT (REG_INDEX c spill_src2_reg)) (opsz c)])"

definition low_case_7 :: "vclass \<Rightarrow> opcode \<Rightarrow> reg_id \<Rightarrow> reg_id \<Rightarrow> reg_id \<Rightarrow> instr list" where
  "low_case_7 c opc src1 src2 dst =
     (if src1 = dst \<and> src2 = dst
      then let spill_reg = SPILL_SLOT0 c
        in [SAVE_SIMD_TO_SIZED_TLS spill_reg (TLS_ZMM_idx_SLOT (REG_INDEX c spill_reg)) (opsz c),
            RESTORE_SIMD_FROM_SIZED_TLS spill_reg (TLS_ZMM_idx_SLOT (REG_INDEX c src1)) (opsz c),
            Instr opc [OReg spill_reg] [OReg spill_reg, OReg spill_reg],
            SAVE_SIMD_TO_SIZED_TLS spill_reg (TLS_ZMM_idx_SLOT (REG_INDEX c dst)) (opsz c),
            RESTORE_SIMD_FROM_SIZED_TLS spill_reg (TLS_ZMM_idx_SLOT (REG_INDEX c spill_reg)) (opsz c)]
      else if src1 = dst
      then let spill_src1_reg = SPILL_SLOT0 c;
            spill_src2_reg = SPILL_SLOT1 c;
            spill_dst_reg = spill_src1_reg
        in [SAVE_SIMD_TO_SIZED_TLS spill_src1_reg (TLS_ZMM_idx_SLOT (REG_INDEX c spill_src1_reg)) (opsz c),
            SAVE_SIMD_TO_SIZED_TLS spill_src2_reg (TLS_ZMM_idx_SLOT (REG_INDEX c spill_src2_reg)) (opsz c),
            RESTORE_SIMD_FROM_SIZED_TLS spill_src1_reg (TLS_ZMM_idx_SLOT (REG_INDEX c src1)) (opsz c),
            RESTORE_SIMD_FROM_SIZED_TLS spill_src2_reg (TLS_ZMM_idx_SLOT (REG_INDEX c src2)) (opsz c),
            Instr opc [OReg spill_dst_reg] [OReg spill_src1_reg, OReg spill_src2_reg],
            SAVE_SIMD_TO_SIZED_TLS spill_dst_reg (TLS_ZMM_idx_SLOT (REG_INDEX c dst)) (opsz c),
            RESTORE_SIMD_FROM_SIZED_TLS spill_src1_reg (TLS_ZMM_idx_SLOT (REG_INDEX c spill_src1_reg)) (opsz c),
            RESTORE_SIMD_FROM_SIZED_TLS spill_src2_reg (TLS_ZMM_idx_SLOT (REG_INDEX c spill_src2_reg)) (opsz c)]
      else if src2 = dst
      then let spill_src1_reg = SPILL_SLOT0 c;
            spill_src2_reg = SPILL_SLOT1 c;
            spill_dst_reg = spill_src2_reg
        in [SAVE_SIMD_TO_SIZED_TLS spill_src1_reg (TLS_ZMM_idx_SLOT (REG_INDEX c spill_src1_reg)) (opsz c),
            SAVE_SIMD_TO_SIZED_TLS spill_src2_reg (TLS_ZMM_idx_SLOT (REG_INDEX c spill_src2_reg)) (opsz c),
            RESTORE_SIMD_FROM_SIZED_TLS spill_src1_reg (TLS_ZMM_idx_SLOT (REG_INDEX c src1)) (opsz c),
            RESTORE_SIMD_FROM_SIZED_TLS spill_src2_reg (TLS_ZMM_idx_SLOT (REG_INDEX c src2)) (opsz c),
            Instr opc [OReg spill_dst_reg] [OReg spill_src1_reg, OReg spill_src2_reg],
            SAVE_SIMD_TO_SIZED_TLS spill_dst_reg (TLS_ZMM_idx_SLOT (REG_INDEX c dst)) (opsz c),
            RESTORE_SIMD_FROM_SIZED_TLS spill_src1_reg (TLS_ZMM_idx_SLOT (REG_INDEX c spill_src1_reg)) (opsz c),
            RESTORE_SIMD_FROM_SIZED_TLS spill_src2_reg (TLS_ZMM_idx_SLOT (REG_INDEX c spill_src2_reg)) (opsz c)]
      else let spill_src1_reg = SPILL_SLOT0 c;
            spill_src2_reg = SPILL_SLOT1 c;
            spill_dst_reg = spill_src1_reg
        in [SAVE_SIMD_TO_SIZED_TLS spill_src1_reg (TLS_ZMM_idx_SLOT (REG_INDEX c spill_src1_reg)) (opsz c),
            SAVE_SIMD_TO_SIZED_TLS spill_src2_reg (TLS_ZMM_idx_SLOT (REG_INDEX c spill_src2_reg)) (opsz c),
            RESTORE_SIMD_FROM_SIZED_TLS spill_src1_reg (TLS_ZMM_idx_SLOT (REG_INDEX c src1)) (opsz c),
            RESTORE_SIMD_FROM_SIZED_TLS spill_src2_reg (TLS_ZMM_idx_SLOT (REG_INDEX c src2)) (opsz c),
            Instr opc [OReg spill_dst_reg] [OReg spill_src1_reg, OReg spill_src2_reg],
            SAVE_SIMD_TO_SIZED_TLS spill_dst_reg (TLS_ZMM_idx_SLOT (REG_INDEX c dst)) (opsz c),
            RESTORE_SIMD_FROM_SIZED_TLS spill_src1_reg (TLS_ZMM_idx_SLOT (REG_INDEX c spill_src1_reg)) (opsz c),
            RESTORE_SIMD_FROM_SIZED_TLS spill_src2_reg (TLS_ZMM_idx_SLOT (REG_INDEX c spill_src2_reg)) (opsz c)])"

text \<open>Two registers or the destination above 15, with fixed scratch registers.\<close>

definition fixed_case_3 :: "vclass \<Rightarrow> opcode \<Rightarrow> reg_id \<Rightarrow> reg_id \<Rightarrow> reg_id \<Rightarrow> instr list" where
  "fixed_case_3 c opc src1 src2 dst =
     (let spill_src1_reg = SPILL_SLOT0 c;
          spill_src2_reg = SPILL_SLOT1 c
      in [SAVE_SIMD_TO_SIZED_TLS spill_src1_reg (TLS_ZMM_idx_SLOT (REG_INDEX c spill_src1_reg)) (opsz c),
          SAVE_SIMD_TO_SIZED_TLS spill_src2_reg (TLS_ZMM_idx_SLOT (REG_INDEX c spill_src2_reg)) (opsz c),
          RESTORE_SIMD_FROM_SIZED_TLS spill_src1_reg (TLS_ZMM_idx_SLOT (REG_INDEX c src1)) (opsz c),
          RESTORE_SIMD_FROM_SIZED_TLS spill_src2_reg (TLS_ZMM_idx_SLOT (REG_INDEX c src2)) (opsz c),
          Instr opc [OReg dst] [OReg spill_src1_reg, OReg spill_src2_reg],
          RESTORE_SIMD_FROM_SIZED_TLS spill_src1_reg (TLS_ZMM_idx_SLOT (REG_INDEX c spill_src1_reg)) (opsz c),
          RESTORE_SIMD_FROM_SIZED_TLS spill_src2_reg (TLS_ZMM_idx_SLOT (REG_INDEX c spill_src2_reg)) (opsz c)])"

definition fixed_case_4 :: "vclass \<Rightarrow> opcode \<Rightarrow> reg_id \<Rightarrow> reg_id \<Rightarrow> reg_id \<Rightarrow> instr list" where
  "fixed_case_4 c opc src1 src2 dst =
     (let spill_dst_reg = SPILL_SLOT0 c
      in [SAVE_SIMD_TO_SIZED_TLS spill_dst_reg (TLS_ZMM_idx_SLOT (REG_INDEX c spill_dst_reg)) (opsz c),
          Instr opc [OReg spill_dst_reg] [OReg src1, OReg src2],
          SAVE_SIMD_TO_SIZED_TLS spill_dst_reg (TLS_ZMM_idx_SLOT (REG_INDEX c dst)) (opsz c),
          RESTORE_SIMD_FROM_SIZED_TLS spill_dst_reg (TLS_ZMM_idx_SLOT (REG_INDEX c spill_dst_reg)) (opsz c)])"

definition fixed_case_5 :: "vclass \<Rightarrow> opcode \<Rightarrow> reg_id \<Rightarrow> reg_id \<Rightarrow> reg_id \<Rightarrow> instr list" where
  "fixed_case_5 c opc src1 src2 dst =
     (let spill_src1_reg = SPILL_SLOT0 c;
          spill_dst_reg = SPILL_SLOT1 c
      in [SAVE_SIMD_TO_SIZED_TLS spill_src1_reg (TLS_ZMM_idx_SLOT (REG_INDEX c spill_src1_reg)) (opsz c),
          SAVE_SIMD_TO_SIZED_TLS spill_dst_reg (TLS_ZMM_idx_SLOT (REG_INDEX c spill_dst_reg)) (opsz c),
          RESTORE_SIMD_FROM_SIZED_TLS spill_src1_reg (TLS_ZMM_idx_SLOT (REG_INDEX c src1)) (opsz c),
          Instr opc [OReg spill_dst_reg] [OReg spill_src1_reg, OReg src2],
          SAVE_SIMD_TO_SIZED_TLS spill_dst_reg (TLS_ZMM_idx_SLOT (REG_INDEX c dst)) (opsz c),
          RESTORE_SIMD_FROM_SIZED_TLS spill_src1_reg (TLS_ZMM_idx_SLOT (REG_INDEX c spill_src1_reg)) (opsz c),
          RESTORE_SIMD_FROM_SIZED_TLS spill_dst_reg (TLS_ZMM_idx_SLOT (REG_INDEX c spill_dst_reg)) (opsz c)])"

definition fixed_case_6 :: "vclass \<Rightarrow> opcode \<Rightarrow> reg_id \<Rightarrow> reg_id \<Rightarrow> reg_id \<Rightarrow> instr list" where
  "fixed_case_6 c opc src1 src2 dst =
     (let spill_src2_reg = SPILL_SLOT0 c;
          spill_dst_reg = SPILL_SLOT1 c
      in [SAVE_SIMD_TO_SIZED_TLS spill_src2_reg (TLS_ZMM_idx_SLOT (REG_INDEX c spill_src2_reg)) (opsz c),
          SAVE_SIMD_TO_SIZED_TLS spill_dst_reg (TLS_ZMM_idx_SLOT (REG_INDEX c spill_dst_reg)) (opsz c),
          RESTORE_SIMD_FROM_SIZED_TLS spill_src2_reg (TLS_ZMM_idx_SLOT (REG_INDEX c src2)) (opsz c),
          Instr opc [OReg spill_dst_reg] [OReg src1, OReg spill_src2_reg],
          SAVE_SIMD_TO_SIZED_TLS spill_dst_reg (TLS_ZMM_idx_SLOT (REG_INDEX c dst)) (opsz c),
          RESTORE_SIMD_FROM_SIZED_TLS spill_src2_reg (TLS_ZMM_idx_SLOT (REG_INDEX c spill_src2_reg)) (opsz c),
          RESTORE_SIMD_FROM_SIZED_TLS spill_dst_reg (TLS_ZMM_idx_SLOT (REG_INDEX c spill_dst_reg)) (opsz c)])"

text \<open>The same with scratch registers that avoid the operands.\<close>

definition avoid_case_3 :: "vclass \<Rightarrow> opcode \<Rightarrow> reg_id \<Rightarrow> reg_id \<Rightarrow> reg_id \<Rightarrow> instr list" where
  "avoid_case_3 c opc src1 src2 dst =
     (let spill_src1_reg = find_available_spill_avoiding c dst DR_REG_NULL DR_REG_NULL;
          spill_src2_reg = find_available_spill_avoiding c dst spill_src1_reg DR_REG_NULL
      in [SAVE_SIMD_TO_SIZED_TLS spill_src1_reg (TLS_ZMM_idx_SLOT (REG_INDEX c spill_src1_reg)) (opsz c),
          SAVE_SIMD_TO_SIZED_TLS spill_src2_reg (TLS_ZMM_idx_SLOT (REG_INDEX c spill_src2_reg)) (opsz c),
          RESTORE_SIMD_FROM_SIZED_TLS spill_src1_reg (TLS_ZMM_idx_SLOT (REG_INDEX c src1)) (opsz c),
          RESTORE_SIMD_FROM_SIZED_TLS spill_src2_reg (TLS_ZMM_idx_SLOT (REG_INDEX c src2)) (opsz c),
          Instr opc [OReg dst] [OReg spill_src1_reg, OReg spill_src2_reg],
          RESTORE_SIMD_FROM_SIZED_TLS spill_src1_reg (TLS_ZMM_idx_SLOT (REG_INDEX c spill_src1_reg)) (opsz c),
          RESTORE_SIMD_FROM_SIZED_TLS spill_src2_reg (TLS_ZMM_idx_SLOT (REG_INDEX c spill_src2_reg)) (opsz c)])"

definition avoid_case_4 :: "vclass \<Rightarrow> opcode \<Rightarrow> reg_id \<Rightarrow> reg_id \<Rightarrow> reg_id \<Rightarrow> instr list" where
  "avoid_case_4 c opc src1 src2 dst =
     (let spill_dst_reg = find_available_spill_avoiding c src1 src2 DR_REG_NULL
      in [SAVE_SIMD_TO_SIZED_TLS spill_dst_reg (TLS_ZMM_idx_SLOT (REG_INDEX c spill_dst_reg)) (opsz c),
          Instr opc [OReg spill_dst_reg] [OReg src1, OReg src2],
          SAVE_SIMD_TO_SIZED_TLS spill_dst_reg (TLS_ZMM_idx_SLOT (REG_INDEX c dst)) (opsz c),
          RESTORE_SIMD_FROM_SIZED_TLS spill_dst_reg (TLS_ZMM_idx_SLOT (REG_INDEX c spill_dst_reg)) (opsz c)])"

definition avoid_case_5 :: "vclass \<Rightarrow> opcode \<Rightarrow> reg_id \<Rightarrow> reg_id \<Rightarrow> reg_id \<Rightarrow> instr list" where
  "avoid_case_5 c opc src1 src2 dst =
     (let spill_src1_reg = find_available_spill_avoiding c src2 DR_REG_NULL DR_REG_NULL;
          spill_dst_reg = find_available_spill_avoiding c src2 spill_src1_reg DR_REG_NULL
      in [SAVE_SIMD_TO_SIZED_TLS spill_src1_reg (TLS_ZMM_idx_SLOT (REG_INDEX c spill_src1_reg)) (opsz c),
          SAVE_SIMD_TO_SIZED_TLS spill_dst_reg (TLS_ZMM_idx_SLOT (REG_INDEX c spill_dst_reg)) (opsz c),
          RESTORE_SIMD_FROM_SIZED_TLS spill_src1_reg (TLS_ZMM_idx_SLOT (REG_INDEX c src1)) (opsz c),
          Instr opc [OReg spill_dst_reg] [OReg spill_src1_reg, OReg src2],
          SAVE_SIMD_TO_SIZED_TLS spill_dst_reg (TLS_ZMM_idx_SLOT (REG_INDEX c dst)) (opsz c),
          RESTORE_SIMD_FROM_SIZED_TLS spill_src1_reg (TLS_ZMM_idx_SLOT (REG_INDEX c spill_src1_reg)) (opsz c),
          RESTORE_SIMD_FROM_SIZED_TLS spill_dst_reg (TLS_ZMM_idx_SLOT (REG_INDEX c spill_dst_reg)) (opsz c)])"

definition avoid_case_6 :: "vclass \<Rightarrow> opcode \<Rightarrow> reg_id \<Rightarrow> reg_id \<Rightarrow> reg_id \<Rightarrow> instr list" where
  "avoid_case_6 c opc src1 src2 dst =
     (let spill_src2_reg = find_available_spill_avoiding c src1 DR_REG_NULL DR_REG_NULL;
          spill_dst_reg = find_available_spill_avoiding c src1 spill_src2_reg DR_REG_NULL
      in [SAVE_SIMD_TO_SIZED_TLS spill_src2_reg (TLS_ZMM_idx_SLOT (REG_INDEX c spill_src2_reg)) (opsz c),
          SAVE_SIMD_TO_SIZED_TLS spill_dst_reg (TLS_ZMM_idx_SLOT (REG_INDEX c spill_dst_reg)) (opsz c),
          RESTORE_SIMD_FROM_SIZED_TLS spill_src2_reg (TLS_ZMM_idx_SLOT (REG_INDEX c src2)) (opsz c),
          Instr opc [OReg spill_dst_reg] [OReg src1, OReg spill_src2_reg],
          SAVE_SIMD_TO_SIZED_TLS spill_dst_reg (TLS_ZMM_idx_SLOT (REG_INDEX c dst)) (opsz c),
          RESTORE_SIMD_FROM_SIZED_TLS spill_src2_reg (TLS_ZMM_idx_SLOT (REG_INDEX c spill_src2_reg)) (opsz c),
          RESTORE_SIMD_FROM_SIZED_TLS spill_dst_reg (TLS_ZMM_idx_SLOT (REG_INDEX c spill_dst_reg)) (opsz c)])"

text \<open>The same in the variant of the \<open>xmm\<close> functions.\<close>

definition xmm_case_3 :: "vclass \<Rightarrow> opcode \<Rightarrow> reg_id \<Rightarrow> reg_id \<Rightarrow> reg_id \<Rightarrow> instr list" where
  "xmm_case_3 c opc src1 src2 dst =
     (let spill_src1 = find_one_available_spill c dst;
          spill_src2 = find_available_spill_avoiding c spill_src1 dst DR_REG_NULL
      in [SAVE_SIMD_TO_SIZED_TLS spill_src1 (TLS_ZMM_idx_SLOT (REG_INDEX c spill_src1)) (opsz c),
          SAVE_SIMD_TO_SIZED_TLS spill_src2 (TLS_ZMM_idx_SLOT (REG_INDEX c spill_src2)) (opsz c),
          RESTORE_SIMD_FROM_SIZED_TLS spill_src1 (TLS_ZMM_idx_SLOT (REG_INDEX c src1)) (opsz c),
          RESTORE_SIMD_FROM_SIZED_TLS spill_src2 (TLS_ZMM_idx_SLOT (REG_INDEX c src2)) (opsz c),
          Instr opc [OReg dst] [OReg spill_src1, OReg spill_src2],
          RESTORE_SIMD_FROM_SIZED_TLS spill_src1 (TLS_ZMM_idx_SLOT (REG_INDEX c spill_src1)) (opsz c),
          RESTORE_SIMD_FROM_SIZED_TLS spill_src1 (TLS_ZMM_idx_SLOT (REG_INDEX c spill_src1)) (opsz c)])"

definition xmm_case_4 :: "vclass \<Rightarrow> opcode \<Rightarrow> reg_id \<Rightarrow> reg_id \<Rightarrow> reg_id \<Rightarrow> instr list" where
  "xmm_case_4 c opc src1 src2 dst =
     (let spill_dst_reg = find_available_spill_avoiding c src1 src2 DR_REG_NULL
      in [SAVE_SIMD_TO_SIZED_TLS spill_dst_reg (TLS_ZMM_idx_SLOT (REG_INDEX c spill_dst_reg)) (opsz c),
          Instr opc [OReg spill_dst_reg] [OReg src1, OReg src2],
          SAVE_SIMD_TO_SIZED_TLS spill_dst_reg (TLS_ZMM_idx_SLOT (REG_INDEX c dst)) (opsz c),
          RESTORE_SIMD_FROM_SIZED_TLS spill_dst_reg (TLS_ZMM_idx_SLOT (REG_INDEX c spill_dst_reg)) (opsz c)])"

definition xmm_case_5 :: "vclass \<Rightarrow> opcode \<Rightarrow> reg_id \<Rightarrow> reg_id \<Rightarrow> reg_id \<Rightarrow> instr list" where
  "xmm_case_5 c opc src1 src2 dst =
     (let spill_src1 = find_one_available_spill c src2;
          spill_dst = spill_src1
      in [SAVE_SIMD_TO_SIZED_TLS spill_src1 (TLS_ZMM_idx_SLOT (REG_INDEX c spill_src1)) (opsz c),
          RESTORE_SIMD_FROM_SIZED_TLS spill_src1 (TLS_ZMM_idx_SLOT (REG_INDEX c src1)) (opsz c),
          Instr opc [OReg spill_dst] [OReg spill_src1, OReg src2],
          SAVE_SIMD_TO_SIZED_TLS spill_dst (TLS_ZMM_idx_SLOT (REG_INDEX c dst)) (opsz c),
          RESTORE_SIMD_FROM_SIZED_TLS spill_src1 (TLS_ZMM_idx_SLOT (REG_INDEX c spill_src1)) (opsz c)])"

definition xmm_case_6 :: "vclass \<Rightarrow> opcode \<Rightarrow> reg_id \<Rightarrow> reg_id \<Rightarrow> reg_id \<Rightarrow> instr list" where
  "xmm_case_6 c opc src1 src2 dst =
     (let spill_src2 = find_one_available_spill c src1;
          spill_dst = spill_src2
      in [SAVE_SIMD_TO_SIZED_TLS spill_src2 (TLS_ZMM_idx_SLOT (REG_INDEX c spill_src2)) (opsz c),
          RESTORE_SIMD_FROM_SIZED_TLS spill_src2 (TLS_ZMM_idx_SLOT (REG_INDEX c src2)) (opsz c),
          Instr opc [OReg spill_dst] [OReg src1, OReg spill_src2],
          SAVE_SIMD_TO_SIZED_TLS spill_dst (TLS_ZMM_idx_SLOT (REG_INDEX c dst)) (opsz c),
          RESTORE_SIMD_FROM_SIZED_TLS src1 (TLS_ZMM_idx_SLOT (REG_INDEX c src1)) (opsz c)])"

section \<open>The functions\<close>

definition low_need_spill :: "vclass \<Rightarrow> reg_id \<Rightarrow> reg_id \<Rightarrow> reg_id \<Rightarrow> nat" where
  "low_need_spill c src1 src2 dst =
     (if NEED_SPILL c src1 then 1 else 0) + (if NEED_SPILL c src2 then 2 else 0) + (if NEED_SPILL c dst then 4 else 0)"

definition fixed_gen :: "vclass \<Rightarrow> opcode \<Rightarrow> reg_id \<Rightarrow> reg_id \<Rightarrow> reg_id \<Rightarrow> rw_result" where
  "fixed_gen c opc src1 src2 dst =
     (let n = low_need_spill c src1 src2 dst in
      if n = 0 then Rw True (low_case_0 c opc src1 src2 dst)
      else if n = 1 then Rw True (low_case_1 c opc src1 src2 dst)
      else if n = 2 then Rw True (low_case_2 c opc src1 src2 dst)
      else if n = 3 then Rw True (fixed_case_3 c opc src1 src2 dst)
      else if n = 4 then Rw True (fixed_case_4 c opc src1 src2 dst)
      else if n = 5 then Rw True (fixed_case_5 c opc src1 src2 dst)
      else if n = 6 then Rw True (fixed_case_6 c opc src1 src2 dst)
      else if n = 7 then Rw True (low_case_7 c opc src1 src2 dst)
      else RwNull True)"

definition avoid_gen :: "vclass \<Rightarrow> opcode \<Rightarrow> reg_id \<Rightarrow> reg_id \<Rightarrow> reg_id \<Rightarrow> rw_result" where
  "avoid_gen c opc src1 src2 dst =
     (let n = low_need_spill c src1 src2 dst in
      if n = 0 then Rw True (low_case_0 c opc src1 src2 dst)
      else if n = 1 then Rw True (low_case_1 c opc src1 src2 dst)
      else if n = 2 then Rw True (low_case_2 c opc src1 src2 dst)
      else if n = 3 then Rw True (avoid_case_3 c opc src1 src2 dst)
      else if n = 4 then Rw True (avoid_case_4 c opc src1 src2 dst)
      else if n = 5 then Rw True (avoid_case_5 c opc src1 src2 dst)
      else if n = 6 then Rw True (avoid_case_6 c opc src1 src2 dst)
      else if n = 7 then Rw True (low_case_7 c opc src1 src2 dst)
      else RwNull True)"

definition xmm_variant_gen :: "vclass \<Rightarrow> opcode \<Rightarrow> reg_id \<Rightarrow> reg_id \<Rightarrow> reg_id \<Rightarrow> rw_result" where
  "xmm_variant_gen c opc src1 src2 dst =
     (let n = low_need_spill c src1 src2 dst in
      if n = 0 then Rw True (low_case_0 c opc src1 src2 dst)
      else if n = 1 then Rw True (low_case_1 c opc src1 src2 dst)
      else if n = 2 then Rw True (low_case_2 c opc src1 src2 dst)
      else if n = 3 then Rw True (xmm_case_3 c opc src1 src2 dst)
      else if n = 4 then Rw True (xmm_case_4 c opc src1 src2 dst)
      else if n = 5 then Rw True (xmm_case_5 c opc src1 src2 dst)
      else if n = 6 then Rw True (xmm_case_6 c opc src1 src2 dst)
      else if n = 7 then Rw True (low_case_7 c opc src1 src2 dst)
      else RwNull True)"

definition vpsubw_ymm_and_ymm_gen :: "reg_id \<Rightarrow> reg_id \<Rightarrow> reg_id \<Rightarrow> reg_id \<Rightarrow> rw_result" where
  "vpsubw_ymm_and_ymm_gen src1 src2 dst mask_reg = fixed_gen YMM OP_vpsubw src1 src2 dst"

definition vpsubd_ymm_and_ymm_gen :: "reg_id \<Rightarrow> reg_id \<Rightarrow> reg_id \<Rightarrow> reg_id \<Rightarrow> rw_result" where
  "vpsubd_ymm_and_ymm_gen src1 src2 dst mask_reg = fixed_gen YMM OP_vpsubd src1 src2 dst"

definition vpsubq_ymm_and_ymm_gen :: "reg_id \<Rightarrow> reg_id \<Rightarrow> reg_id \<Rightarrow> reg_id \<Rightarrow> rw_result" where
  "vpsubq_ymm_and_ymm_gen src1 src2 dst mask_reg = fixed_gen YMM OP_vpsubq src1 src2 dst"

definition vpsubw_xmm_and_xmm_gen :: "reg_id \<Rightarrow> reg_id \<Rightarrow> reg_id \<Rightarrow> reg_id \<Rightarrow> rw_result" where
  "vpsubw_xmm_and_xmm_gen src1 src2 dst mask_reg = fixed_gen XMM OP_vpsubw src1 src2 dst"

definition vpsllq_xmm2xmm_gen :: "reg_id \<Rightarrow> reg_id \<Rightarrow> reg_id \<Rightarrow> reg_id \<Rightarrow> rw_result" where
  "vpsllq_xmm2xmm_gen src1 src2 dst mask_reg = fixed_gen XMM OP_vpsllq src1 src2 dst"

definition vpaddd_ymm_and_ymm_gen :: "reg_id \<Rightarrow> reg_id \<Rightarrow> reg_id \<Rightarrow> reg_id \<Rightarrow> rw_result" where
  "vpaddd_ymm_and_ymm_gen src1 src2 dst mask_reg = avoid_gen YMM OP_vpaddd src1 src2 dst"

definition vpaddw_xmm_and_xmm_gen :: "reg_id \<Rightarrow> reg_id \<Rightarrow> reg_id \<Rightarrow> reg_id \<Rightarrow> rw_result" where
  "vpaddw_xmm_and_xmm_gen src1 src2 dst mask_reg = xmm_variant_gen XMM OP_vpaddw src1 src2 dst"

definition vpaddd_xmm_and_xmm_gen :: "reg_id \<Rightarrow> reg_id \<Rightarrow> reg_id \<Rightarrow> reg_id \<Rightarrow> rw_result" where
  "vpaddd_xmm_and_xmm_gen src1 src2 dst mask_reg = xmm_variant_gen XMM OP_vpaddd src1 src2 dst"

definition vpsubd_xmm_and_xmm_gen :: "reg_id \<Rightarrow> reg_id \<Rightarrow> reg_id \<Rightarrow> reg_id \<Rightarrow> rw_result" where
  "vpsubd_xmm_and_xmm_gen src1 src2 dst mask_reg = xmm_variant_gen XMM OP_vpsubd src1 src2 dst"

definition vpsubq_xmm_and_xmm_gen :: "reg_id \<Rightarrow> reg_id \<Rightarrow> reg_id \<Rightarrow> reg_id \<Rightarrow> rw_result" where
  "vpsubq_xmm_and_xmm_gen src1 src2 dst mask_reg = xmm_variant_gen XMM OP_vpsubq src1 src2 dst"

text \<open>
  These rewrite functions contain the code themselves. They read two source registers after
  the mask and the destination; \<open>vmovsd\<close> emits \<open>vmovss\<close>.
\<close>

definition three_regs :: "(reg_id \<Rightarrow> reg_id \<Rightarrow> reg_id \<Rightarrow> rw_result) \<Rightarrow> instr \<Rightarrow> rw_result" where
  "three_regs f i = (case (src_reg i 1, src_reg i 2, dst_reg i 0) of
     (Some src1, Some src2, Some dst) \<Rightarrow> f src1 src2 dst | _ \<Rightarrow> RwCrash)"

definition rw_func_vunpcklps :: "instr \<Rightarrow> rw_result" where
  "rw_func_vunpcklps = three_regs (fixed_gen XMM OP_vunpcklps)"

definition rw_func_vunpcklpd :: "instr \<Rightarrow> rw_result" where
  "rw_func_vunpcklpd = three_regs (fixed_gen XMM OP_vunpcklpd)"

definition rw_func_vunpckhps :: "instr \<Rightarrow> rw_result" where
  "rw_func_vunpckhps = three_regs (fixed_gen XMM OP_vunpckhps)"

definition rw_func_vunpckhpd :: "instr \<Rightarrow> rw_result" where
  "rw_func_vunpckhpd = three_regs (fixed_gen XMM OP_vunpckhpd)"

definition rw_func_vmovss :: "instr \<Rightarrow> rw_result" where
  "rw_func_vmovss = three_regs (fixed_gen XMM OP_vmovss)"

definition rw_func_vmovsd :: "instr \<Rightarrow> rw_result" where
  "rw_func_vmovsd = three_regs (fixed_gen XMM OP_vmovss)"

section \<open>Emitted code as assignments\<close>

text \<open>
  The registers \<open>es\<close> are saved, the operands \<open>ls\<close> above register 15 loaded into some of them, the
  operation performed, its result stored if the destination is above register 15, and the
  registers \<open>rs\<close> restored.
\<close>

definition low_loads :: "(nat \<times> nat) list \<Rightarrow> (nat \<times> nat \<times> bool) list" where
  "low_loads ls = map (\<lambda>(e, z). (e, z, False)) ls"

definition low_code :: "opcode \<Rightarrow> nat list \<Rightarrow> (nat \<times> nat) list \<Rightarrow> nat \<Rightarrow> nat \<Rightarrow> nat \<Rightarrow> nat \<Rightarrow> nat list \<Rightarrow> asn list" where
  "low_code opc es ls d dl al bl rs = saves es @ loads (low_loads ls) @ [Bin opc (Y dl) (Y al) (Y bl)]
     @ (if d < 16 then [] else [Move (Z d False) (Y dl)]) @ restores rs"

text \<open>What a register holds after the loads.\<close>

definition loaded :: "(nat \<times> nat) list \<Rightarrow> cstate \<Rightarrow> nat \<Rightarrow> vec" where
  "loaded ls \<sigma> k = (case map_of ls k of None \<Rightarrow> \<sigma> (Y k) | Some z \<Rightarrow> \<sigma> (Z z False))"

lemma fst_low_loads: "map fst (low_loads ls) = map fst ls" by (auto simp: low_loads_def)

lemma map_of_low_loads: "map_of (low_loads ls) k = map_option (\<lambda>z. (z, False)) (map_of ls k)"
  by (induction ls) (auto simp: low_loads_def)

lemma low_code_run:
  assumes "set es \<subseteq> {..<16}" "distinct (map fst ls)" "snd ` set ls \<subseteq> {16..}"
    and \<tau>_def: "\<tau> = fold (grun c) (low_code opc es ls d dl al bl rs) \<sigma>"
    and v_def: "v = clip (opsz c) (vop2 opc (loaded ls \<sigma> al) (loaded ls \<sigma> bl))"
  shows "\<tau> (Z r h) = (if r = d \<and> 16 \<le> d \<and> \<not> h then v else if r \<in> set es \<and> \<not> h then \<sigma> (Y r) else \<sigma> (Z r h))"
    and "r < 16 \<Longrightarrow> \<tau> (Y r) = (if r \<in> set rs then (if r \<in> set es then \<sigma> (Y r) else \<sigma> (Z r False))
       else if r = dl then v else loaded ls \<sigma> r)"
proof -
  define \<rho> where "\<rho> = fold (grun c) (loads (low_loads ls)) (fold (grun c) (saves es) \<sigma>)"
  have z: "z \<notin> set es" if "map_of ls k = Some z" for k z
  proof
    assume "z \<in> set es"
    then have "z < 16" using assms(1) by auto
    moreover have "16 \<le> z" using map_of_SomeD [OF that] assms(3) by force
    ultimately show False by simp
  qed
  have Y: "\<rho> (Y k) = loaded ls \<sigma> k" for k
    using assms(2) z [of k] by (auto simp: \<rho>_def run_parts fst_low_loads map_of_low_loads loaded_def split: option.splits)
  have Z: "\<rho> (Z k g) = (if k \<in> set es \<and> \<not> g then \<sigma> (Y k) else \<sigma> (Z k g))" for k g
    by (simp add: \<rho>_def run_parts)
  let ?\<pi> = "\<rho>(Y dl := v)"
  have "grun c (Bin opc (Y dl) (Y al) (Y bl)) \<rho> = ?\<pi>" by (simp add: Y v_def)
  then have "\<tau> = fold (grun c) (restores rs) (if d < 16 then ?\<pi> else ?\<pi>(Z d False := v))"
    unfolding \<tau>_def low_code_def fold_append comp_apply \<rho>_def [symmetric] by (simp del: grun.simps(2))
  then show "\<tau> (Z r h) = (if r = d \<and> 16 \<le> d \<and> \<not> h then v else if r \<in> set es \<and> \<not> h then \<sigma> (Y r) else \<sigma> (Z r h))"
    and "r < 16 \<Longrightarrow> \<tau> (Y r) = (if r \<in> set rs then (if r \<in> set es then \<sigma> (Y r) else \<sigma> (Z r False))
       else if r = dl then v else loaded ls \<sigma> r)"
    by (auto simp: run_restores Y Z)
qed

lemma low_code_exec:
  assumes "opc \<in> set lops" "set es \<subseteq> {..<16}" "set rs \<subseteq> {..<16}" "fst ` set ls \<subseteq> {..<16}" "dl < 16" "al < 16" "bl < 16"
  shows "\<exists>t. exec (map (ginstr c) (low_code opc es ls d dl al bl rs)) s = Inr t
     \<and> gcells c t = fold (grun c) (low_code opc es ls d dl al bl rs) (gcells c s) \<and> same_rest s t"
  using assms by (intro exec_asns) (auto simp: low_code_def low_loads_def saves_def loads_def restores_def list_all_iff)

section \<open>The application's view\<close>

text \<open>
  \<open>low_put w d v a b\<close>: from \<open>a\<close> to \<open>b\<close> the lowest \<open>w\<close> bytes of vector register \<open>d\<close> become those of
  \<open>v\<close>, the lowest \<open>w\<close> bytes of the other vector registers and the upper halves of all of them
  stay, and nothing outside the vector registers changes.
\<close>

definition low_put :: "nat \<Rightarrow> nat \<Rightarrow> vec \<Rightarrow> astate \<Rightarrow> astate \<Rightarrow> bool" where
  "low_put w d v a b \<longleftrightarrow> b\<lparr>azmm := azmm a\<rparr> = a \<and> (\<forall>r < 32. clip w (azmm b r) = clip w (((azmm a)(d := v)) r))
     \<and> (\<forall>r < 32. \<forall>i \<ge> 32. azmm b r i = azmm a r i)"

definition lview :: "cstate \<Rightarrow> nat \<Rightarrow> vec" where
  "lview \<sigma> r = \<sigma> (if r < 16 then Y r else Z r False)"

lemma lview_abs: "r < 32 \<Longrightarrow> lview (gcells c s) r = clip (opsz c) (azmm (abs_state s) r)"
  using opsz_cases [of c] by (auto simp: lview_def abs_state_def abs_zmm_def clip_def tls_get_def fun_eq_iff)

lemma upper_abs: "r < 32 \<Longrightarrow> 32 \<le> i \<Longrightarrow> i < 64 \<Longrightarrow> azmm (abs_state s) r i = gcells c s (Z r True) (i - 32)"
  by (auto simp: abs_state_def abs_zmm_def clip_def tls_get_def)

lemma low_putI:
  assumes "same_rest s t" "\<And>r. r < 32 \<Longrightarrow> gcells c t (Z r True) = gcells c s (Z r True)"
    and "\<And>r. r < 32 \<Longrightarrow> lview (gcells c t) r = (if r = d then clip (opsz c) v else lview (gcells c s) r)"
  shows "low_put (opsz c) d v (abs_state s) (abs_state t)"
proof -
  have "abs_state t = (abs_state s)\<lparr>azmm := abs_zmm t\<rparr>" by (rule same_rest_abs [OF assms(1) refl])
  then have "(abs_state t)\<lparr>azmm := azmm (abs_state s)\<rparr> = abs_state s" by simp
  moreover have "clip (opsz c) (azmm (abs_state t) r) = clip (opsz c) (((azmm (abs_state s))(d := v)) r)" if "r < 32" for r
    using assms(3) [OF that] lview_abs [OF that] by simp
  moreover have "azmm (abs_state t) r i = azmm (abs_state s) r i" if "r < 32" "32 \<le> i" for r i
  proof (cases "i < 64")
    case True
    then show ?thesis using upper_abs [OF that True, where c = c] assms(2) [OF that(1)] by simp
  next
    case False
    then show ?thesis by (simp add: abs_state_def abs_zmm_def)
  qed
  ultimately show ?thesis by (simp add: low_put_def)
qed

text \<open>\<open>holds ls k x\<close>: after the loads \<open>ls\<close> register \<open>k\<close> has the value of the application's register \<open>x\<close>.\<close>

definition holds :: "(nat \<times> nat) list \<Rightarrow> nat \<Rightarrow> nat \<Rightarrow> bool" where
  "holds ls k x \<longleftrightarrow> (case map_of ls k of None \<Rightarrow> k = x \<and> x < 16 | Some z \<Rightarrow> z = x \<and> 16 \<le> x \<and> x < 32)"

lemma holds_loaded: "holds ls k x \<Longrightarrow> loaded ls (gcells c s) k = clip (opsz c) (azmm (abs_state s) x)"
  using lview_abs [of x c s] by (auto simp: holds_def loaded_def lview_def split: option.splits)

definition low_ok :: "vclass \<Rightarrow> nat \<Rightarrow> vec \<Rightarrow> mstate \<Rightarrow> instr list \<Rightarrow> bool" where
  "low_ok c d v s code \<longleftrightarrow> (\<exists>t. exec code s = Inr t \<and> low_put (opsz c) d v (abs_state s) (abs_state t))"

lemma low_plan:
  assumes opc: "opc \<in> set lops" and es: "set es \<subseteq> {..<16}" and ls: "distinct (map fst ls)" "fst ` set ls \<subseteq> set es"
      "snd ` set ls \<subseteq> {16..}" and x: "holds ls al x" "al < 16" and y: "holds ls bl y" "bl < 16"
    and d: "if d < 16 then dl = d else dl \<in> set es"
    and code: "code = map (ginstr c) (low_code opc es ls d dl al bl es)"
    and u: "u = (if d \<in> set es then azmm (abs_state s) d else vop2 opc (azmm (abs_state s) x) (azmm (abs_state s) y))"
  shows "low_ok c d u s code"
proof -
  let ?z = "azmm (abs_state s)"
  define v where "v = clip (opsz c) (vop2 opc (loaded ls (gcells c s) al) (loaded ls (gcells c s) bl))"
  have v: "v = clip (opsz c) (vop2 opc (?z x) (?z y))"
    unfolding v_def holds_loaded [OF x(1)] holds_loaded [OF y(1)] by (rule vop2_clip [OF opc])
  have lt: "fst ` set ls \<subseteq> {..<16}" "dl < 16" using es ls(2) d by (auto split: if_splits)
  obtain t where t: "exec code s = Inr t" "gcells c t = fold (grun c) (low_code opc es ls d dl al bl es) (gcells c s)" "same_rest s t"
    using low_code_exec [OF opc es es lt x(2) y(2)] code by blast
  note run = low_code_run [OF es ls(1,3) t(2) v_def]
  have keep: "loaded ls (gcells c s) r = gcells c s (Y r)" if "r \<notin> set es" for r
  proof -
    have "map_of ls r = None" using that ls(2) by (auto simp: map_of_eq_None_iff)
    then show ?thesis by (simp add: loaded_def)
  qed
  have "low_put (opsz c) d (if d \<in> set es then ?z d else vop2 opc (?z x) (?z y)) (abs_state s) (abs_state t)"
  proof (rule low_putI [OF t(3)])
    fix r :: nat assume r: "r < 32"
    show "gcells c t (Z r True) = gcells c s (Z r True)" unfolding run(1) by simp
    show "lview (gcells c t) r = (if r = d then clip (opsz c) (if d \<in> set es then ?z d else vop2 opc (?z x) (?z y))
        else lview (gcells c s) r)"
      using run(1) [of r False] run(2) [of r] v keep [of r] lview_abs [OF r, of c s] es d
      by (auto simp: lview_def split: if_splits)
  qed
  then show ?thesis using t(1) u unfolding low_ok_def by blast
qed

section \<open>Registers and slots of a class\<close>

lemma zslot_class: "k < 32 \<Longrightarrow> TLS_ZMM_idx_SLOT (REG_INDEX c (vbase c + k)) = zslot k"
  using zslot_ymm [of k]
  by (cases c) (simp_all add: TLS_ZMM_idx_SLOT_def TO_XMM_REG_INDEX_def offsets to_ushort_small zslot_def)

lemma SPILL_SLOT_vbase: "SPILL_SLOT0 c = vbase c + 10" "SPILL_SLOT1 c = vbase c + 11"
  by (cases c; simp)+

lemma NEED_SPILL_vbase: "k < 32 \<Longrightarrow> NEED_SPILL c (vbase c + k) \<longleftrightarrow> 16 \<le> k"
  by (cases c) (simp_all add: NEED_SPILL_XMM_def NEED_SPILL_YMM_def)

lemma vbase_eq: "vbase c + a = vbase c + b \<longleftrightarrow> a = b" by simp

lemma find_one_high: "16 \<le> r \<Longrightarrow> r < 32 \<Longrightarrow> find_one_available_spill c (vbase c + r) = vbase c + 10"
  by (cases c) (simp_all add: find_one_available_spill_xmm_def find_one_available_spill_ymm_def scan_def slots_def upt_conv_Cons)

lemma find_one_other:
  "\<exists>e. find_one_available_spill c (vbase c + r) = vbase c + e \<and> 10 \<le> e \<and> e \<le> 15 \<and> e \<noteq> r"
proof (cases c)
  case XMM
  then show ?thesis using xmm_slots.one [of "vbase c + r"]
    by (intro exI [of _ "find_one_available_spill c (vbase c + r) - vbase c"]) (auto simp: find_one_available_spill_xmm_def)
next
  case YMM
  then show ?thesis using ymm_slots.one [of "vbase c + r"]
    by (intro exI [of _ "find_one_available_spill c (vbase c + r) - vbase c"]) (auto simp: find_one_available_spill_ymm_def)
qed

lemma find_avoiding_other:
  "\<exists>e. find_available_spill_avoiding c p q DR_REG_NULL = vbase c + e \<and> 10 \<le> e \<and> e \<le> 15 \<and> vbase c + e \<noteq> p \<and> vbase c + e \<noteq> q"
proof (cases c)
  case XMM
  then show ?thesis using xmm_slots.avoiding [of p q DR_REG_NULL]
    by (intro exI [of _ "find_available_spill_avoiding c p q DR_REG_NULL - vbase c"]) (auto simp: find_available_spill_xmm_avoiding_def)
next
  case YMM
  then show ?thesis using ymm_slots.avoiding [of p q DR_REG_NULL]
    by (intro exI [of _ "find_available_spill_avoiding c p q DR_REG_NULL - vbase c"]) (auto simp: find_available_spill_ymm_avoiding_def)
qed

section \<open>What the cases do\<close>

lemmas low_emit = saves_def loads_def restores_def low_loads_def low_code_def zslot_class Let_def SPILL_SLOT_vbase

abbreviation op_of :: "opcode \<Rightarrow> mstate \<Rightarrow> nat \<Rightarrow> nat \<Rightarrow> vec" where
  "op_of opc s a b \<equiv> vop2 opc (azmm (abs_state s) a) (azmm (abs_state s) b)"

lemma low_case_0_run:
  assumes "opc \<in> set lops" "a < 16" "b < 16" "d < 16"
  shows "low_ok c d (op_of opc s a b) s (low_case_0 c opc (vbase c + a) (vbase c + b) (vbase c + d))"
  by (rule low_plan [where opc = opc and es = "[]" and ls = "[]" and al = a and bl = b and dl = d])
    (use assms in \<open>auto simp: holds_def low_case_0_def low_emit\<close>)

lemma low_case_1_run:
  assumes "opc \<in> set lops" "16 \<le> a" "a < 32" "b < 16" "d < 16"
  shows "low_ok c d (op_of opc s a b) s (low_case_1 c opc (vbase c + a) (vbase c + b) (vbase c + d))"
proof -
  obtain e where e: "(if vbase c + b = vbase c + d then find_one_available_spill c (vbase c + b)
        else find_available_spill_avoiding c (vbase c + b) (vbase c + d) DR_REG_NULL) = vbase c + e"
      "10 \<le> e" "e \<le> 15" "e \<noteq> b" "e \<noteq> d"
  proof (cases "b = d")
    case True
    then show thesis using that find_one_other [of c b] by auto
  next
    case False
    then show thesis using that find_avoiding_other [of c "vbase c + b" "vbase c + d"] by auto
  qed
  show ?thesis
    by (rule low_plan [where opc = opc and es = "[e]" and ls = "[(e, a)]" and al = e and bl = b and dl = d and x = a and y = b])
      (use assms e in \<open>simp_all add: holds_def low_case_1_def low_emit\<close>)
qed

lemma low_case_2_run:
  assumes "opc \<in> set lops" "a < 16" "16 \<le> b" "b < 32" "d < 16"
  shows "low_ok c d (if a = d \<and> a = 10 then azmm (abs_state s) d else op_of opc s a b) s (low_case_2 c opc (vbase c + a) (vbase c + b) (vbase c + d))"
proof -
  obtain e where e: "(if vbase c + a = vbase c + d then find_one_available_spill c (vbase c + b)
        else find_available_spill_avoiding c (vbase c + a) (vbase c + d) DR_REG_NULL) = vbase c + e"
      "10 \<le> e" "e \<le> 15" "e \<noteq> a \<and> e \<noteq> d \<and> \<not> (a = d \<and> a = 10) \<or> a = 10 \<and> d = 10 \<and> e = 10"
  proof (cases "a = d")
    case True
    then show thesis using that [of 10] find_one_high [OF assms(3,4)] by auto
  next
    case False
    then show thesis using that find_avoiding_other [of c "vbase c + a" "vbase c + d"] by fastforce
  qed
  from e(4) show ?thesis
  proof
    assume ne: "e \<noteq> a \<and> e \<noteq> d \<and> \<not> (a = d \<and> a = 10)"
    show ?thesis
      by (rule low_plan [where opc = opc and es = "[e]" and ls = "[(e, b)]" and al = a and bl = e and dl = d and x = a and y = b])
        (use assms e ne in \<open>auto simp: holds_def low_case_2_def low_emit\<close>)
  next
    assume e10: "a = 10 \<and> d = 10 \<and> e = 10"
    show ?thesis
      by (rule low_plan [where opc = opc and es = "[10]" and ls = "[(10, b)]" and al = 10 and bl = 10 and dl = 10 and x = b and y = b])
        (use assms e e10 in \<open>simp_all add: holds_def low_case_2_def low_emit\<close>)
  qed
qed

lemma low_case_7_run:
  assumes "opc \<in> set lops" "16 \<le> a" "a < 32" "16 \<le> b" "b < 32" "16 \<le> d" "d < 32"
  shows "low_ok c d (op_of opc s a b) s (low_case_7 c opc (vbase c + a) (vbase c + b) (vbase c + d))"
proof (cases "a = d \<and> b = d")
  case True
  show ?thesis
    by (rule low_plan [where opc = opc and es = "[10]" and ls = "[(10, a)]" and al = 10 and bl = 10 and dl = 10 and x = a and y = b])
      (use assms True in \<open>simp_all add: holds_def low_case_7_def low_emit\<close>)
next
  case False
  show ?thesis
    by (rule low_plan [where opc = opc and es = "[10, 11]" and ls = "[(10, a), (11, b)]" and al = 10 and bl = 11 and dl = "if a \<noteq> d \<and> b = d then 11 else 10" and x = a and y = b])
      (use assms False in \<open>simp_all add: holds_def low_case_7_def low_emit\<close>)
qed

lemma fixed_case_3_run:
  assumes "opc \<in> set lops" "16 \<le> a" "a < 32" "16 \<le> b" "b < 32" "d < 16"
  shows "low_ok c d (if d = 10 \<or> d = 11 then azmm (abs_state s) d else op_of opc s a b) s (fixed_case_3 c opc (vbase c + a) (vbase c + b) (vbase c + d))"
  by (rule low_plan [where opc = opc and es = "[10, 11]" and ls = "[(10, a), (11, b)]" and al = 10 and bl = 11 and dl = d and x = a and y = b])
    (use assms in \<open>simp_all add: holds_def fixed_case_3_def low_emit\<close>)

lemma fixed_case_4_run:
  assumes "opc \<in> set lops" "a < 16" "b < 16" "16 \<le> d" "d < 32"
  shows "low_ok c d (op_of opc s a b) s (fixed_case_4 c opc (vbase c + a) (vbase c + b) (vbase c + d))"
  by (rule low_plan [where opc = opc and es = "[10]" and ls = "[]" and al = a and bl = b and dl = 10 and x = a and y = b])
    (use assms in \<open>simp_all add: holds_def fixed_case_4_def low_emit\<close>)

lemma fixed_case_5_run:
  assumes "opc \<in> set lops" "16 \<le> a" "a < 32" "b < 16" "16 \<le> d" "d < 32"
  shows "low_ok c d (if b = 10 then op_of opc s a a else op_of opc s a b) s (fixed_case_5 c opc (vbase c + a) (vbase c + b) (vbase c + d))"
  by (rule low_plan [where opc = opc and es = "[10, 11]" and ls = "[(10, a)]" and al = 10 and bl = b and dl = 11 and x = a and y = "if b = 10 then a else b"])
    (use assms in \<open>simp_all add: holds_def fixed_case_5_def low_emit\<close>)

lemma fixed_case_6_run:
  assumes "opc \<in> set lops" "a < 16" "16 \<le> b" "b < 32" "16 \<le> d" "d < 32"
  shows "low_ok c d (if a = 10 then op_of opc s b b else op_of opc s a b) s (fixed_case_6 c opc (vbase c + a) (vbase c + b) (vbase c + d))"
  by (rule low_plan [where opc = opc and es = "[10, 11]" and ls = "[(10, b)]" and al = a and bl = 10 and dl = 11 and x = "if a = 10 then b else a" and y = b])
    (use assms in \<open>simp_all add: holds_def fixed_case_6_def low_emit\<close>)

lemma avoid_case_3_run:
  assumes "opc \<in> set lops" "16 \<le> a" "a < 32" "16 \<le> b" "b < 32" "d < 16"
  shows "low_ok c d (op_of opc s a b) s (avoid_case_3 c opc (vbase c + a) (vbase c + b) (vbase c + d))"
proof -
  obtain e where e: "find_available_spill_avoiding c (vbase c + d) DR_REG_NULL DR_REG_NULL = vbase c + e" "10 \<le> e" "e \<le> 15" "e \<noteq> d"
    using find_avoiding_other [of c "vbase c + d" DR_REG_NULL] by auto
  obtain g where g: "find_available_spill_avoiding c (vbase c + d) (vbase c + e) DR_REG_NULL = vbase c + g" "10 \<le> g" "g \<le> 15" "g \<noteq> d" "g \<noteq> e"
    using find_avoiding_other [of c "vbase c + d" "vbase c + e"] by auto
  show ?thesis
    by (rule low_plan [where opc = opc and es = "[e, g]" and ls = "[(e, a), (g, b)]" and al = e and bl = g and dl = d and x = a and y = b])
      (use assms e g in \<open>simp_all add: holds_def avoid_case_3_def low_emit\<close>)
qed

lemma avoid_case_4_run:
  assumes "opc \<in> set lops" "a < 16" "b < 16" "16 \<le> d" "d < 32"
  shows "low_ok c d (op_of opc s a b) s (avoid_case_4 c opc (vbase c + a) (vbase c + b) (vbase c + d))"
proof -
  obtain e where e: "find_available_spill_avoiding c (vbase c + a) (vbase c + b) DR_REG_NULL = vbase c + e" "10 \<le> e" "e \<le> 15"
    using find_avoiding_other [of c "vbase c + a" "vbase c + b"] by auto
  show ?thesis
    by (rule low_plan [where opc = opc and es = "[e]" and ls = "[]" and al = a and bl = b and dl = e and x = a and y = b])
      (use assms e in \<open>simp_all add: holds_def avoid_case_4_def low_emit\<close>)
qed

lemma avoid_case_5_run:
  assumes "opc \<in> set lops" "16 \<le> a" "a < 32" "b < 16" "16 \<le> d" "d < 32"
  shows "low_ok c d (op_of opc s a b) s (avoid_case_5 c opc (vbase c + a) (vbase c + b) (vbase c + d))"
proof -
  obtain e where e: "find_available_spill_avoiding c (vbase c + b) DR_REG_NULL DR_REG_NULL = vbase c + e" "10 \<le> e" "e \<le> 15" "e \<noteq> b"
    using find_avoiding_other [of c "vbase c + b" DR_REG_NULL] by auto
  obtain g where g: "find_available_spill_avoiding c (vbase c + b) (vbase c + e) DR_REG_NULL = vbase c + g" "10 \<le> g" "g \<le> 15" "g \<noteq> b" "g \<noteq> e"
    using find_avoiding_other [of c "vbase c + b" "vbase c + e"] by auto
  show ?thesis
    by (rule low_plan [where opc = opc and es = "[e, g]" and ls = "[(e, a)]" and al = e and bl = b and dl = g and x = a and y = b])
      (use assms e g in \<open>simp_all add: holds_def avoid_case_5_def low_emit\<close>)
qed

lemma avoid_case_6_run:
  assumes "opc \<in> set lops" "a < 16" "16 \<le> b" "b < 32" "16 \<le> d" "d < 32"
  shows "low_ok c d (op_of opc s a b) s (avoid_case_6 c opc (vbase c + a) (vbase c + b) (vbase c + d))"
proof -
  obtain e where e: "find_available_spill_avoiding c (vbase c + a) DR_REG_NULL DR_REG_NULL = vbase c + e" "10 \<le> e" "e \<le> 15" "e \<noteq> a"
    using find_avoiding_other [of c "vbase c + a" DR_REG_NULL] by auto
  obtain g where g: "find_available_spill_avoiding c (vbase c + a) (vbase c + e) DR_REG_NULL = vbase c + g" "10 \<le> g" "g \<le> 15" "g \<noteq> a" "g \<noteq> e"
    using find_avoiding_other [of c "vbase c + a" "vbase c + e"] by auto
  show ?thesis
    by (rule low_plan [where opc = opc and es = "[e, g]" and ls = "[(e, b)]" and al = a and bl = e and dl = g and x = a and y = b])
      (use assms e g in \<open>simp_all add: holds_def avoid_case_6_def low_emit\<close>)
qed

lemma xmm_case_4_run:
  assumes "opc \<in> set lops" "a < 16" "b < 16" "16 \<le> d" "d < 32"
  shows "low_ok c d (op_of opc s a b) s (xmm_case_4 c opc (vbase c + a) (vbase c + b) (vbase c + d))"
  using avoid_case_4_run [OF assms, of c s] by (simp add: xmm_case_4_def avoid_case_4_def)

lemma xmm_case_5_run:
  assumes "opc \<in> set lops" "16 \<le> a" "a < 32" "b < 16" "16 \<le> d" "d < 32"
  shows "low_ok c d (op_of opc s a b) s (xmm_case_5 c opc (vbase c + a) (vbase c + b) (vbase c + d))"
proof -
  obtain e where e: "find_one_available_spill c (vbase c + b) = vbase c + e" "10 \<le> e" "e \<le> 15" "e \<noteq> b"
    using find_one_other [of c b] by auto
  show ?thesis
    by (rule low_plan [where opc = opc and es = "[e]" and ls = "[(e, a)]" and al = e and bl = b and dl = e and x = a and y = b])
      (use assms e in \<open>simp_all add: holds_def xmm_case_5_def low_emit\<close>)
qed

text \<open>
  The two cases that do not restore what they saved: with both sources above register 15 the
  scratch register of the second source keeps its value; with the second source and the
  destination above 15 the scratch register keeps the result, and the first source is
  overwritten with what its slot holds.
\<close>

lemma low_code_low:
  assumes "opc \<in> set lops" "set es \<subseteq> {..<16}" "set rs \<subseteq> {..<16}" "distinct (map fst ls)" "fst ` set ls \<subseteq> {..<16}"
    and "snd ` set ls \<subseteq> {16..}" "dl < 16" "holds ls al x" "al < 16" "holds ls bl y" "bl < 16"
    and "code = map (ginstr c) (low_code opc es ls d dl al bl rs)"
  obtains t where "exec code s = Inr t" "\<And>r. r < 16 \<Longrightarrow> clip (opsz c) (azmm (abs_state t) r)
      = (if r \<in> set rs then (if r \<in> set es then clip (opsz c) (azmm (abs_state s) r) else gcells c s (Z r False))
         else if r = dl then clip (opsz c) (op_of opc s x y) else loaded ls (gcells c s) r)"
    "16 \<le> d \<Longrightarrow> d < 32 \<Longrightarrow> clip (opsz c) (azmm (abs_state t) d) = clip (opsz c) (op_of opc s x y)"
proof -
  define v where "v = clip (opsz c) (vop2 opc (loaded ls (gcells c s) al) (loaded ls (gcells c s) bl))"
  have v: "v = clip (opsz c) (op_of opc s x y)"
    unfolding v_def holds_loaded [OF assms(8)] holds_loaded [OF assms(10)] by (rule vop2_clip [OF assms(1)])
  obtain t where t: "exec code s = Inr t" "gcells c t = fold (grun c) (low_code opc es ls d dl al bl rs) (gcells c s)"
    using low_code_exec [OF assms(1-3,5,7,9,11)] assms(12) by blast
  note run = low_code_run [OF assms(2,4,6) t(2) v_def]
  show thesis
  proof (rule that [OF t(1)])
    fix r :: nat assume r: "r < 16"
    then have yr: "clip (opsz c) (azmm (abs_state t) r) = gcells c t (Y r)" "clip (opsz c) (azmm (abs_state s) r) = gcells c s (Y r)"
      using lview_abs [of r c t] lview_abs [of r c s] by (simp_all add: lview_def del: gcells.simps)
    show "clip (opsz c) (azmm (abs_state t) r)
      = (if r \<in> set rs then (if r \<in> set es then clip (opsz c) (azmm (abs_state s) r) else gcells c s (Z r False))
         else if r = dl then clip (opsz c) (op_of opc s x y) else loaded ls (gcells c s) r)"
      unfolding yr run(2) [OF r] v ..
  next
    assume "16 \<le> d" "d < 32"
    then show "clip (opsz c) (azmm (abs_state t) d) = clip (opsz c) (op_of opc s x y)"
      using run(1) [of d False] lview_abs [of d c t] unfolding lview_def v by simp
  qed
qed

lemma xmm_case_3_run:
  assumes "opc \<in> set lops" "16 \<le> a" "a < 32" "16 \<le> b" "b < 32" "d < 16"
  shows "\<exists>t e. exec (xmm_case_3 c opc (vbase c + a) (vbase c + b) (vbase c + d)) s = Inr t \<and> 10 \<le> e \<and> e \<le> 15 \<and> e \<noteq> d
     \<and> clip (opsz c) (azmm (abs_state t) d) = clip (opsz c) (op_of opc s a b)
     \<and> clip (opsz c) (azmm (abs_state t) e) = clip (opsz c) (azmm (abs_state s) b)"
proof -
  obtain e where e: "find_one_available_spill c (vbase c + d) = vbase c + e" "10 \<le> e" "e \<le> 15" "e \<noteq> d"
    using find_one_other [of c d] by auto
  obtain g where g: "find_available_spill_avoiding c (vbase c + e) (vbase c + d) DR_REG_NULL = vbase c + g" "10 \<le> g" "g \<le> 15" "g \<noteq> d" "g \<noteq> e"
    using find_avoiding_other [of c "vbase c + e" "vbase c + d"] by auto
  obtain t where t: "exec (xmm_case_3 c opc (vbase c + a) (vbase c + b) (vbase c + d)) s = Inr t"
      "\<And>r. r < 16 \<Longrightarrow> clip (opsz c) (azmm (abs_state t) r)
      = (if r \<in> set [e, e] then (if r \<in> set [e, g] then clip (opsz c) (azmm (abs_state s) r) else gcells c s (Z r False))
         else if r = d then clip (opsz c) (op_of opc s a b) else loaded [(e, a), (g, b)] (gcells c s) r)"
    by (rule low_code_low [where opc = opc and c = c and es = "[e, g]" and rs = "[e, e]" and ls = "[(e, a), (g, b)]" and dl = d
          and al = e and bl = g and x = a and y = b and d = d and s = s])
      (use assms e g in \<open>auto simp: holds_def xmm_case_3_def low_emit\<close>)
  moreover have "loaded [(e, a), (g, b)] (gcells c s) g = clip (opsz c) (azmm (abs_state s) b)"
    using assms g by (intro holds_loaded) (simp add: holds_def)
  ultimately show ?thesis using e g assms(6) t(2) [of d] t(2) [of g] by (intro exI [of _ t] exI [of _ g]) simp
qed

lemma xmm_case_6_run:
  assumes "opc \<in> set lops" "a < 16" "16 \<le> b" "b < 32" "16 \<le> d" "d < 32"
  shows "\<exists>t e. exec (xmm_case_6 c opc (vbase c + a) (vbase c + b) (vbase c + d)) s = Inr t \<and> 10 \<le> e \<and> e \<le> 15 \<and> e \<noteq> a
     \<and> clip (opsz c) (azmm (abs_state t) d) = clip (opsz c) (op_of opc s a b)
     \<and> clip (opsz c) (azmm (abs_state t) e) = clip (opsz c) (op_of opc s a b)
     \<and> clip (opsz c) (azmm (abs_state t) a) = clip (opsz c) (tls_get (tls s) (zslot a))"
proof -
  obtain e where e: "find_one_available_spill c (vbase c + a) = vbase c + e" "10 \<le> e" "e \<le> 15" "e \<noteq> a"
    using find_one_other [of c a] by auto
  obtain t where t: "exec (xmm_case_6 c opc (vbase c + a) (vbase c + b) (vbase c + d)) s = Inr t"
      "\<And>r. r < 16 \<Longrightarrow> clip (opsz c) (azmm (abs_state t) r)
      = (if r \<in> set [a] then (if r \<in> set [e] then clip (opsz c) (azmm (abs_state s) r) else gcells c s (Z r False))
         else if r = e then clip (opsz c) (op_of opc s a b) else loaded [(e, b)] (gcells c s) r)"
      "16 \<le> d \<Longrightarrow> d < 32 \<Longrightarrow> clip (opsz c) (azmm (abs_state t) d) = clip (opsz c) (op_of opc s a b)"
    by (rule low_code_low [where opc = opc and c = c and es = "[e]" and rs = "[a]" and ls = "[(e, b)]" and dl = e
          and al = a and bl = e and x = a and y = b and d = d and s = s])
      (use assms e in \<open>auto simp: holds_def xmm_case_6_def low_emit\<close>)
  then show ?thesis using e assms t(2) [of a] t(2) [of e] by (intro exI [of _ t] exI [of _ e]) simp
qed

section \<open>The whole functions\<close>

lemma low_need_spill_reg:
  assumes "a < 32" "b < 32" "d < 32"
  shows "low_need_spill c (vbase c + a) (vbase c + b) (vbase c + d)
     = (if a < 16 then 0 else 1) + (if b < 16 then 0 else 2) + (if d < 16 then 0 else 4)"
  using assms by (simp add: low_need_spill_def NEED_SPILL_vbase)

text \<open>
  The operands for which the chosen scratch registers do not collide with them. In the first
  condition the code avoids the wrong register, in the others it avoids none.
\<close>

definition avoid_safe :: "nat \<Rightarrow> nat \<Rightarrow> nat \<Rightarrow> bool" where
  "avoid_safe a b d \<longleftrightarrow> \<not> (16 \<le> b \<and> a = 10 \<and> d = 10)"

definition fixed_safe :: "nat \<Rightarrow> nat \<Rightarrow> nat \<Rightarrow> bool" where
  "fixed_safe a b d \<longleftrightarrow> avoid_safe a b d \<and> \<not> (16 \<le> a \<and> 16 \<le> b \<and> (d = 10 \<or> d = 11))
     \<and> \<not> (16 \<le> a \<and> b = 10 \<and> 16 \<le> d) \<and> \<not> (a = 10 \<and> 16 \<le> b \<and> 16 \<le> d)"

definition xmm_safe :: "nat \<Rightarrow> nat \<Rightarrow> nat \<Rightarrow> bool" where
  "xmm_safe a b d \<longleftrightarrow> avoid_safe a b d \<and> \<not> (16 \<le> b \<and> (16 \<le> a \<longleftrightarrow> d < 16))"

definition fixed_value :: "opcode \<Rightarrow> mstate \<Rightarrow> nat \<Rightarrow> nat \<Rightarrow> nat \<Rightarrow> vec" where
  "fixed_value opc s a b d =
     (if fixed_safe a b d then op_of opc s a b
      else if d < 16 then azmm (abs_state s) d
      else if 16 \<le> a then op_of opc s a a else op_of opc s b b)"

lemma fixed_gen_run:
  assumes "opc \<in> set lops" "a < 32" "b < 32" "d < 32"
  shows "\<exists>chain. fixed_gen c opc (vbase c + a) (vbase c + b) (vbase c + d) = Rw True chain
     \<and> low_ok c d (fixed_value opc s a b d) s chain"
  using low_case_0_run [OF assms(1), of a b d c s] low_case_1_run [OF assms(1), of a b d c s]
    low_case_2_run [OF assms(1), of a b d c s] fixed_case_3_run [OF assms(1), of a b d c s]
    fixed_case_4_run [OF assms(1), of a b d c s] fixed_case_5_run [OF assms(1), of a b d c s]
    fixed_case_6_run [OF assms(1), of a b d c s] low_case_7_run [OF assms(1), of a b d c s]
    assms low_need_spill_reg [OF assms(2-4), of c]
  by (cases "a < 16"; cases "b < 16"; cases "d < 16")
    (auto simp: fixed_gen_def Let_def fixed_value_def fixed_safe_def avoid_safe_def split: if_splits)

lemma avoid_gen_run:
  assumes "opc \<in> set lops" "a < 32" "b < 32" "d < 32" "avoid_safe a b d"
  shows "\<exists>chain. avoid_gen c opc (vbase c + a) (vbase c + b) (vbase c + d) = Rw True chain
     \<and> low_ok c d (op_of opc s a b) s chain"
  using low_case_0_run [OF assms(1), of a b d c s] low_case_1_run [OF assms(1), of a b d c s]
    low_case_2_run [OF assms(1), of a b d c s] avoid_case_3_run [OF assms(1), of a b d c s]
    avoid_case_4_run [OF assms(1), of a b d c s] avoid_case_5_run [OF assms(1), of a b d c s]
    avoid_case_6_run [OF assms(1), of a b d c s] low_case_7_run [OF assms(1), of a b d c s]
    assms low_need_spill_reg [OF assms(2-4), of c]
  by (cases "a < 16"; cases "b < 16"; cases "d < 16")
    (simp_all add: avoid_gen_def Let_def avoid_safe_def split: if_splits)

lemma xmm_variant_gen_run:
  assumes "opc \<in> set lops" "a < 32" "b < 32" "d < 32" "xmm_safe a b d"
  shows "\<exists>chain. xmm_variant_gen c opc (vbase c + a) (vbase c + b) (vbase c + d) = Rw True chain
     \<and> low_ok c d (op_of opc s a b) s chain"
  using low_case_0_run [OF assms(1), of a b d c s] low_case_1_run [OF assms(1), of a b d c s]
    low_case_2_run [OF assms(1), of a b d c s] xmm_case_4_run [OF assms(1), of a b d c s]
    xmm_case_5_run [OF assms(1), of a b d c s] low_case_7_run [OF assms(1), of a b d c s]
    assms low_need_spill_reg [OF assms(2-4), of c]
  by (cases "a < 16"; cases "b < 16"; cases "d < 16")
    (simp_all add: xmm_variant_gen_def Let_def xmm_safe_def avoid_safe_def split: if_splits)

section \<open>Properties\<close>

text \<open>
  The functions with the operation they rewrite. The unpack instructions and \<open>vmovss\<close> are
  given as instructions with their mask, sources and destination.
\<close>

type_synonym low_gen = "reg_id \<Rightarrow> reg_id \<Rightarrow> reg_id \<Rightarrow> reg_id \<Rightarrow> rw_result"

definition on_instr :: "(instr \<Rightarrow> rw_result) \<Rightarrow> nat \<Rightarrow> low_gen" where
  "on_instr f n src1 src2 dst mask_reg = f (Instr (OP_AVX512 n) [OReg dst] [OReg mask_reg, OReg src1, OReg src2])"

definition fixed_gens :: "(low_gen \<times> vclass \<times> opcode) list" where
  "fixed_gens =
    [(vpsubw_ymm_and_ymm_gen, YMM, OP_vpsubw),
     (vpsubd_ymm_and_ymm_gen, YMM, OP_vpsubd),
     (vpsubq_ymm_and_ymm_gen, YMM, OP_vpsubq),
     (vpsubw_xmm_and_xmm_gen, XMM, OP_vpsubw),
     (vpsllq_xmm2xmm_gen, XMM, OP_vpsllq),
     (on_instr rw_func_vunpcklps 9, XMM, OP_vunpcklps),
     (on_instr rw_func_vunpcklpd 10, XMM, OP_vunpcklpd),
     (on_instr rw_func_vunpckhps 11, XMM, OP_vunpckhps),
     (on_instr rw_func_vunpckhpd 12, XMM, OP_vunpckhpd),
     (on_instr rw_func_vmovss 1, XMM, OP_vmovss)]"

definition xmm_gens :: "(low_gen \<times> vclass \<times> opcode) list" where
  "xmm_gens =
    [(vpaddw_xmm_and_xmm_gen, XMM, OP_vpaddw),
     (vpaddd_xmm_and_xmm_gen, XMM, OP_vpaddd),
     (vpsubd_xmm_and_xmm_gen, XMM, OP_vpsubd),
     (vpsubq_xmm_and_xmm_gen, XMM, OP_vpsubq)]"

definition low_gens :: "(low_gen \<times> vclass \<times> opcode \<times> (nat \<Rightarrow> nat \<Rightarrow> nat \<Rightarrow> bool)) list" where
  "low_gens = map (\<lambda>(f, c, opc). (f, c, opc, fixed_safe)) fixed_gens @ map (\<lambda>(f, c, opc). (f, c, opc, xmm_safe)) xmm_gens
     @ [(vpaddd_ymm_and_ymm_gen, YMM, OP_vpaddd, avoid_safe)]"

lemmas low_fun_defs = vpsubw_ymm_and_ymm_gen_def vpsubd_ymm_and_ymm_gen_def vpsubq_ymm_and_ymm_gen_def vpsubw_xmm_and_xmm_gen_def
  vpsllq_xmm2xmm_gen_def vpaddd_ymm_and_ymm_gen_def vpaddw_xmm_and_xmm_gen_def vpaddd_xmm_and_xmm_gen_def
  vpsubd_xmm_and_xmm_gen_def vpsubq_xmm_and_xmm_gen_def

lemma three_regs_instr [simp]: "three_regs f (Instr opc [OReg r] [OReg m, OReg p, OReg q]) = f p q r"
  by (simp add: three_regs_def src_reg_def dst_reg_def instr_get_src_def instr_get_dst_def)

lemma fixed_gens_eq: "(f, c, opc) \<in> set fixed_gens \<Longrightarrow> opc \<in> set lops \<and> f p q r m = fixed_gen c opc p q r"
  by (auto simp: fixed_gens_def low_fun_defs on_instr_def rw_func_vunpcklps_def rw_func_vunpcklpd_def rw_func_vunpckhps_def
      rw_func_vunpckhpd_def rw_func_vmovss_def lops_def vops_def)

lemma xmm_gens_eq: "(f, c, opc) \<in> set xmm_gens \<Longrightarrow> opc \<in> set lops \<and> f p q r m = xmm_variant_gen c opc p q r"
  by (auto simp: xmm_gens_def low_fun_defs lops_def vops_def)

text \<open>
  C12. The rewriting of \<open>vpsubw\<close>, \<open>vpsubd\<close>, \<open>vpsubq\<close> and \<open>vpaddd\<close> on \<open>ymm\<close> registers and of
  \<open>vpsubw\<close>, \<open>vpsubd\<close>, \<open>vpsubq\<close>, \<open>vpaddw\<close>, \<open>vpaddd\<close>, \<open>vpsllq\<close>, the four unpack instructions and \<open>vmovss\<close> on
  \<open>xmm\<close> registers, for the operands among the 32 registers that satisfy the condition of the
  function. Every condition excludes a second source above 15 with register 10 as first source and
  destination (\<open>avoid_safe\<close>, all that \<open>vpaddd\<close> on \<open>ymm\<close> excludes). The functions with the fixed scratch registers 10 and 11 also
  exclude both sources above 15 with destination 10 or 11, and one source and the destination above 15 with
  register 10 as the other source (\<open>fixed_safe\<close>). \<open>vpaddw\<close>, \<open>vpaddd\<close>, \<open>vpsubd\<close> and
  \<open>vpsubq\<close> on \<open>xmm\<close> also exclude all operands in which the second source and exactly one of the other two are
  above 15, whether they are a scratch register or not (\<open>xmm_safe\<close>). Then the code
  runs to its end, the lowest 16 or 32 bytes of the destination become those of the result, the
  lowest 16 or 32 bytes of the other vector registers, bytes 32 to 63 of all of them, and everything
  outside the vector registers stay. Bytes 16 to 31 after an \<open>xmm\<close> instruction are left open.
\<close>

theorem low_binop_rewrite:
  assumes "(f, c, opc, safe) \<in> set low_gens" "a < 32" "b < 32" "d < 32" "safe a b d"
  shows "\<exists>chain t. f (vbase c + a) (vbase c + b) (vbase c + d) mask_reg = Rw True chain \<and> exec chain s = Inr t
     \<and> low_put (opsz c) d (vop2 opc (azmm (abs_state s) a) (azmm (abs_state s) b)) (abs_state s) (abs_state t)"
proof -
  consider "(f, c, opc) \<in> set fixed_gens" "safe = fixed_safe" | "(f, c, opc) \<in> set xmm_gens" "safe = xmm_safe"
    | "f = vpaddd_ymm_and_ymm_gen" "c = YMM" "opc = OP_vpaddd" "safe = avoid_safe"
    using assms(1) by (auto simp: low_gens_def)
  then have "\<exists>chain. f (vbase c + a) (vbase c + b) (vbase c + d) mask_reg = Rw True chain
      \<and> low_ok c d (op_of opc s a b) s chain"
  proof cases
    case 1
    then show ?thesis using fixed_gens_eq [OF 1(1)] fixed_gen_run [OF _ assms(2-4), of opc c s] assms(5)
      by (simp add: fixed_value_def)
  next
    case 2
    then show ?thesis using xmm_gens_eq [OF 2(1)] xmm_variant_gen_run [OF _ assms(2-4), of opc c s] assms(5) by simp
  next
    case 3
    have "OP_vpaddd \<in> set lops" by (simp add: lops_def vops_def)
    then show ?thesis using 3 avoid_gen_run [OF _ assms(2-4), of OP_vpaddd c s] assms(5) unfolding low_fun_defs by blast
  qed
  then show ?thesis by (simp add: low_ok_def)
qed

text \<open>A state with different bytes in the registers, and 3 in all bytes of the slots.\<close>

definition low_sample :: mstate where
  "low_sample = (sample (\<lambda>_. True) [])\<lparr>ymm := \<lambda>k i. if k = 1 then 5 else 1, tls := \<lambda>_. 3\<rparr>"

lemma azmm_low_sample:
  "r < 32 \<Longrightarrow> i < 64 \<Longrightarrow> azmm (abs_state low_sample) r i = (if r < 16 \<and> i < 32 then (if r = 1 then 5 else 1) else 3)"
  by (simp add: low_sample_def abs_state_def abs_zmm_def)

theorem low_binop_rewrite_witness:
  "\<exists>chain t. rw_func_vunpcklps (Instr (OP_AVX512 9) [OReg (DR_REG_XMM0 + 2)] [OReg DR_REG_K0, OReg (DR_REG_XMM0 + 1), OReg (DR_REG_XMM0 + 20)]) = Rw True chain
     \<and> exec chain low_sample = Inr t \<and> azmm (abs_state t) 2 0 = 5 \<and> azmm (abs_state t) 2 4 = 3 \<and> azmm (abs_state t) 10 0 = 1"
proof -
  obtain chain t where t: "on_instr rw_func_vunpcklps 9 (DR_REG_XMM0 + 1) (DR_REG_XMM0 + 20) (DR_REG_XMM0 + 2) DR_REG_K0 = Rw True chain"
      "exec chain low_sample = Inr t"
      "low_put 16 2 (op_of OP_vunpcklps low_sample 1 20) (abs_state low_sample) (abs_state t)"
    using low_binop_rewrite [of "on_instr rw_func_vunpcklps 9" XMM OP_vunpcklps fixed_safe 1 20 2 DR_REG_K0 low_sample]
    by (auto simp: low_gens_def fixed_gens_def fixed_safe_def avoid_safe_def)
  have low: "azmm (abs_state t) r i = ((azmm (abs_state low_sample))(2 := op_of OP_vunpcklps low_sample 1 20)) r i"
    if "r < 32" "i < 16" for r i
  proof -
    have "clip 16 (azmm (abs_state t) r) i = clip 16 (((azmm (abs_state low_sample))(2 := op_of OP_vunpcklps low_sample 1 20)) r) i"
      using t(3) that(1) unfolding low_put_def by metis
    then show ?thesis using that(2) by (simp add: clip_def)
  qed
  have "azmm (abs_state t) 2 0 = 5" "azmm (abs_state t) 2 4 = 3" "azmm (abs_state t) 10 0 = 1"
    by (simp_all add: low azmm_low_sample vop2_def unpack_def)
  then show ?thesis using t(1,2) unfolding on_instr_def by blast
qed

text \<open>
  C34. Where the operands of a function with fixed scratch registers do collide with
  them, the code still runs to its end but the result is wrong. If the destination is below
  register 16 it is not changed at all: the result is overwritten when the scratch registers
  are restored. Otherwise the operation is performed on the loaded source twice, because the
  other source was overwritten by the load.
\<close>

theorem fixed_clobber:
  assumes "(f, c, opc) \<in> set fixed_gens" "a < 32" "b < 32" "d < 32" "\<not> fixed_safe a b d"
  shows "\<exists>chain t. f (vbase c + a) (vbase c + b) (vbase c + d) mask_reg = Rw True chain \<and> exec chain s = Inr t
     \<and> low_put (opsz c) d (if d < 16 then azmm (abs_state s) d
          else if 16 \<le> a then vop2 opc (azmm (abs_state s) a) (azmm (abs_state s) a)
          else vop2 opc (azmm (abs_state s) b) (azmm (abs_state s) b)) (abs_state s) (abs_state t)"
  using fixed_gens_eq [OF assms(1)] fixed_gen_run [OF _ assms(2-4), of opc c s] assms(5)
  by (simp add: fixed_value_def low_ok_def)

theorem fixed_clobber_witness:
  "\<exists>chain t. vpsubq_ymm_and_ymm_gen (DR_REG_YMM0 + 16) (DR_REG_YMM0 + 17) (DR_REG_YMM0 + 10) DR_REG_K0 = Rw True chain
     \<and> exec chain low_sample = Inr t \<and> clip 32 (azmm (abs_state t) 10) = clip 32 (azmm (abs_state low_sample) 10)"
  using fixed_clobber [of vpsubq_ymm_and_ymm_gen YMM OP_vpsubq 16 17 10 DR_REG_K0 low_sample]
  by (auto simp: fixed_gens_def fixed_safe_def low_put_def)

text \<open>
  C35. \<open>vpaddw\<close>, \<open>vpaddd\<close>, \<open>vpsubd\<close> and \<open>vpsubq\<close> on \<open>xmm\<close> registers with the second source
  above register 15 and exactly one of the other two above 15: the destination gets the
  result, but a scratch register between 10 and 15 that is not an operand is left changed. If
  the destination is below 16, the scratch register ends up with the second source. Otherwise
  it ends up with the result, and the first source is overwritten with the bytes that happen
  to be in its spill slot.
\<close>

theorem xmm_variant_clobber:
  assumes "(f, c, opc) \<in> set xmm_gens" "a < 32" "16 \<le> b" "b < 32" "d < 32" "16 \<le> a \<longleftrightarrow> d < 16"
  shows "\<exists>chain t e. f (vbase c + a) (vbase c + b) (vbase c + d) mask_reg = Rw True chain \<and> exec chain s = Inr t
     \<and> clip (opsz c) (azmm (abs_state t) d) = clip (opsz c) (vop2 opc (azmm (abs_state s) a) (azmm (abs_state s) b))
     \<and> 10 \<le> e \<and> e \<le> 15 \<and> e \<noteq> a \<and> e \<noteq> d
     \<and> clip (opsz c) (azmm (abs_state t) e) = clip (opsz c)
          (if d < 16 then azmm (abs_state s) b else vop2 opc (azmm (abs_state s) a) (azmm (abs_state s) b))
     \<and> (d < 16 \<or> clip (opsz c) (azmm (abs_state t) a) = clip (opsz c) (tls_get (tls s) (zslot a)))"
proof (cases "d < 16")
  case True
  then have "16 \<le> a" using assms(6) by simp
  then have gen: "f (vbase c + a) (vbase c + b) (vbase c + d) mask_reg = Rw True (xmm_case_3 c opc (vbase c + a) (vbase c + b) (vbase c + d))"
    using True assms xmm_gens_eq [OF assms(1)] by (simp add: xmm_variant_gen_def Let_def low_need_spill_reg)
  obtain t e where "exec (xmm_case_3 c opc (vbase c + a) (vbase c + b) (vbase c + d)) s = Inr t" "10 \<le> e" "e \<le> 15" "e \<noteq> d"
      "clip (opsz c) (azmm (abs_state t) d) = clip (opsz c) (op_of opc s a b)"
      "clip (opsz c) (azmm (abs_state t) e) = clip (opsz c) (azmm (abs_state s) b)"
    using xmm_case_3_run [of opc a b d c s] True \<open>16 \<le> a\<close> assms xmm_gens_eq [OF assms(1)] by blast
  moreover have "e \<noteq> a" using \<open>16 \<le> a\<close> \<open>e \<le> 15\<close> by simp
  ultimately show ?thesis using gen True by (intro exI [of _ t] exI [of _ e] exI conjI) simp_all
next
  case False
  then have "a < 16" "16 \<le> d" using assms(6) by simp_all
  then have gen: "f (vbase c + a) (vbase c + b) (vbase c + d) mask_reg = Rw True (xmm_case_6 c opc (vbase c + a) (vbase c + b) (vbase c + d))"
    using assms xmm_gens_eq [OF assms(1)] by (simp add: xmm_variant_gen_def Let_def low_need_spill_reg)
  obtain t e where "exec (xmm_case_6 c opc (vbase c + a) (vbase c + b) (vbase c + d)) s = Inr t" "10 \<le> e" "e \<le> 15" "e \<noteq> a"
      "clip (opsz c) (azmm (abs_state t) d) = clip (opsz c) (op_of opc s a b)"
      "clip (opsz c) (azmm (abs_state t) e) = clip (opsz c) (op_of opc s a b)"
      "clip (opsz c) (azmm (abs_state t) a) = clip (opsz c) (tls_get (tls s) (zslot a))"
    using xmm_case_6_run [of opc a b d c s] \<open>a < 16\<close> \<open>16 \<le> d\<close> assms xmm_gens_eq [OF assms(1)] by blast
  moreover have "e \<noteq> d" using \<open>16 \<le> d\<close> \<open>e \<le> 15\<close> by simp
  ultimately show ?thesis using gen False by (intro exI [of _ t] exI [of _ e] exI conjI) simp_all
qed

theorem xmm_variant_clobber_witness:
  "\<exists>chain t. vpaddd_xmm_and_xmm_gen (DR_REG_XMM0 + 1) (DR_REG_XMM0 + 16) (DR_REG_XMM0 + 17) DR_REG_K0 = Rw True chain
     \<and> exec chain low_sample = Inr t \<and> azmm (abs_state low_sample) 1 0 = 5 \<and> azmm (abs_state t) 1 0 = 3"
proof -
  obtain chain t where t: "vpaddd_xmm_and_xmm_gen (DR_REG_XMM0 + 1) (DR_REG_XMM0 + 16) (DR_REG_XMM0 + 17) DR_REG_K0 = Rw True chain"
      "exec chain low_sample = Inr t" "clip 16 (azmm (abs_state t) 1) = clip 16 (tls_get (tls low_sample) (zslot 1))"
    using xmm_variant_clobber [of vpaddd_xmm_and_xmm_gen XMM OP_vpaddd 1 16 17 DR_REG_K0 low_sample]
    by (auto simp: xmm_gens_def)
  have "clip 16 (azmm (abs_state t) 1) 0 = 3" unfolding t(3) by (simp add: clip_def tls_get_def low_sample_def)
  then show ?thesis using t(1,2) by (auto simp: clip_def azmm_low_sample)
qed

text \<open>
  \<open>vmovsd\<close> between \<open>xmm\<close> registers is rewritten to \<open>vmovss\<close>, which moves 4 bytes
  instead of 8. For operands that do not collide with the scratch registers the destination
  has the documented value exactly if bytes 4 to 7 of the two sources agree.
\<close>

lemma vmovsd_moves_float:
  assumes "a < 32" "b < 32" "d < 32" "fixed_safe a b d"
  shows "\<exists>chain t. rw_func_vmovsd (Instr (OP_AVX512 2) [OReg (DR_REG_XMM0 + d)]
        [OReg mask_reg, OReg (DR_REG_XMM0 + a), OReg (DR_REG_XMM0 + b)]) = Rw True chain \<and> exec chain s = Inr t
     \<and> (clip 16 (azmm (abs_state t) d) = clip 16 (vop2 OP_vmovsd (azmm (abs_state s) a) (azmm (abs_state s) b))
        \<longleftrightarrow> list_all (\<lambda>i. azmm (abs_state s) a i = azmm (abs_state s) b i) [4, 5, 6, 7])"
proof -
  let ?x = "azmm (abs_state s) a" and ?y = "azmm (abs_state s) b"
  obtain chain t where t: "fixed_gen XMM OP_vmovss (vbase XMM + a) (vbase XMM + b) (vbase XMM + d) = Rw True chain"
      "exec chain s = Inr t" "clip 16 (azmm (abs_state t) d) = clip 16 (merge_low 4 ?x ?y)"
    using fixed_gen_run [of OP_vmovss a b d XMM s] assms
    by (auto simp: lops_def fixed_value_def low_ok_def low_put_def vop2_def)
  have "clip 16 (merge_low 4 ?x ?y) = clip 16 (merge_low 8 ?x ?y) \<longleftrightarrow> (\<forall>i < 16. 4 \<le> i \<and> i < 8 \<longrightarrow> ?x i = ?y i)"
    unfolding clip_def merge_low_def fun_eq_iff by auto
  also have "\<dots> \<longleftrightarrow> list_all (\<lambda>i. ?x i = ?y i) [4, 5, 6, 7]"
  proof
    assume *: "list_all (\<lambda>i. ?x i = ?y i) [4, 5, 6, 7]"
    show "\<forall>i < 16. 4 \<le> i \<and> i < 8 \<longrightarrow> ?x i = ?y i"
    proof (intro allI impI)
      fix i :: nat assume "4 \<le> i \<and> i < 8"
      then have "i = 4 \<or> i = 5 \<or> i = 6 \<or> i = 7" by arith
      then show "?x i = ?y i" using * by auto
    qed
  qed simp
  finally show ?thesis using t by (intro exI [of _ chain] exI [of _ t]) (simp add: rw_func_vmovsd_def vop2_def)
qed

lemma vmovsd_moves_float_witness:
  "\<exists>chain t. rw_func_vmovsd (Instr (OP_AVX512 2) [OReg (DR_REG_XMM0 + 3)] [OReg DR_REG_K0, OReg (DR_REG_XMM0 + 1), OReg (DR_REG_XMM0 + 2)])
       = Rw True chain \<and> exec chain low_sample = Inr t
     \<and> clip 16 (azmm (abs_state t) 3) \<noteq> clip 16 (vop2 OP_vmovsd (azmm (abs_state low_sample) 1) (azmm (abs_state low_sample) 2))"
  using vmovsd_moves_float [of 1 2 3 DR_REG_K0 low_sample] by (auto simp: fixed_safe_def avoid_safe_def azmm_low_sample)

end
