(* ===== verification/Vec_Arith.thy ===== *)
theory Vec_Arith
  imports Vec_Zmm Vec_Low
begin

text \<open>
  The rewrite functions of \<open>vpsubw\<close>, \<open>vpsubd\<close>, \<open>vpsubq\<close> and \<open>vpaddd\<close> (\<open>core/arch/rewrite.c\<close>), which choose
  the code by the class of the destination register, and the entries of the table of rewrite
  functions that are modelled.
\<close>

section \<open>Choosing by the class of the destination\<close>

definition by_class :: "low_gen \<Rightarrow> low_gen \<Rightarrow> low_gen \<Rightarrow> instr \<Rightarrow> rw_result" where
  "by_class xgen ygen zgen i =
     (case (src_reg i 0, src_reg i 1, src_reg i 2, dst_reg i 0) of
        (Some mask_reg, Some src1, Some src2, Some dst) \<Rightarrow>
          if IS_YMM_REG dst then ygen src1 src2 dst mask_reg
          else if IS_XMM_REG dst then xgen src1 src2 dst mask_reg
          else if IS_ZMM_REG dst then zgen src1 src2 dst mask_reg
          else RwNull False
      | _ \<Rightarrow> RwCrash)"

definition rw_func_vpsubw :: "instr \<Rightarrow> rw_result" where
  "rw_func_vpsubw = by_class vpsubw_xmm_and_xmm_gen vpsubw_ymm_and_ymm_gen vpsubw_zmm_and_zmm_gen"

definition rw_func_vpsubd :: "instr \<Rightarrow> rw_result" where
  "rw_func_vpsubd = by_class vpsubd_xmm_and_xmm_gen vpsubd_ymm_and_ymm_gen vpsubd_zmm_and_zmm_gen"

definition rw_func_vpsubq :: "instr \<Rightarrow> rw_result" where
  "rw_func_vpsubq = by_class vpsubq_xmm_and_xmm_gen vpsubq_ymm_and_ymm_gen vpsubq_zmm_and_zmm_gen"

text \<open>\<open>vpaddd\<close> asks for the class in another order.\<close>

definition rw_func_vpaddd :: "instr \<Rightarrow> rw_result" where
  "rw_func_vpaddd i =
     (case (src_reg i 0, src_reg i 1, src_reg i 2, dst_reg i 0) of
        (Some mask_reg, Some src1, Some src2, Some dst) \<Rightarrow>
          if IS_ZMM_REG dst then vpaddd_zmm_and_zmm_gen src1 src2 dst mask_reg
          else if IS_YMM_REG dst then vpaddd_ymm_and_ymm_gen src1 src2 dst mask_reg
          else if IS_XMM_REG dst then vpaddd_xmm_and_xmm_gen src1 src2 dst mask_reg
          else RwNull False
      | _ \<Rightarrow> RwCrash)"

text \<open>The modelled vector entries of the table, by index.\<close>

definition vector_funcs :: "(nat \<times> (instr \<Rightarrow> rw_result)) list" where
  "vector_funcs =
     [(0, rw_func_vmovss), (1, rw_func_vmovsd), (8, rw_func_vunpcklps), (9, rw_func_vunpcklpd), (10, rw_func_vunpckhps),
      (11, rw_func_vunpckhpd), (148, rw_func_vpsubw), (149, rw_func_vpsubd), (150, rw_func_vpsubq), (153, rw_func_vpaddd)]"

section \<open>The classes\<close>

lemma regs_of_three [simp]:
  "src_reg (Instr opc [OReg r] [OReg m, OReg p, OReg q]) 0 = Some m" "src_reg (Instr opc [OReg r] [OReg m, OReg p, OReg q]) 1 = Some p"
  "src_reg (Instr opc [OReg r] [OReg m, OReg p, OReg q]) 2 = Some q" "dst_reg (Instr opc [OReg r] [OReg m, OReg p, OReg q]) 0 = Some r"
  by (simp_all add: src_reg_def dst_reg_def instr_get_src_def instr_get_dst_def)

lemma class_of_zmm:
  "d < 32 \<Longrightarrow> IS_ZMM_REG (DR_REG_ZMM0 + d)" "d < 32 \<Longrightarrow> \<not> IS_YMM_REG (DR_REG_ZMM0 + d)" "d < 32 \<Longrightarrow> \<not> IS_XMM_REG (DR_REG_ZMM0 + d)"
  by (simp_all add: IS_ZMM_REG_def IS_YMM_REG_def IS_XMM_REG_def)

lemma zmm_dispatch:
  assumes "a < 32" "b < 32" "d < 32"
  shows "\<exists>chain t. rw_func_vpaddd (Instr opc [OReg (DR_REG_ZMM0 + d)] [OReg m, OReg (DR_REG_ZMM0 + a), OReg (DR_REG_ZMM0 + b)]) = Rw True chain
       \<and> exec chain s = Inr t \<and> abs_state t = spec_zmm OP_vpaddd d a b (abs_state s)"
    and "\<exists>chain t. rw_func_vpsubq (Instr opc [OReg (DR_REG_ZMM0 + d)] [OReg m, OReg (DR_REG_ZMM0 + a), OReg (DR_REG_ZMM0 + b)]) = Rw True chain
       \<and> exec chain s = Inr t \<and> abs_state t = spec_zmm OP_vpsubq d a b (abs_state s)"
  using zmm_and_zmm_gen_run [OF _ assms, of OP_vpaddd s] zmm_and_zmm_gen_run [OF _ assms, of OP_vpsubq s] class_of_zmm [OF assms(3)]
  by (simp_all add: rw_func_vpaddd_def rw_func_vpsubq_def by_class_def vops_def vpaddd_zmm_and_zmm_gen_def vpsubq_zmm_and_zmm_gen_def)

lemma zmm_dispatch_low:
  assumes "a < 16" "b < 16" "d < 16"
  shows "\<exists>chain t. rw_func_vpsubd (Instr opc [OReg (DR_REG_ZMM0 + d)] [OReg m, OReg (DR_REG_ZMM0 + a), OReg (DR_REG_ZMM0 + b)]) = Rw True chain
       \<and> exec chain s = Inr t \<and> abs_state t = spec_zmm OP_vpsubd d a b (abs_state s)"
  using vpsubd_zmm_case_0_run [OF _ assms, of OP_vpsubd s] class_of_zmm [of d] need_spill_reg [of a b d] assms
  by (simp add: rw_func_vpsubd_def by_class_def vops_def vpsubd_zmm_and_zmm_gen_def)

lemma zmm_dispatch_nonempty:
  assumes "d < 32"
  shows "rw_func_vpaddd (Instr opc [OReg (DR_REG_ZMM0 + d)] ss) \<noteq> Rw True []"
    and "rw_func_vpsubq (Instr opc [OReg (DR_REG_ZMM0 + d)] ss) \<noteq> Rw True []"
    and "rw_func_vpsubd (Instr opc [OReg (DR_REG_ZMM0 + d)] ss) \<noteq> Rw True []"
  using class_of_zmm [OF assms]
  by (auto simp: rw_func_vpaddd_def rw_func_vpsubq_def rw_func_vpsubd_def by_class_def vpaddd_zmm_and_zmm_gen_def vpsubq_zmm_and_zmm_gen_def
      vpsubd_zmm_and_zmm_gen_def zmm_and_zmm_gen_def zmm_cases_nonempty vpsubd_zmm_nonempty dst_reg_def instr_get_dst_def Let_def split: option.splits)

end
