(* ===== verification/Vec_Mem.thy ===== *)
theory Vec_Mem
  imports Vec_Zmm Vec_Low
begin

text \<open>
  Reasoning about emitted vector code that also moves values between registers and the
  application's memory: assignments to cells extended by loads and stores. Addresses are those
  of the state before the code, because vector code does not change general-purpose registers.
\<close>

section \<open>Assignments with memory\<close>

datatype masn = Cell asn | Load opcode nat opnd | Store opcode opnd nat

fun addr :: "mstate \<Rightarrow> opnd \<Rightarrow> 64 word" where
  "addr s (OMem b i sc d sz) = ea s b i sc d"
| "addr s _ = 0"

type_synonym cmem = "cstate \<times> (64 word \<Rightarrow> byte)"

fun mrun :: "vclass \<Rightarrow> mstate \<Rightarrow> masn \<Rightarrow> cmem \<Rightarrow> cmem" where
  "mrun c s (Cell x) (\<sigma>, m) = (grun c x \<sigma>, m)"
| "mrun c s (Load opc k op) (\<sigma>, m) = (\<sigma>(Y k := clip (opsz c) (mem_get m (addr s op))), m)"
| "mrun c s (Store opc op k) (\<sigma>, m) = (\<sigma>, mem_put m (addr s op) (opsz c) (\<sigma> (Y k)))"

fun minstr :: "vclass \<Rightarrow> masn \<Rightarrow> instr" where
  "minstr c (Cell x) = ginstr c x"
| "minstr c (Load opc k op) = Instr opc [OReg (vbase c + k)] [op]"
| "minstr c (Store opc op k) = Instr opc [op] [OReg (vbase c + k)]"

text \<open>An operand an access of the given width can be made to.\<close>

definition accessible :: "mstate \<Rightarrow> opcode \<Rightarrow> nat \<Rightarrow> opnd \<Rightarrow> bool" where
  "accessible s opc n op \<longleftrightarrow> (\<exists>b i sc d. op = OMem b i sc d n) \<and> mapped_range s (addr s op) n
     \<and> (opc = OP_vmovdqu \<or> opc = OP_vmovaps \<and> unat (addr s op) mod n = 0)"

fun mvalid :: "vclass \<Rightarrow> mstate \<Rightarrow> masn \<Rightarrow> bool" where
  "mvalid c s (Cell x) \<longleftrightarrow> gvalid c x"
| "mvalid c s (Load opc k op) \<longleftrightarrow> k < 16 \<and> accessible s opc (opsz c) op"
| "mvalid c s (Store opc op k) \<longleftrightarrow> k < 16 \<and> accessible s opc (opsz c) op"

text \<open>What such code keeps: everything but the registers, the \<open>zmm\<close> slots and memory.\<close>

definition same_but_mem :: "mstate \<Rightarrow> mstate \<Rightarrow> bool" where
  "same_but_mem s t \<longleftrightarrow> same_rest (s\<lparr>mem := mem t\<rparr>) t"

lemma gcells_mem [simp]: "gcells c (s\<lparr>mem := m\<rparr>) = gcells c s"
proof
  fix x show "gcells c (s\<lparr>mem := m\<rparr>) x = gcells c s x" by (cases x) simp_all
qed

lemma same_but_mem_context:
  assumes "same_but_mem s t"
  shows "addr t = addr s" "accessible t = accessible s" "mvalid c t = mvalid c s" "mrun c t = mrun c s"
proof -
  have g: "gpr t = gpr s" "mapped t = mapped s" using assms by (simp_all add: same_but_mem_def same_rest_def)
  have r: "gpr_read t = gpr_read s" by (simp add: fun_eq_iff gpr_read_def g split: option.splits)
  show a: "addr t = addr s"
  proof
    fix op show "addr t op = addr s op" by (cases op) (simp_all add: ea_def r)
  qed
  show b: "accessible t = accessible s" by (simp add: accessible_def mapped_range_def a g fun_eq_iff)
  show "mvalid c t = mvalid c s"
  proof
    fix x show "mvalid c t x = mvalid c s x" by (cases x) (simp_all add: b)
  qed
  show "mrun c t = mrun c s"
  proof (intro ext)
    fix x p show "mrun c t x p = mrun c s x p" by (cases x; cases p) (simp_all add: a)
  qed
qed

lemma same_but_mem_trans: "same_but_mem s t \<Longrightarrow> same_but_mem t u \<Longrightarrow> same_but_mem s u"
  by (simp add: same_but_mem_def same_rest_def)

lemma same_but_mem_refl [simp]: "same_but_mem s s"
  by (simp add: same_but_mem_def same_rest_def)

lemma step_load:
  assumes "k < 16" "accessible s opc (opsz c) op"
  shows "step (Instr opc [OReg (vbase c + k)] [op]) s
     = Next (s\<lparr>ymm := (ymm s)(k := clip (opsz c) (mem_get (mem s) (addr s op)))\<rparr>)"
proof -
  have "opsz c \<noteq> 0" using opsz_cases [of c] by auto
  then show ?thesis using assms
    by (auto simp: accessible_def step_def step_exec_def do_vmov_def vreg_vbase vop1_def needs_alignment_def)
qed

lemma step_store:
  assumes "k < 16" "accessible s opc (opsz c) op"
  shows "step (Instr opc [op] [OReg (vbase c + k)]) s = Next (s\<lparr>mem := mem_put (mem s) (addr s op) (opsz c) (ymm s k)\<rparr>)"
proof -
  have "opsz c \<noteq> 0" using opsz_cases [of c] by auto
  then show ?thesis using assms
    by (auto simp: accessible_def step_def step_exec_def do_vmov_def vreg_vbase vop1_def needs_alignment_def)
qed

lemma mem_put_clip: "mem_put m a n (clip n v) = mem_put m a n v"
  by (auto simp: mem_put_def clip_def)

lemma step_masn:
  assumes "mvalid c s x"
  shows "\<exists>t. step (minstr c x) s = Next t \<and> (gcells c t, mem t) = mrun c s x (gcells c s, mem s) \<and> same_but_mem s t"
proof (cases x)
  case (Cell y)
  then obtain t where "step (ginstr c y) s = Next t" "gcells c t = grun c y (gcells c s)" "same_rest s t"
    using assms step_asn [of c y s] by auto
  then show ?thesis using Cell by (auto simp: same_but_mem_def same_rest_def)
next
  case (Load opc k op)
  let ?t = "s\<lparr>ymm := (ymm s)(k := clip (opsz c) (mem_get (mem s) (addr s op)))\<rparr>"
  have "gcells c ?t y = ((gcells c s)(Y k := clip (opsz c) (mem_get (mem s) (addr s op)))) y" for y by (cases y) simp_all
  then have "gcells c ?t = (gcells c s)(Y k := clip (opsz c) (mem_get (mem s) (addr s op)))" by blast
  then show ?thesis using Load assms step_load [of k s opc c op] by (simp add: same_but_mem_def same_rest_def)
next
  case (Store opc op k)
  then show ?thesis using assms step_store [of k s opc c op] by (simp add: same_but_mem_def same_rest_def mem_put_clip)
qed

lemma exec_masns:
  "list_all (mvalid c s) xs \<Longrightarrow> \<exists>t. exec (map (minstr c) xs) s = Inr t
     \<and> (gcells c t, mem t) = fold (mrun c s) xs (gcells c s, mem s) \<and> same_but_mem s t"
proof (induction xs arbitrary: s)
  case (Cons x xs)
  obtain u where u: "step (minstr c x) s = Next u" "(gcells c u, mem u) = mrun c s x (gcells c s, mem s)" "same_but_mem s u"
    using step_masn [of c s x] Cons.prems by auto
  note ctx = same_but_mem_context [OF u(3)]
  have "list_all (mvalid c u) xs" using Cons.prems ctx(3) by simp
  then obtain t where "exec (map (minstr c) xs) u = Inr t" "same_but_mem u t"
      "(gcells c t, mem t) = fold (mrun c u) xs (gcells c u, mem u)"
    using Cons.IH by blast
  then show ?case using u same_but_mem_trans by (intro exI [of _ t]) (auto simp: ctx(4))
qed simp

section \<open>The application's view\<close>

lemma abs_state_mem: "abs_state (s\<lparr>mem := m\<rparr>) = (abs_state s)\<lparr>amem := m\<rparr>"
  by (simp add: abs_state_def abs_zmm_def abs_k_def fun_eq_iff)

text \<open>A 64-byte value from two halves.\<close>

definition join :: "(bool \<Rightarrow> vec) \<Rightarrow> vec" where
  "join w i = (if i < 64 then w (32 \<le> i) (i mod 32) else 0)"

lemma abs_state_join:
  assumes "same_but_mem s t" "d < 32"
    and "\<And>r h. r < 32 \<Longrightarrow> view (vcells t) r h = (if r = d then w h else view (vcells s) r h)"
  shows "abs_state t = (set_z d (join w) (abs_state s))\<lparr>amem := mem t\<rparr>"
proof -
  have "abs_zmm t = (abs_zmm s)(d := join w)"
    using assms(2,3) by (auto simp: fun_eq_iff abs_zmm_view join_def)
  then have "abs_state t = (abs_state (s\<lparr>mem := mem t\<rparr>))\<lparr>azmm := (abs_zmm s)(d := join w)\<rparr>"
    using assms(1) unfolding same_but_mem_def by (rule same_rest_abs [rotated])
  also have "\<dots> = (set_z d (join w) (abs_state s))\<lparr>amem := mem t\<rparr>"
    unfolding abs_state_mem by (simp add: set_z_def abs_state_def)
  finally show ?thesis .
qed

lemma join_view: "a < 32 \<Longrightarrow> join (view (vcells s) a) = azmm (abs_state s) a"
  by (simp add: fun_eq_iff join_def abs_state_def abs_zmm_view)

lemma join_mem:
  "join (\<lambda>h. clip 32 (mem_get m (a + (if h then 32 else 0)))) = clip 64 (mem_get m a)"
proof
  fix i
  have "a + 32 + of_nat (i - 32) = a + of_nat i" if "32 \<le> i" using that by simp
  then show "join (\<lambda>h. clip 32 (mem_get m (a + (if h then 32 else 0)))) i = clip 64 (mem_get m a) i"
    using mod_half [of i] by (auto simp: join_def clip_def mem_get_def)
qed

lemma mem_put_join:
  "mem_put (mem_put m a 32 (w False)) (a + 32) 32 (w True) = mem_put m a 64 (join w)"
proof
  fix x :: "64 word"
  define y where "y = x - a"
  have e: "x - (a + 32) = y - 32" by (simp add: y_def)
  have u: "unat (y - 32) = (if 32 \<le> unat y then unat y - 32 else 2 ^ 64 + unat y - 32)"
    using unsigned_less [of y, where ?'a = nat] by (simp add: unat_sub_if_size word_size word_le_nat_alt)
  consider "unat y < 32" | "32 \<le> unat y" "unat y < 64" | "64 \<le> unat y" by linarith
  then show "mem_put (mem_put m a 32 (w False)) (a + 32) 32 (w True) x = mem_put m a 64 (join w) x"
  proof cases
    case 2
    then have "unat y - 32 < 32" by arith
    with 2 show ?thesis using u mod_half [of "unat y"] by (simp add: mem_put_def e join_def y_def [symmetric])
  next
    case 3
    then have "\<not> unat y - 32 < 32" by arith
    with 3 show ?thesis using u by (simp add: mem_put_def e join_def y_def [symmetric])
  qed (use u in \<open>simp_all add: mem_put_def e join_def y_def [symmetric]\<close>)
qed

text \<open>
  The effect of code on one 64-byte register and on memory, from what its assignments do to
  the cells.
\<close>

lemma mem_code:
  assumes "code = map (minstr YMM) xs" "list_all (mvalid YMM s) xs" "d < 32"
    and "\<And>r h. r < 32 \<Longrightarrow> view (fst (fold (mrun YMM s) xs (vcells s, mem s))) r h = (if r = d then w h else view (vcells s) r h)"
    and "m = snd (fold (mrun YMM s) xs (vcells s, mem s))" "v = join w"
  shows "\<exists>t. exec code s = Inr t \<and> abs_state t = (set_z d v (abs_state s))\<lparr>amem := m\<rparr>"
proof -
  obtain t where t: "exec code s = Inr t" "(vcells t, mem t) = fold (mrun YMM s) xs (vcells s, mem s)" "same_but_mem s t"
    using exec_masns [OF assms(2)] assms(1) by metis
  have "vcells t = fst (fold (mrun YMM s) xs (vcells s, mem s))" "mem t = m" using t(2) assms(5) by (metis fst_conv, metis snd_conv)
  then show ?thesis using abs_state_join [OF t(3) assms(3), of w] assms(4,6) t(1) by simp
qed

lemma set_z_same: "set_z d (azmm a d) a = a"
  by (simp add: set_z_def)

text \<open>The same for 16- and 32-byte code.\<close>

lemma low_mem_code:
  assumes "code = map (minstr c) xs" "list_all (mvalid c s) xs"
    and "\<And>r. r < 32 \<Longrightarrow> fst (fold (mrun c s) xs (gcells c s, mem s)) (Z r True) = gcells c s (Z r True)"
    and "\<And>r. r < 32 \<Longrightarrow> lview (fst (fold (mrun c s) xs (gcells c s, mem s))) r
        = (if r = d then clip (opsz c) v else lview (gcells c s) r)"
    and "m = snd (fold (mrun c s) xs (gcells c s, mem s))"
  shows "\<exists>t. exec code s = Inr t \<and> low_put (opsz c) d v ((abs_state s)\<lparr>amem := m\<rparr>) (abs_state t)"
proof -
  obtain t where t: "exec code s = Inr t" "(gcells c t, mem t) = fold (mrun c s) xs (gcells c s, mem s)" "same_but_mem s t"
    using exec_masns [OF assms(2)] assms(1) by metis
  have e: "gcells c t = fst (fold (mrun c s) xs (gcells c s, mem s))" "mem t = m" using t(2) assms(5) by (metis fst_conv, metis snd_conv)
  have "low_put (opsz c) d v (abs_state (s\<lparr>mem := m\<rparr>)) (abs_state t)"
    using t(3) assms(3,4) e by (intro low_putI) (simp_all add: same_but_mem_def)
  then show ?thesis using t(1) by (auto simp: abs_state_mem)
qed

end
