(* ===== verification/Vec_Move.thy ===== *)
theory Vec_Move
  imports Vec_Arith Vec_Mem
begin

text \<open>
  The rewriting of vector moves (\<open>core/arch/rewrite.c\<close>): \<open>vmovaps\<close> in all forms, the \<open>zmm\<close> forms of
  \<open>vmovdqu8\<close>, \<open>vmovdqu16\<close>, \<open>vmovdqu32\<close> and \<open>vmovdqu64\<close> with some of their \<open>xmm\<close> and \<open>ymm\<close> forms, and the
  twelve moves of floating-point values whose functions only know two \<open>xmm\<close> registers.
\<close>

section \<open>The cases for \<open>xmm\<close> and \<open>ymm\<close>\<close>

definition move_case_0 :: "vclass \<Rightarrow> opcode \<Rightarrow> reg_id \<Rightarrow> reg_id \<Rightarrow> instr list" where
  "move_case_0 c opc src1 dst =
     [instr_create_1dst_1src opc (OReg dst) (OReg src1)]"

definition move_case_1 :: "vclass \<Rightarrow> opcode \<Rightarrow> reg_id \<Rightarrow> reg_id \<Rightarrow> instr list" where
  "move_case_1 c opc src1 dst =
     (let spill_src1_reg = find_one_available_spill c dst
      in [SAVE_SIMD_TO_SIZED_TLS spill_src1_reg (TLS_ZMM_idx_SLOT (REG_INDEX c spill_src1_reg)) (opsz c),
          RESTORE_SIMD_FROM_SIZED_TLS spill_src1_reg (TLS_ZMM_idx_SLOT (REG_INDEX c src1)) (opsz c),
          instr_create_1dst_1src opc (OReg dst) (OReg spill_src1_reg),
          RESTORE_SIMD_FROM_SIZED_TLS spill_src1_reg (TLS_ZMM_idx_SLOT (REG_INDEX c spill_src1_reg)) (opsz c)])"

definition move_case_2 :: "vclass \<Rightarrow> opcode \<Rightarrow> reg_id \<Rightarrow> reg_id \<Rightarrow> instr list" where
  "move_case_2 c opc src1 dst =
     (let spill_dst_reg = find_one_available_spill c src1
      in [SAVE_SIMD_TO_SIZED_TLS spill_dst_reg (TLS_ZMM_idx_SLOT (REG_INDEX c spill_dst_reg)) (opsz c),
          instr_create_1dst_1src opc (OReg spill_dst_reg) (OReg src1),
          SAVE_SIMD_TO_SIZED_TLS spill_dst_reg (TLS_ZMM_idx_SLOT (REG_INDEX c dst)) (opsz c),
          RESTORE_SIMD_FROM_SIZED_TLS spill_dst_reg (TLS_ZMM_idx_SLOT (REG_INDEX c spill_dst_reg)) (opsz c)])"

definition move_case_3 :: "vclass \<Rightarrow> opcode \<Rightarrow> reg_id \<Rightarrow> reg_id \<Rightarrow> instr list" where
  "move_case_3 c opc src1 dst =
     (let spill_reg = SPILL_SLOT0 c
      in [SAVE_SIMD_TO_SIZED_TLS spill_reg (TLS_ZMM_idx_SLOT (REG_INDEX c spill_reg)) (opsz c),
          RESTORE_SIMD_FROM_SIZED_TLS spill_reg (TLS_ZMM_idx_SLOT (REG_INDEX c src1)) (opsz c),
          instr_create_1dst_1src opc (OReg spill_reg) (OReg spill_reg),
          SAVE_SIMD_TO_SIZED_TLS spill_reg (TLS_ZMM_idx_SLOT (REG_INDEX c dst)) (opsz c),
          RESTORE_SIMD_FROM_SIZED_TLS spill_reg (TLS_ZMM_idx_SLOT (REG_INDEX c spill_reg)) (opsz c)])"

text \<open>The variants of the functions that only know \<open>xmm\<close> registers.\<close>

definition unary_case_2 :: "vclass \<Rightarrow> opcode \<Rightarrow> reg_id \<Rightarrow> reg_id \<Rightarrow> instr list" where
  "unary_case_2 c opc src1 dst =
     (let spill_dst_reg = SPILL_SLOT0 c
      in [SAVE_SIMD_TO_SIZED_TLS spill_dst_reg (TLS_ZMM_idx_SLOT (REG_INDEX c spill_dst_reg)) (opsz c),
          instr_create_1dst_1src opc (OReg spill_dst_reg) (OReg src1),
          SAVE_SIMD_TO_SIZED_TLS spill_dst_reg (TLS_ZMM_idx_SLOT (REG_INDEX c dst)) (opsz c),
          RESTORE_SIMD_FROM_SIZED_TLS spill_dst_reg (TLS_ZMM_idx_SLOT (REG_INDEX c spill_dst_reg)) (opsz c)])"

definition unary_case_3 :: "vclass \<Rightarrow> opcode \<Rightarrow> reg_id \<Rightarrow> reg_id \<Rightarrow> instr list" where
  "unary_case_3 c opc src1 dst =
     (let spill_src1_reg = SPILL_SLOT0 c;
          spill_dst_reg = SPILL_SLOT1 c
      in [SAVE_SIMD_TO_SIZED_TLS spill_src1_reg (TLS_ZMM_idx_SLOT (REG_INDEX c spill_src1_reg)) (opsz c),
          SAVE_SIMD_TO_SIZED_TLS spill_dst_reg (TLS_ZMM_idx_SLOT (REG_INDEX c spill_dst_reg)) (opsz c),
          RESTORE_SIMD_FROM_SIZED_TLS spill_src1_reg (TLS_ZMM_idx_SLOT (REG_INDEX c src1)) (opsz c),
          instr_create_1dst_1src opc (OReg spill_dst_reg) (OReg spill_src1_reg),
          SAVE_SIMD_TO_SIZED_TLS spill_dst_reg (TLS_ZMM_idx_SLOT (REG_INDEX c dst)) (opsz c),
          RESTORE_SIMD_FROM_SIZED_TLS spill_src1_reg (TLS_ZMM_idx_SLOT (REG_INDEX c spill_src1_reg)) (opsz c),
          RESTORE_SIMD_FROM_SIZED_TLS spill_dst_reg (TLS_ZMM_idx_SLOT (REG_INDEX c spill_dst_reg)) (opsz c)])"

text \<open>Register to memory and memory to register.\<close>

definition store_case_0 :: "vclass \<Rightarrow> opcode \<Rightarrow> reg_id \<Rightarrow> opnd \<Rightarrow> instr list" where
  "store_case_0 c opc src1 dst_opnd =
     [instr_create_1dst_1src opc dst_opnd (OReg src1)]"

definition store_case_1 :: "vclass \<Rightarrow> opcode \<Rightarrow> reg_id \<Rightarrow> opnd \<Rightarrow> instr list" where
  "store_case_1 c opc src1 dst_opnd =
     (let spill_src1_reg = SPILL_SLOT0 c
      in [SAVE_SIMD_TO_SIZED_TLS spill_src1_reg (TLS_ZMM_idx_SLOT (REG_INDEX c spill_src1_reg)) (opsz c),
          RESTORE_SIMD_FROM_SIZED_TLS spill_src1_reg (TLS_ZMM_idx_SLOT (REG_INDEX c src1)) (opsz c),
          instr_create_1dst_1src opc dst_opnd (OReg spill_src1_reg),
          RESTORE_SIMD_FROM_SIZED_TLS spill_src1_reg (TLS_ZMM_idx_SLOT (REG_INDEX c spill_src1_reg)) (opsz c)])"

definition load_case_0 :: "vclass \<Rightarrow> opcode \<Rightarrow> opnd \<Rightarrow> reg_id \<Rightarrow> instr list" where
  "load_case_0 c opc src1_opnd dst =
     [instr_create_1dst_1src opc (OReg dst) src1_opnd]"

definition load_case_1 :: "vclass \<Rightarrow> opcode \<Rightarrow> opnd \<Rightarrow> reg_id \<Rightarrow> instr list" where
  "load_case_1 c opc src1_opnd dst =
     (let spill_dst_reg = SPILL_SLOT0 c
      in [SAVE_SIMD_TO_SIZED_TLS spill_dst_reg (TLS_ZMM_idx_SLOT (REG_INDEX c spill_dst_reg)) (opsz c),
          instr_create_1dst_1src opc (OReg spill_dst_reg) src1_opnd,
          SAVE_SIMD_TO_SIZED_TLS spill_dst_reg (TLS_ZMM_idx_SLOT (REG_INDEX c dst)) (opsz c),
          RESTORE_SIMD_FROM_SIZED_TLS spill_dst_reg (TLS_ZMM_idx_SLOT (REG_INDEX c spill_dst_reg)) (opsz c)])"

section \<open>The cases for \<open>zmm\<close>\<close>

text \<open>\<open>vmovaps\<close> between \<open>zmm\<close> registers: none or both of them above 15.\<close>

definition vmovaps_zmm_case_0 :: "reg_id \<Rightarrow> reg_id \<Rightarrow> instr list" where
  "vmovaps_zmm_case_0 src1 dst =
     (let src1_lower = ZMM_TO_YMM src1;
          dst_lower = ZMM_TO_YMM dst;
          src1_upper = find_available_spill_ymm_avoiding src1_lower dst_lower DR_REG_NULL;
          dst_upper = find_available_spill_ymm_avoiding src1_lower src1_upper dst_lower
      in [SAVE_SIMD_TO_SIZED_TLS src1_upper (TLS_ZMM_idx_SLOT (TO_YMM_REG_INDEX src1_upper)) 32,
          SAVE_SIMD_TO_SIZED_TLS dst_upper (TLS_ZMM_idx_SLOT (TO_YMM_REG_INDEX dst_upper)) 32,
          RESTORE_SIMD_FROM_SIZED_TLS src1_upper (TLS_ZMM_idx_SLOT (TO_ZMM_REG_INDEX src1) + SIZE_OF_YMM) 32,
          RESTORE_SIMD_FROM_SIZED_TLS dst_upper (TLS_ZMM_idx_SLOT (TO_ZMM_REG_INDEX dst) + SIZE_OF_YMM) 32,
          INSTR_CREATE_vmovaps (OReg dst_lower) (OReg src1_lower),
          INSTR_CREATE_vmovaps (OReg dst_upper) (OReg src1_upper),
          SAVE_SIMD_TO_SIZED_TLS dst_lower (TLS_ZMM_idx_SLOT (TO_ZMM_REG_INDEX dst)) 32,
          SAVE_SIMD_TO_SIZED_TLS dst_upper (TLS_ZMM_idx_SLOT (TO_ZMM_REG_INDEX dst) + SIZE_OF_YMM) 32,
          RESTORE_SIMD_FROM_SIZED_TLS src1_upper (TLS_ZMM_idx_SLOT (TO_YMM_REG_INDEX src1_upper)) 32,
          RESTORE_SIMD_FROM_SIZED_TLS dst_upper (TLS_ZMM_idx_SLOT (TO_YMM_REG_INDEX dst_upper)) 32])"

definition vmovaps_zmm_case_3 :: "reg_id \<Rightarrow> reg_id \<Rightarrow> instr list" where
  "vmovaps_zmm_case_3 src1 dst =
     (let spill_src1_lower = find_one_available_spill_ymm DR_REG_NULL;
          spill_src1_upper = find_one_available_spill_ymm spill_src1_lower;
          spill_dst_lower = find_one_available_spill_ymm spill_src1_upper;
          spill_dst_upper = find_one_available_spill_ymm spill_dst_lower
      in [SAVE_SIMD_TO_SIZED_TLS spill_src1_lower (TLS_ZMM_idx_SLOT (TO_YMM_REG_INDEX spill_src1_lower)) 32,
          SAVE_SIMD_TO_SIZED_TLS spill_src1_upper (TLS_ZMM_idx_SLOT (TO_YMM_REG_INDEX spill_src1_upper)) 32,
          SAVE_SIMD_TO_SIZED_TLS spill_dst_lower (TLS_ZMM_idx_SLOT (TO_YMM_REG_INDEX spill_dst_lower)) 32,
          SAVE_SIMD_TO_SIZED_TLS spill_dst_upper (TLS_ZMM_idx_SLOT (TO_YMM_REG_INDEX spill_dst_upper)) 32,
          RESTORE_SIMD_FROM_SIZED_TLS spill_src1_lower (TLS_ZMM_idx_SLOT (TO_ZMM_REG_INDEX src1)) 32,
          RESTORE_SIMD_FROM_SIZED_TLS spill_src1_upper (TLS_ZMM_idx_SLOT (TO_ZMM_REG_INDEX src1) + SIZE_OF_YMM) 32,
          INSTR_CREATE_vmovaps (OReg spill_dst_lower) (OReg spill_src1_lower),
          INSTR_CREATE_vmovaps (OReg spill_dst_upper) (OReg spill_src1_upper),
          SAVE_SIMD_TO_SIZED_TLS spill_dst_lower (TLS_ZMM_idx_SLOT (TO_ZMM_REG_INDEX dst)) 32,
          SAVE_SIMD_TO_SIZED_TLS spill_dst_upper (TLS_ZMM_idx_SLOT (TO_ZMM_REG_INDEX dst) + SIZE_OF_YMM) 32,
          RESTORE_SIMD_FROM_SIZED_TLS spill_src1_lower (TLS_ZMM_idx_SLOT (TO_YMM_REG_INDEX spill_src1_lower)) 32,
          RESTORE_SIMD_FROM_SIZED_TLS spill_src1_upper (TLS_ZMM_idx_SLOT (TO_YMM_REG_INDEX spill_src1_upper)) 32,
          RESTORE_SIMD_FROM_SIZED_TLS spill_dst_lower (TLS_ZMM_idx_SLOT (TO_YMM_REG_INDEX spill_dst_lower)) 32,
          RESTORE_SIMD_FROM_SIZED_TLS spill_dst_upper (TLS_ZMM_idx_SLOT (TO_YMM_REG_INDEX spill_dst_upper)) 32])"

text \<open>The \<open>vmovdqu\<close> instructions between \<open>zmm\<close> registers.\<close>

definition dqu_case_0 :: "reg_id \<Rightarrow> reg_id \<Rightarrow> instr list" where
  "dqu_case_0 src dst =
     (let src_lower = ZMM_TO_YMM src;
          dst_lower = ZMM_TO_YMM dst;
          src_upper = find_available_spill_ymm_avoiding src_lower dst_lower DR_REG_NULL
      in [SAVE_SIMD_TO_SIZED_TLS src_upper (TLS_ZMM_idx_SLOT (TO_YMM_REG_INDEX src_upper)) 32,
          INSTR_CREATE_vmovdqu (OReg dst_lower) (OReg src_lower),
          RESTORE_SIMD_FROM_SIZED_TLS src_upper (TLS_ZMM_idx_SLOT (TO_ZMM_REG_INDEX src) + SIZE_OF_YMM) 32,
          SAVE_SIMD_TO_SIZED_TLS src_upper (TLS_ZMM_idx_SLOT (TO_ZMM_REG_INDEX dst) + SIZE_OF_YMM) 32,
          RESTORE_SIMD_FROM_SIZED_TLS src_upper (TLS_ZMM_idx_SLOT (TO_YMM_REG_INDEX src_upper)) 32])"

definition dqu_case_1 :: "reg_id \<Rightarrow> reg_id \<Rightarrow> instr list" where
  "dqu_case_1 src dst =
     (let dst_lower = ZMM_TO_YMM dst;
          src_spill_reg = find_one_available_spill_ymm dst_lower
      in [SAVE_SIMD_TO_SIZED_TLS src_spill_reg (TLS_ZMM_idx_SLOT (TO_YMM_REG_INDEX src_spill_reg)) 32,
          RESTORE_SIMD_FROM_SIZED_TLS src_spill_reg (TLS_ZMM_idx_SLOT (TO_ZMM_REG_INDEX src)) 32,
          INSTR_CREATE_vmovdqu (OReg dst_lower) (OReg src_spill_reg),
          RESTORE_SIMD_FROM_SIZED_TLS src_spill_reg (TLS_ZMM_idx_SLOT (TO_ZMM_REG_INDEX src) + SIZE_OF_YMM) 32,
          SAVE_SIMD_TO_SIZED_TLS src_spill_reg (TLS_ZMM_idx_SLOT (TO_ZMM_REG_INDEX dst) + SIZE_OF_YMM) 32,
          RESTORE_SIMD_FROM_SIZED_TLS src_spill_reg (TLS_ZMM_idx_SLOT (TO_YMM_REG_INDEX src_spill_reg)) 32])"

definition dqu_case_2 :: "reg_id \<Rightarrow> reg_id \<Rightarrow> instr list" where
  "dqu_case_2 src dst =
     (let src_lower = ZMM_TO_YMM src;
          dst_spill_reg = find_one_available_spill_ymm src_lower
      in [SAVE_SIMD_TO_SIZED_TLS dst_spill_reg (TLS_ZMM_idx_SLOT (TO_YMM_REG_INDEX dst_spill_reg)) 32,
          SAVE_SIMD_TO_SIZED_TLS src_lower (TLS_ZMM_idx_SLOT (TO_ZMM_REG_INDEX dst)) 32,
          RESTORE_SIMD_FROM_SIZED_TLS dst_spill_reg (TLS_ZMM_idx_SLOT (TO_ZMM_REG_INDEX src) + SIZE_OF_YMM) 32,
          SAVE_SIMD_TO_SIZED_TLS dst_spill_reg (TLS_ZMM_idx_SLOT (TO_ZMM_REG_INDEX dst) + SIZE_OF_YMM) 32,
          RESTORE_SIMD_FROM_SIZED_TLS dst_spill_reg (TLS_ZMM_idx_SLOT (TO_YMM_REG_INDEX dst_spill_reg)) 32])"

definition dqu_case_3 :: "reg_id \<Rightarrow> reg_id \<Rightarrow> instr list" where
  "dqu_case_3 src dst =
     (let ymm_spill = DR_REG_YMM10
      in [SAVE_SIMD_TO_SIZED_TLS ymm_spill (TLS_ZMM_idx_SLOT (TO_YMM_REG_INDEX ymm_spill)) 32,
          RESTORE_SIMD_FROM_SIZED_TLS ymm_spill (TLS_ZMM_idx_SLOT (TO_ZMM_REG_INDEX src)) 32,
          SAVE_SIMD_TO_SIZED_TLS ymm_spill (TLS_ZMM_idx_SLOT (TO_ZMM_REG_INDEX dst)) 32,
          RESTORE_SIMD_FROM_SIZED_TLS ymm_spill (TLS_ZMM_idx_SLOT (TO_ZMM_REG_INDEX src) + SIZE_OF_YMM) 32,
          SAVE_SIMD_TO_SIZED_TLS ymm_spill (TLS_ZMM_idx_SLOT (TO_ZMM_REG_INDEX dst) + SIZE_OF_YMM) 32,
          RESTORE_SIMD_FROM_SIZED_TLS ymm_spill (TLS_ZMM_idx_SLOT (TO_YMM_REG_INDEX ymm_spill)) 32])"

text \<open>
  The lower and the upper half of a 64-byte memory operand. The displacement is an \<open>int\<close>, to
  which 32 is added.
\<close>

definition mem_half :: "opnd \<Rightarrow> bool \<Rightarrow> opnd" where
  "mem_half op upper =
     (case (opnd_get_base op, opnd_get_index op, opnd_get_scale op, opnd_get_disp op) of
        (Some base, Some index, Some scale, Some disp) \<Rightarrow>
          opnd_create_base_disp base index scale (if upper then signed_take_bit 31 (disp + int SIZE_OF_YMM) else disp) 32
      | _ \<Rightarrow> op)"

text \<open>A \<open>zmm\<close> register to memory.\<close>

definition zstore_case_0 :: "opcode \<Rightarrow> reg_id \<Rightarrow> opnd \<Rightarrow> instr list" where
  "zstore_case_0 opc src1 op =
     (let src1_lower = ZMM_TO_YMM src1;
          src1_upper = find_one_available_spill_ymm src1_lower
      in [SAVE_SIMD_TO_SIZED_TLS src1_upper (TLS_ZMM_idx_SLOT (TO_YMM_REG_INDEX src1_upper)) 32,
          RESTORE_SIMD_FROM_SIZED_TLS src1_upper (TLS_ZMM_idx_SLOT (TO_ZMM_REG_INDEX src1) + SIZE_OF_YMM) 32,
          instr_create_1dst_1src opc (mem_half op False) (OReg src1_lower),
          instr_create_1dst_1src opc (mem_half op True) (OReg src1_upper),
          RESTORE_SIMD_FROM_SIZED_TLS src1_upper (TLS_ZMM_idx_SLOT (TO_YMM_REG_INDEX src1_upper)) 32])"

definition zstore_case_1 :: "opcode \<Rightarrow> reg_id \<Rightarrow> opnd \<Rightarrow> instr list" where
  "zstore_case_1 opc src1 op =
     (let spill_src1_lower = find_one_available_spill_ymm DR_REG_NULL;
          spill_src1_upper = find_one_available_spill_ymm spill_src1_lower
      in [SAVE_SIMD_TO_SIZED_TLS spill_src1_lower (TLS_ZMM_idx_SLOT (TO_YMM_REG_INDEX spill_src1_lower)) 32,
          SAVE_SIMD_TO_SIZED_TLS spill_src1_upper (TLS_ZMM_idx_SLOT (TO_YMM_REG_INDEX spill_src1_upper)) 32,
          RESTORE_SIMD_FROM_SIZED_TLS spill_src1_lower (TLS_ZMM_idx_SLOT (TO_ZMM_REG_INDEX src1)) 32,
          RESTORE_SIMD_FROM_SIZED_TLS spill_src1_upper (TLS_ZMM_idx_SLOT (TO_ZMM_REG_INDEX src1) + SIZE_OF_YMM) 32,
          instr_create_1dst_1src opc (mem_half op False) (OReg spill_src1_lower),
          instr_create_1dst_1src opc (mem_half op True) (OReg spill_src1_upper),
          RESTORE_SIMD_FROM_SIZED_TLS spill_src1_lower (TLS_ZMM_idx_SLOT (TO_YMM_REG_INDEX spill_src1_lower)) 32,
          RESTORE_SIMD_FROM_SIZED_TLS spill_src1_upper (TLS_ZMM_idx_SLOT (TO_YMM_REG_INDEX spill_src1_upper)) 32])"

text \<open>\<open>vmovdqu8\<close>, \<open>vmovdqu16\<close> and \<open>vmovdqu32\<close> load the register from its slot first.\<close>

definition zstore_reload :: "reg_id \<Rightarrow> opnd \<Rightarrow> instr list" where
  "zstore_reload src1 op =
     (let src_reg_lower = ZMM_TO_YMM src1;
          src_reg_upper = find_one_available_spill_ymm src_reg_lower
      in [SAVE_SIMD_TO_SIZED_TLS src_reg_upper (TLS_ZMM_idx_SLOT (TO_YMM_REG_INDEX src_reg_upper)) 32,
          RESTORE_SIMD_FROM_SIZED_TLS src_reg_upper (TLS_ZMM_idx_SLOT (TO_ZMM_REG_INDEX src1) + SIZE_OF_YMM) 32,
          RESTORE_SIMD_FROM_SIZED_TLS src_reg_lower (TLS_ZMM_idx_SLOT (TO_ZMM_REG_INDEX src1)) 32,
          INSTR_CREATE_vmovdqu (mem_half op False) (OReg src_reg_lower),
          INSTR_CREATE_vmovdqu (mem_half op True) (OReg src_reg_upper),
          RESTORE_SIMD_FROM_SIZED_TLS src_reg_upper (TLS_ZMM_idx_SLOT (TO_YMM_REG_INDEX src_reg_upper)) 32])"

definition zstore_slot0 :: "reg_id \<Rightarrow> opnd \<Rightarrow> instr list" where
  "zstore_slot0 src1 op =
     (let spill_src_reg = DR_REG_YMM10;
          spill_src_reg_upper = find_one_available_spill_ymm spill_src_reg
      in [SAVE_SIMD_TO_SIZED_TLS spill_src_reg (TLS_ZMM_idx_SLOT (TO_YMM_REG_INDEX spill_src_reg)) 32,
          SAVE_SIMD_TO_SIZED_TLS spill_src_reg_upper (TLS_ZMM_idx_SLOT (TO_YMM_REG_INDEX spill_src_reg_upper)) 32,
          RESTORE_SIMD_FROM_SIZED_TLS spill_src_reg (TLS_ZMM_idx_SLOT (TO_ZMM_REG_INDEX src1)) 32,
          RESTORE_SIMD_FROM_SIZED_TLS spill_src_reg_upper (TLS_ZMM_idx_SLOT (TO_ZMM_REG_INDEX src1) + SIZE_OF_YMM) 32,
          INSTR_CREATE_vmovdqu (mem_half op False) (OReg spill_src_reg),
          INSTR_CREATE_vmovdqu (mem_half op True) (OReg spill_src_reg_upper),
          RESTORE_SIMD_FROM_SIZED_TLS spill_src_reg (TLS_ZMM_idx_SLOT (TO_YMM_REG_INDEX spill_src_reg)) 32,
          RESTORE_SIMD_FROM_SIZED_TLS spill_src_reg_upper (TLS_ZMM_idx_SLOT (TO_YMM_REG_INDEX spill_src_reg_upper)) 32])"

text \<open>Memory to a \<open>zmm\<close> register.\<close>

definition vmovaps_zload_case_0 :: "opnd \<Rightarrow> reg_id \<Rightarrow> instr list" where
  "vmovaps_zload_case_0 op dst =
     (let dst_reg_lower = ZMM_TO_YMM dst;
          dst_reg_upper = find_one_available_spill_ymm dst_reg_lower
      in [SAVE_SIMD_TO_SIZED_TLS dst_reg_upper (TLS_ZMM_idx_SLOT (TO_YMM_REG_INDEX dst_reg_upper)) 32,
          INSTR_CREATE_vmovaps (OReg dst_reg_lower) (mem_half op False),
          INSTR_CREATE_vmovaps (OReg dst_reg_upper) (mem_half op True),
          SAVE_SIMD_TO_SIZED_TLS dst_reg_lower (TLS_ZMM_idx_SLOT (TO_ZMM_REG_INDEX dst)) 32,
          SAVE_SIMD_TO_SIZED_TLS dst_reg_upper (TLS_ZMM_idx_SLOT (TO_ZMM_REG_INDEX dst) + SIZE_OF_YMM) 32,
          RESTORE_SIMD_FROM_SIZED_TLS dst_reg_upper (TLS_ZMM_idx_SLOT (TO_YMM_REG_INDEX dst_reg_upper)) 32])"

definition vmovaps_zload_case_1 :: "opnd \<Rightarrow> reg_id \<Rightarrow> instr list" where
  "vmovaps_zload_case_1 op dst =
     (let spill_dst_reg = find_one_available_spill_ymm DR_REG_NULL;
          spill_dst_reg_upper = find_one_available_spill_ymm spill_dst_reg
      in [SAVE_SIMD_TO_SIZED_TLS spill_dst_reg (TLS_ZMM_idx_SLOT (TO_YMM_REG_INDEX spill_dst_reg)) 32,
          SAVE_SIMD_TO_SIZED_TLS spill_dst_reg_upper (TLS_ZMM_idx_SLOT (TO_YMM_REG_INDEX spill_dst_reg_upper)) 32,
          INSTR_CREATE_vmovaps (OReg spill_dst_reg) (mem_half op False),
          INSTR_CREATE_vmovaps (OReg spill_dst_reg_upper) (mem_half op True),
          SAVE_SIMD_TO_SIZED_TLS spill_dst_reg (TLS_ZMM_idx_SLOT (TO_ZMM_REG_INDEX dst)) 32,
          SAVE_SIMD_TO_SIZED_TLS spill_dst_reg_upper (TLS_ZMM_idx_SLOT (TO_ZMM_REG_INDEX dst) + SIZE_OF_YMM) 32,
          RESTORE_SIMD_FROM_SIZED_TLS spill_dst_reg (TLS_ZMM_idx_SLOT (TO_YMM_REG_INDEX spill_dst_reg)) 32,
          RESTORE_SIMD_FROM_SIZED_TLS spill_dst_reg_upper (TLS_ZMM_idx_SLOT (TO_YMM_REG_INDEX spill_dst_reg_upper)) 32])"

definition dqu_zload_case_0 :: "opnd \<Rightarrow> reg_id \<Rightarrow> instr list" where
  "dqu_zload_case_0 op dst =
     (let dst_spill_high_reg = find_one_available_spill_ymm (ZMM_TO_YMM dst);
          dst_low = ZMM_TO_YMM dst
      in [SAVE_SIMD_TO_SIZED_TLS dst_spill_high_reg (TLS_ZMM_idx_SLOT (TO_YMM_REG_INDEX dst_spill_high_reg)) 32,
          INSTR_CREATE_vmovdqu (OReg dst_low) (mem_half op False),
          INSTR_CREATE_vmovdqu (OReg dst_spill_high_reg) (mem_half op True),
          SAVE_SIMD_TO_SIZED_TLS dst_spill_high_reg (TLS_ZMM_idx_SLOT (TO_ZMM_REG_INDEX dst) + SIZE_OF_YMM) 32,
          RESTORE_SIMD_FROM_SIZED_TLS dst_spill_high_reg (TLS_ZMM_idx_SLOT (TO_YMM_REG_INDEX dst_spill_high_reg)) 32])"

definition dqu_zload_case_1 :: "opnd \<Rightarrow> reg_id \<Rightarrow> instr list" where
  "dqu_zload_case_1 op dst =
     (let dst_spill_reg = DR_REG_YMM10
      in [SAVE_SIMD_TO_SIZED_TLS dst_spill_reg (TLS_ZMM_idx_SLOT (TO_YMM_REG_INDEX dst_spill_reg)) 32,
          INSTR_CREATE_vmovdqu (OReg dst_spill_reg) (mem_half op False),
          SAVE_SIMD_TO_SIZED_TLS dst_spill_reg (TLS_ZMM_idx_SLOT (TO_ZMM_REG_INDEX dst)) 32,
          INSTR_CREATE_vmovdqu (OReg dst_spill_reg) (mem_half op True),
          SAVE_SIMD_TO_SIZED_TLS dst_spill_reg (TLS_ZMM_idx_SLOT (TO_ZMM_REG_INDEX dst) + SIZE_OF_YMM) 32,
          RESTORE_SIMD_FROM_SIZED_TLS dst_spill_reg (TLS_ZMM_idx_SLOT (TO_YMM_REG_INDEX dst_spill_reg)) 32])"

section \<open>The functions\<close>

definition move_need_spill :: "vclass \<Rightarrow> reg_id \<Rightarrow> reg_id \<Rightarrow> nat" where
  "move_need_spill c src1 dst = (if NEED_SPILL c src1 then 1 else 0) + (if NEED_SPILL c dst then 2 else 0)"

definition zmm_move_need_spill :: "reg_id \<Rightarrow> reg_id \<Rightarrow> nat" where
  "zmm_move_need_spill src1 dst = (if NEED_SPILL_ZMM src1 then 1 else 0) + (if NEED_SPILL_ZMM dst then 2 else 0)"

definition low_reg2reg :: "vclass \<Rightarrow> opcode \<Rightarrow> reg_id \<Rightarrow> reg_id \<Rightarrow> rw_result" where
  "low_reg2reg c opc src1 dst =
     (let n = move_need_spill c src1 dst in
      if n = 0 then Rw True (move_case_0 c opc src1 dst)
      else if n = 1 then Rw True (move_case_1 c opc src1 dst)
      else if n = 2 then Rw True (move_case_2 c opc src1 dst)
      else if n = 3 then Rw True (move_case_3 c opc src1 dst)
      else RwNull True)"

definition unary_gen :: "opcode \<Rightarrow> reg_id \<Rightarrow> reg_id \<Rightarrow> rw_result" where
  "unary_gen opc src1 dst =
     (let n = move_need_spill XMM src1 dst in
      if n = 0 then Rw True (move_case_0 XMM opc src1 dst)
      else if n = 1 then Rw True (move_case_1 XMM opc src1 dst)
      else if n = 2 then Rw True (unary_case_2 XMM opc src1 dst)
      else if n = 3 then Rw True (unary_case_3 XMM opc src1 dst)
      else RwNull True)"

definition low_reg2disp :: "vclass \<Rightarrow> opcode \<Rightarrow> reg_id \<Rightarrow> opnd \<Rightarrow> rw_result" where
  "low_reg2disp c opc src1 dst_opnd =
     (if NEED_SPILL c src1 then Rw True (store_case_1 c opc src1 dst_opnd) else Rw True (store_case_0 c opc src1 dst_opnd))"

definition low_disp2reg :: "vclass \<Rightarrow> opcode \<Rightarrow> opnd \<Rightarrow> reg_id \<Rightarrow> rw_result" where
  "low_disp2reg c opc src1_opnd dst =
     (if NEED_SPILL c dst then Rw True (load_case_1 c opc src1_opnd dst) else Rw True (load_case_0 c opc src1_opnd dst))"

definition vmovaps_xmm_reg2reg_gen :: "reg_id \<Rightarrow> reg_id \<Rightarrow> reg_id \<Rightarrow> rw_result" where
  "vmovaps_xmm_reg2reg_gen src1 dst mask_reg = low_reg2reg XMM OP_vmovaps src1 dst"

definition vmovaps_xmm_reg2disp_gen :: "reg_id \<Rightarrow> opnd \<Rightarrow> reg_id \<Rightarrow> rw_result" where
  "vmovaps_xmm_reg2disp_gen src1 dst_opnd mask_reg = low_reg2disp XMM OP_vmovaps src1 dst_opnd"

definition vmovaps_xmm_disp2reg_gen :: "opnd \<Rightarrow> reg_id \<Rightarrow> reg_id \<Rightarrow> rw_result" where
  "vmovaps_xmm_disp2reg_gen src1_opnd dst mask_reg = low_disp2reg XMM OP_vmovaps src1_opnd dst"

definition vmovaps_ymm_reg2reg_gen :: "reg_id \<Rightarrow> reg_id \<Rightarrow> reg_id \<Rightarrow> rw_result" where
  "vmovaps_ymm_reg2reg_gen src1 dst mask_reg = low_reg2reg YMM OP_vmovaps src1 dst"

definition vmovaps_ymm_reg2disp_gen :: "reg_id \<Rightarrow> opnd \<Rightarrow> reg_id \<Rightarrow> rw_result" where
  "vmovaps_ymm_reg2disp_gen src1 dst_opnd mask_reg = low_reg2disp YMM OP_vmovaps src1 dst_opnd"

definition vmovaps_ymm_disp2reg_gen :: "opnd \<Rightarrow> reg_id \<Rightarrow> reg_id \<Rightarrow> rw_result" where
  "vmovaps_ymm_disp2reg_gen src1_opnd dst mask_reg = low_disp2reg YMM OP_vmovaps src1_opnd dst"

definition vmovdqu32_xmm_reg2disp_gen :: "reg_id \<Rightarrow> opnd \<Rightarrow> reg_id \<Rightarrow> rw_result" where
  "vmovdqu32_xmm_reg2disp_gen src1 dst_opnd mask_reg = low_reg2disp XMM OP_vmovdqu src1 dst_opnd"

definition vmovdqu32_ymm_reg2disp_gen :: "reg_id \<Rightarrow> opnd \<Rightarrow> reg_id \<Rightarrow> rw_result" where
  "vmovdqu32_ymm_reg2disp_gen src1 dst_opnd mask_reg = low_reg2disp YMM OP_vmovdqu src1 dst_opnd"

definition vmovdqu16_xmm_disp2reg_gen :: "opnd \<Rightarrow> reg_id \<Rightarrow> reg_id \<Rightarrow> rw_result" where
  "vmovdqu16_xmm_disp2reg_gen src1_opnd dst mask_reg = low_disp2reg XMM OP_vmovdqu src1_opnd dst"

definition vmovdqu16_ymm_disp2reg_gen :: "opnd \<Rightarrow> reg_id \<Rightarrow> reg_id \<Rightarrow> rw_result" where
  "vmovdqu16_ymm_disp2reg_gen src1_opnd dst mask_reg = low_disp2reg YMM OP_vmovdqu src1_opnd dst"

definition vmovdqu32_ymm_disp2reg_gen :: "opnd \<Rightarrow> reg_id \<Rightarrow> reg_id \<Rightarrow> rw_result" where
  "vmovdqu32_ymm_disp2reg_gen src1_opnd dst mask_reg = low_disp2reg YMM OP_vmovdqu src1_opnd dst"

text \<open>
  The code for a memory operand asks for its base register, which an operand of another kind
  does not have.
\<close>

definition base_disp :: "opnd \<Rightarrow> bool" where
  "base_disp op \<longleftrightarrow> opnd_get_base op \<noteq> None"

definition vmovaps_zmm_reg2reg_gen :: "reg_id \<Rightarrow> reg_id \<Rightarrow> reg_id \<Rightarrow> rw_result" where
  "vmovaps_zmm_reg2reg_gen src1 dst mask_reg =
     (let n = zmm_move_need_spill src1 dst in
      if n = 0 then Rw True (vmovaps_zmm_case_0 src1 dst)
      else if n = 1 then RwNull True
      else if n = 2 then RwNull True
      else if n = 3 then Rw True (vmovaps_zmm_case_3 src1 dst)
      else RwNull True)"

definition vmovaps_zmm_reg2disp_gen :: "reg_id \<Rightarrow> opnd \<Rightarrow> reg_id \<Rightarrow> rw_result" where
  "vmovaps_zmm_reg2disp_gen src1 dst_opnd mask_reg =
     (if \<not> base_disp dst_opnd then RwCrash
      else if NEED_SPILL_ZMM src1 then Rw True (zstore_case_1 OP_vmovaps src1 dst_opnd)
      else Rw True (zstore_case_0 OP_vmovaps src1 dst_opnd))"

definition vmovaps_zmm_disp2reg_gen :: "opnd \<Rightarrow> reg_id \<Rightarrow> reg_id \<Rightarrow> rw_result" where
  "vmovaps_zmm_disp2reg_gen src1_opnd dst mask_reg =
     (if \<not> base_disp src1_opnd then RwCrash
      else if NEED_SPILL_ZMM dst then Rw True (vmovaps_zload_case_1 src1_opnd dst)
      else Rw True (vmovaps_zload_case_0 src1_opnd dst))"

definition dqu_reg2reg :: "reg_id \<Rightarrow> reg_id \<Rightarrow> rw_result" where
  "dqu_reg2reg src dst =
     (let n = zmm_move_need_spill src dst in
      if n = 0 then Rw True (dqu_case_0 src dst)
      else if n = 1 then Rw True (dqu_case_1 src dst)
      else if n = 2 then Rw True (dqu_case_2 src dst)
      else if n = 3 then Rw True (dqu_case_3 src dst)
      else RwNull True)"

definition dqu_disp2reg :: "opnd \<Rightarrow> reg_id \<Rightarrow> rw_result" where
  "dqu_disp2reg src_opnd dst =
     (if \<not> base_disp src_opnd then RwCrash
      else if NEED_SPILL_ZMM dst then Rw True (dqu_zload_case_1 src_opnd dst)
      else Rw True (dqu_zload_case_0 src_opnd dst))"

definition vmovdqu8_zmm_reg2reg_gen :: "reg_id \<Rightarrow> reg_id \<Rightarrow> reg_id \<Rightarrow> rw_result" where
  "vmovdqu8_zmm_reg2reg_gen src dst mask_reg = dqu_reg2reg src dst"

definition vmovdqu8_zmm_disp2reg_gen :: "opnd \<Rightarrow> reg_id \<Rightarrow> reg_id \<Rightarrow> rw_result" where
  "vmovdqu8_zmm_disp2reg_gen src_opnd dst mask_reg = dqu_disp2reg src_opnd dst"

definition vmovdqu16_zmm_reg2reg_gen :: "reg_id \<Rightarrow> reg_id \<Rightarrow> reg_id \<Rightarrow> rw_result" where
  "vmovdqu16_zmm_reg2reg_gen src dst mask_reg = dqu_reg2reg src dst"

definition vmovdqu16_zmm_disp2reg_gen :: "opnd \<Rightarrow> reg_id \<Rightarrow> reg_id \<Rightarrow> rw_result" where
  "vmovdqu16_zmm_disp2reg_gen src_opnd dst mask_reg = dqu_disp2reg src_opnd dst"

definition vmovdqu32_zmm_reg2reg_gen :: "reg_id \<Rightarrow> reg_id \<Rightarrow> reg_id \<Rightarrow> rw_result" where
  "vmovdqu32_zmm_reg2reg_gen src dst mask_reg = dqu_reg2reg src dst"

definition vmovdqu32_zmm_disp2reg_gen :: "opnd \<Rightarrow> reg_id \<Rightarrow> reg_id \<Rightarrow> rw_result" where
  "vmovdqu32_zmm_disp2reg_gen src_opnd dst mask_reg = dqu_disp2reg src_opnd dst"

definition vmovdqu64_zmm_reg2reg_gen :: "reg_id \<Rightarrow> reg_id \<Rightarrow> reg_id \<Rightarrow> rw_result" where
  "vmovdqu64_zmm_reg2reg_gen src dst mask_reg = dqu_reg2reg src dst"

definition vmovdqu64_zmm_disp2reg_gen :: "opnd \<Rightarrow> reg_id \<Rightarrow> reg_id \<Rightarrow> rw_result" where
  "vmovdqu64_zmm_disp2reg_gen src_opnd dst mask_reg = dqu_disp2reg src_opnd dst"

definition vmovdqu8_zmm_reg2disp_gen :: "reg_id \<Rightarrow> opnd \<Rightarrow> reg_id \<Rightarrow> rw_result" where
  "vmovdqu8_zmm_reg2disp_gen src dst_opnd mask_reg =
     (if \<not> base_disp dst_opnd then RwCrash
      else if NEED_SPILL_ZMM src then Rw True (zstore_case_1 OP_vmovdqu src dst_opnd)
      else Rw True (zstore_reload src dst_opnd))"

definition vmovdqu32_zmm_reg2disp_gen :: "reg_id \<Rightarrow> opnd \<Rightarrow> reg_id \<Rightarrow> rw_result" where
  "vmovdqu32_zmm_reg2disp_gen src dst_opnd mask_reg =
     (if \<not> base_disp dst_opnd then RwCrash
      else if NEED_SPILL_ZMM src then Rw True (zstore_case_1 OP_vmovdqu src dst_opnd)
      else Rw True (zstore_reload src dst_opnd))"

definition vmovdqu16_zmm_reg2disp_gen :: "reg_id \<Rightarrow> opnd \<Rightarrow> reg_id \<Rightarrow> rw_result" where
  "vmovdqu16_zmm_reg2disp_gen src dst_opnd mask_reg =
     (if \<not> base_disp dst_opnd then RwCrash
      else if NEED_SPILL_ZMM src then Rw True (zstore_slot0 src dst_opnd)
      else Rw True (zstore_reload src dst_opnd))"

definition vmovdqu64_zmm_reg2disp_gen :: "reg_id \<Rightarrow> opnd \<Rightarrow> reg_id \<Rightarrow> rw_result" where
  "vmovdqu64_zmm_reg2disp_gen src dst_opnd mask_reg =
     (if \<not> base_disp dst_opnd then RwCrash
      else if NEED_SPILL_ZMM src then Rw True (zstore_case_1 OP_vmovdqu src dst_opnd)
      else Rw True (zstore_case_0 OP_vmovdqu src dst_opnd))"

text \<open>These functions take source operand 0 for their source.\<close>

definition two_regs :: "(reg_id \<Rightarrow> reg_id \<Rightarrow> rw_result) \<Rightarrow> instr \<Rightarrow> rw_result" where
  "two_regs f i = (case (src_reg i 0, dst_reg i 0) of (Some src1, Some dst) \<Rightarrow> f src1 dst | _ \<Rightarrow> RwCrash)"

definition rw_func_vmovups :: "instr \<Rightarrow> rw_result" where
  "rw_func_vmovups = two_regs (unary_gen OP_vmovups)"

definition rw_func_vmovupd :: "instr \<Rightarrow> rw_result" where
  "rw_func_vmovupd = two_regs (unary_gen OP_vmovupd)"

definition rw_func_vmovlps :: "instr \<Rightarrow> rw_result" where
  "rw_func_vmovlps = two_regs (unary_gen OP_vmovlps)"

definition rw_func_vmovsldup :: "instr \<Rightarrow> rw_result" where
  "rw_func_vmovsldup = two_regs (unary_gen OP_vmovsldup)"

definition rw_func_vmovlpd :: "instr \<Rightarrow> rw_result" where
  "rw_func_vmovlpd = two_regs (unary_gen OP_vmovlpd)"

definition rw_func_vmovddup :: "instr \<Rightarrow> rw_result" where
  "rw_func_vmovddup = two_regs (unary_gen OP_vmovddup)"

definition rw_func_vmovhps :: "instr \<Rightarrow> rw_result" where
  "rw_func_vmovhps = two_regs (unary_gen OP_vmovhps)"

definition rw_func_vmovshdup :: "instr \<Rightarrow> rw_result" where
  "rw_func_vmovshdup = two_regs (unary_gen OP_vmovshdup)"

definition rw_func_vmovhpd :: "instr \<Rightarrow> rw_result" where
  "rw_func_vmovhpd = two_regs (unary_gen OP_vmovhpd)"

definition rw_func_vmovapd :: "instr \<Rightarrow> rw_result" where
  "rw_func_vmovapd = two_regs (unary_gen OP_vmovapd)"

definition rw_func_vmovntps :: "instr \<Rightarrow> rw_result" where
  "rw_func_vmovntps = two_regs (unary_gen OP_vmovntps)"

definition rw_func_vmovntpd :: "instr \<Rightarrow> rw_result" where
  "rw_func_vmovntpd = two_regs (unary_gen OP_vmovntpd)"

text \<open>\<open>vmovaps\<close> chooses by the kinds of its operands and the class of a register.\<close>

fun is_base_disp :: "opnd \<Rightarrow> bool" where
  "is_base_disp (OMem _ _ _ _ _) = True"
| "is_base_disp (OTls _ _) = True"
| "is_base_disp _ = False"

definition rw_func_vmovaps :: "instr \<Rightarrow> rw_result" where
  "rw_func_vmovaps i =
     (case (src_reg i 0, instr_get_src i 1, instr_get_dst i 0) of
        (Some mask_reg, Some src1_opnd, Some dst_opnd) \<Rightarrow>
          (case opnd_get_reg src1_opnd of
             Some src1 \<Rightarrow>
               (case opnd_get_reg dst_opnd of
                  Some dst \<Rightarrow>
                    if IS_XMM_REG dst then vmovaps_xmm_reg2reg_gen src1 dst mask_reg
                    else if IS_YMM_REG dst then vmovaps_ymm_reg2reg_gen src1 dst mask_reg
                    else if IS_ZMM_REG dst then vmovaps_zmm_reg2reg_gen src1 dst mask_reg
                    else RwNull False
                | None \<Rightarrow>
                    if IS_XMM_REG src1 then vmovaps_xmm_reg2disp_gen src1 dst_opnd mask_reg
                    else if IS_YMM_REG src1 then vmovaps_ymm_reg2disp_gen src1 dst_opnd mask_reg
                    else if IS_ZMM_REG src1 then vmovaps_zmm_reg2disp_gen src1 dst_opnd mask_reg
                    else RwNull False)
           | None \<Rightarrow>
               if is_base_disp src1_opnd
               then (case opnd_get_reg dst_opnd of
                       None \<Rightarrow> RwCrash
                     | Some dst \<Rightarrow>
                         if IS_XMM_REG dst then vmovaps_xmm_disp2reg_gen src1_opnd dst mask_reg
                         else if IS_YMM_REG dst then vmovaps_ymm_disp2reg_gen src1_opnd dst mask_reg
                         else if IS_ZMM_REG dst then vmovaps_zmm_disp2reg_gen src1_opnd dst mask_reg
                         else RwNull False)
               else RwNull False)
      | _ \<Rightarrow> RwCrash)"

text \<open>The entries of the table for these functions.\<close>

definition move_funcs :: "(nat \<times> (instr \<Rightarrow> rw_result)) list" where
  "move_funcs =
     [(2, rw_func_vmovups), (3, rw_func_vmovupd), (4, rw_func_vmovlps), (5, rw_func_vmovsldup), (6, rw_func_vmovlpd),
      (7, rw_func_vmovddup), (12, rw_func_vmovhps), (13, rw_func_vmovshdup), (14, rw_func_vmovhpd), (15, rw_func_vmovaps),
      (16, rw_func_vmovapd), (19, rw_func_vmovntps), (20, rw_func_vmovntpd)]"

section \<open>What the \<open>zmm\<close> cases do\<close>

lemmas move_emit = zslot_ymm zslot_zmm ZMM_TO_YMM_reg Let_def move_create_defs minstr.simps ginstr.simps vbase.simps opsz.simps
  list.map if_True if_False add_0_right

lemmas move_run = fold_simps mrun.simps grun.simps fst_conv snd_conv

lemma zmm_find_one:
  obtains e where "find_one_available_spill_ymm (DR_REG_YMM0 + r) = DR_REG_YMM0 + e" "10 \<le> e" "e \<le> 15" "e \<noteq> r"
  using find_one_other [of YMM r] by auto

lemma zmm_find_avoiding:
  obtains e where "find_available_spill_ymm_avoiding (DR_REG_YMM0 + p) (DR_REG_YMM0 + q) DR_REG_NULL = DR_REG_YMM0 + e"
    "10 \<le> e" "e \<le> 15" "e \<noteq> p" "e \<noteq> q"
  using find_avoiding_other [of YMM "DR_REG_YMM0 + p" "DR_REG_YMM0 + q"] by auto

text \<open>Copying a register: what the code does to the cells.\<close>

lemma zmm_copy:
  assumes "code = map (minstr YMM) xs" "list_all (mvalid YMM s) xs" "a < 32" "d < 32"
    and "\<And>r h. r < 32 \<Longrightarrow> view (fst (fold (mrun YMM s) xs (vcells s, mem s))) r h
        = (if r = d then view (vcells s) a h else view (vcells s) r h)"
    and "snd (fold (mrun YMM s) xs (vcells s, mem s)) = mem s"
  shows "\<exists>t. exec code s = Inr t \<and> abs_state t = set_z d (azmm (abs_state s) a) (abs_state s)"
proof -
  have "\<exists>t. exec code s = Inr t \<and> abs_state t = (set_z d (azmm (abs_state s) a) (abs_state s))\<lparr>amem := mem s\<rparr>"
    using assms by (intro mem_code [where xs = xs and w = "view (vcells s) a"]) (simp_all add: join_view)
  then show ?thesis by (simp add: set_z_def abs_state_def)
qed

lemma dqu_case_0_run:
  assumes "a < 16" "d < 16"
  shows "\<exists>t. exec (dqu_case_0 (DR_REG_ZMM0 + a) (DR_REG_ZMM0 + d)) s = Inr t
     \<and> abs_state t = set_z d (azmm (abs_state s) a) (abs_state s)"
proof -
  obtain e where e: "find_available_spill_ymm_avoiding (DR_REG_YMM0 + a) (DR_REG_YMM0 + d) DR_REG_NULL = DR_REG_YMM0 + e"
      "10 \<le> e" "e \<le> 15" "e \<noteq> a" "e \<noteq> d" by (rule zmm_find_avoiding)
  have lt: "a < 32" "d < 32" "e < 32" using assms e(3) by simp_all
  show ?thesis
  proof (rule zmm_copy [where xs = "map Cell [Move (Z e False) (Y e), Una OP_vmovdqu (Y d) (Y a), Move (Y e) (Z a True), Move (Z d True) (Y e), Move (Y e) (Z e False)]"])
    show "dqu_case_0 (DR_REG_ZMM0 + a) (DR_REG_ZMM0 + d) = map (minstr YMM) (map Cell [Move (Z e False) (Y e), Una OP_vmovdqu (Y d) (Y a), Move (Y e) (Z a True), Move (Z d True) (Y e), Move (Y e) (Z e False)])"
      using lt by (simp only: dqu_case_0_def e(1) move_emit)
  qed (use assms e lt in \<open>auto simp: view_def vop1_def mops_def\<close>)
qed
lemma dqu_case_1_run:
  assumes "16 \<le> a" "a < 32" "d < 16"
  shows "\<exists>t. exec (dqu_case_1 (DR_REG_ZMM0 + a) (DR_REG_ZMM0 + d)) s = Inr t
     \<and> abs_state t = set_z d (azmm (abs_state s) a) (abs_state s)"
proof -
  obtain e where e: "find_one_available_spill_ymm (DR_REG_YMM0 + d) = DR_REG_YMM0 + e" "10 \<le> e" "e \<le> 15" "e \<noteq> d"
    by (rule zmm_find_one)
  have lt: "a < 32" "d < 32" "e < 32" using assms e by simp_all
  show ?thesis
  proof (rule zmm_copy [where xs = "map Cell [Move (Z e False) (Y e), Move (Y e) (Z a False), Una OP_vmovdqu (Y d) (Y e), Move (Y e) (Z a True), Move (Z d True) (Y e), Move (Y e) (Z e False)]"])
    show "dqu_case_1 (DR_REG_ZMM0 + a) (DR_REG_ZMM0 + d) = map (minstr YMM) (map Cell [Move (Z e False) (Y e), Move (Y e) (Z a False), Una OP_vmovdqu (Y d) (Y e), Move (Y e) (Z a True), Move (Z d True) (Y e), Move (Y e) (Z e False)])"
      using lt by (simp only: dqu_case_1_def e(1) move_emit)
  qed (use assms e lt in \<open>auto simp: view_def vop1_def mops_def\<close>)
qed

lemma dqu_case_2_run:
  assumes "a < 16" "16 \<le> d" "d < 32"
  shows "\<exists>t. exec (dqu_case_2 (DR_REG_ZMM0 + a) (DR_REG_ZMM0 + d)) s = Inr t
     \<and> abs_state t = set_z d (azmm (abs_state s) a) (abs_state s)"
proof -
  obtain e where e: "find_one_available_spill_ymm (DR_REG_YMM0 + a) = DR_REG_YMM0 + e" "10 \<le> e" "e \<le> 15" "e \<noteq> a"
    by (rule zmm_find_one)
  have lt: "a < 32" "d < 32" "e < 32" using assms e by simp_all
  show ?thesis
  proof (rule zmm_copy [where xs = "map Cell [Move (Z e False) (Y e), Move (Z d False) (Y a), Move (Y e) (Z a True), Move (Z d True) (Y e), Move (Y e) (Z e False)]"])
    show "dqu_case_2 (DR_REG_ZMM0 + a) (DR_REG_ZMM0 + d) = map (minstr YMM) (map Cell [Move (Z e False) (Y e), Move (Z d False) (Y a), Move (Y e) (Z a True), Move (Z d True) (Y e), Move (Y e) (Z e False)])"
      using lt by (simp only: dqu_case_2_def e(1) move_emit)
  qed (use assms e lt in \<open>auto simp: view_def vop1_def mops_def\<close>)
qed

lemma ymm10: "DR_REG_YMM10 = DR_REG_YMM0 + 10" "DR_REG_YMM11 = DR_REG_YMM0 + 11" by simp_all

lemma dqu_case_3_run:
  assumes "16 \<le> a" "a < 32" "16 \<le> d" "d < 32"
  shows "\<exists>t. exec (dqu_case_3 (DR_REG_ZMM0 + a) (DR_REG_ZMM0 + d)) s = Inr t
     \<and> abs_state t = set_z d (azmm (abs_state s) a) (abs_state s)"
proof -
  have lt: "a < 32" "d < 32" "(10 :: nat) < 32" using assms TrueI by simp_all
  show ?thesis
  proof (rule zmm_copy [where xs = "map Cell [Move (Z 10 False) (Y 10), Move (Y 10) (Z a False), Move (Z d False) (Y 10), Move (Y 10) (Z a True), Move (Z d True) (Y 10), Move (Y 10) (Z 10 False)]"])
    show "dqu_case_3 (DR_REG_ZMM0 + a) (DR_REG_ZMM0 + d) = map (minstr YMM) (map Cell [Move (Z 10 False) (Y 10), Move (Y 10) (Z a False), Move (Z d False) (Y 10), Move (Y 10) (Z a True), Move (Z d True) (Y 10), Move (Y 10) (Z 10 False)])"
      using lt by (simp only: dqu_case_3_def ymm10 move_emit)
  qed (use assms TrueI lt in \<open>auto simp: view_def vop1_def mops_def\<close>)
qed

lemma ymm_null: "find_one_available_spill_ymm DR_REG_NULL = DR_REG_YMM0 + 10"
    "find_one_available_spill_ymm (DR_REG_YMM0 + 10) = DR_REG_YMM0 + 11" "find_one_available_spill_ymm (DR_REG_YMM0 + 11) = DR_REG_YMM0 + 10"
  by (simp_all add: find_one_available_spill_ymm_def scan_def slots_def upt_conv_Cons)

lemma vmovaps_zmm_case_0_run:
  assumes "a < 16" "d < 16"
  shows "\<exists>t. exec (vmovaps_zmm_case_0 (DR_REG_ZMM0 + a) (DR_REG_ZMM0 + d)) s = Inr t
     \<and> abs_state t = set_z d (azmm (abs_state s) a) (abs_state s)"
proof -
  obtain e where e: "find_available_spill_ymm_avoiding (DR_REG_YMM0 + a) (DR_REG_YMM0 + d) DR_REG_NULL = DR_REG_YMM0 + e"
      "10 \<le> e" "e \<le> 15" "e \<noteq> a" "e \<noteq> d" by (rule zmm_find_avoiding)
  obtain g where g: "find_available_spill_ymm_avoiding (DR_REG_YMM0 + a) (DR_REG_YMM0 + e) (DR_REG_YMM0 + d) = DR_REG_YMM0 + g"
      "10 \<le> g" "g \<le> 15" "g \<noteq> a" "g \<noteq> e" "g \<noteq> d"
    using ymm_slots.avoiding [of "DR_REG_YMM0 + a" "DR_REG_YMM0 + e" "DR_REG_YMM0 + d"] that
      [of "find_available_spill_ymm_avoiding (DR_REG_YMM0 + a) (DR_REG_YMM0 + e) (DR_REG_YMM0 + d) - DR_REG_YMM0"]
    by (auto simp: find_available_spill_ymm_avoiding_def)
  have lt: "a < 32" "d < 32" "e < 32" "g < 32" using assms e g by simp_all
  let ?xs = "map Cell [Move (Z e False) (Y e), Move (Z g False) (Y g), Move (Y e) (Z a True), Move (Y g) (Z d True),
      Una OP_vmovaps (Y d) (Y a), Una OP_vmovaps (Y g) (Y e), Move (Z d False) (Y d), Move (Z d True) (Y g),
      Move (Y e) (Z e False), Move (Y g) (Z g False)]"
  show ?thesis
  proof (rule zmm_copy [where xs = ?xs])
    show "vmovaps_zmm_case_0 (DR_REG_ZMM0 + a) (DR_REG_ZMM0 + d) = map (minstr YMM) ?xs"
      using lt by (simp only: vmovaps_zmm_case_0_def e(1) g(1) move_emit)
  qed (use assms e g lt in \<open>auto simp: view_def vop1_def mops_def\<close>)
qed

lemma vmovaps_zmm_case_3_run:
  assumes "16 \<le> a" "a < 32" "16 \<le> d" "d < 32"
  shows "\<exists>t. exec (vmovaps_zmm_case_3 (DR_REG_ZMM0 + a) (DR_REG_ZMM0 + d)) s = Inr t
     \<and> abs_state t = set_z d (azmm (abs_state s) a) (abs_state s)"
proof -
  have lt: "a < 32" "d < 32" "(10 :: nat) < 32" "(11 :: nat) < 32" using assms by simp_all
  let ?xs = "map Cell [Move (Z 10 False) (Y 10), Move (Z 11 False) (Y 11), Move (Z 10 False) (Y 10), Move (Z 11 False) (Y 11),
      Move (Y 10) (Z a False), Move (Y 11) (Z a True), Una OP_vmovaps (Y 10) (Y 10), Una OP_vmovaps (Y 11) (Y 11),
      Move (Z d False) (Y 10), Move (Z d True) (Y 11), Move (Y 10) (Z 10 False), Move (Y 11) (Z 11 False),
      Move (Y 10) (Z 10 False), Move (Y 11) (Z 11 False)]"
  show ?thesis
  proof (rule zmm_copy [where xs = ?xs])
    show "vmovaps_zmm_case_3 (DR_REG_ZMM0 + a) (DR_REG_ZMM0 + d) = map (minstr YMM) ?xs"
      using lt by (simp only: vmovaps_zmm_case_3_def ymm_null move_emit)
  qed (use assms lt in \<open>auto simp: view_def vop1_def mops_def\<close>)
qed

section \<open>\<open>zmm\<close> registers and memory\<close>

text \<open>
  \<open>zmm_access s opc op\<close>: a memory operand of 64 bytes that are all mapped, with a displacement to which 32
  can be added, at an address the instruction accepts.
\<close>

definition zmm_access :: "mstate \<Rightarrow> opcode \<Rightarrow> opnd \<Rightarrow> bool" where
  "zmm_access s opc op \<longleftrightarrow> (case op of
      OMem b i sc dp sz \<Rightarrow> sz = 64 \<and> - (2 ^ 31) \<le> dp \<and> dp + 32 < 2 ^ 31 \<and> mapped_range s (addr s op) 64
        \<and> (opc = OP_vmovdqu \<or> opc = OP_vmovaps \<and> unat (addr s op) mod 32 = 0)
    | _ \<Rightarrow> False)"

lemma mapped_range_split: "mapped_range s a 64 \<Longrightarrow> mapped_range s a 32 \<and> mapped_range s (a + 32) 32"
proof -
  assume m: "mapped_range s a 64"
  have "mapped s (a + 32 + of_nat i)" if "i < 32" for i
  proof -
    have "mapped s (a + of_nat (32 + i))" using m that unfolding mapped_range_def list_all_iff by (auto simp del: of_nat_add)
    then show ?thesis by (simp add: add.assoc)
  qed
  then show ?thesis using m by (simp add: mapped_range_def list_all_iff)
qed

lemma aligned_upper: "unat a mod 32 = 0 \<Longrightarrow> unat (a + 32) mod 32 = 0" for a :: "64 word"
proof -
  assume a: "unat a mod 32 = 0"
  have "unat (a + 32) = (unat a + 32) mod 2 ^ 64" by (simp add: unat_word_ariths)
  also have "\<dots> mod 32 = (unat a + 32) mod 32" by (rule mod_mod_cancel) simp
  finally show ?thesis using a by simp
qed

lemma mem_half_access:
  assumes "zmm_access s opc op"
  shows "base_disp op" "accessible s opc 32 (mem_half op h)" "addr s (mem_half op h) = addr s op + (if h then 32 else 0)"
proof -
  obtain b i sc dp where op: "op = OMem b i sc dp 64" "- (2 ^ 31) \<le> dp" "dp + 32 < 2 ^ 31" "mapped_range s (addr s op) 64"
      "opc = OP_vmovdqu \<or> opc = OP_vmovaps \<and> unat (addr s op) mod 32 = 0"
    using assms by (auto simp: zmm_access_def split: opnd.splits)
  have "signed_take_bit 31 (dp + 32) = dp + 32" using op(2,3) by (intro signed_take_bit_int_eq_self) simp_all
  then have half: "mem_half op h = OMem b i sc (if h then dp + 32 else dp) 32"
    by (simp add: mem_half_def op(1) opnd_create_base_disp_def)
  show "base_disp op" by (simp add: base_disp_def op(1))
  show addr: "addr s (mem_half op h) = addr s op + (if h then 32 else 0)"
    unfolding half by (simp add: op(1) ea_def add.assoc)
  show "accessible s opc 32 (mem_half op h)"
    using op(5) mapped_range_split [OF op(4)] aligned_upper [of "addr s op"] unfolding accessible_def addr by (auto simp: half)
qed

text \<open>The reference results of a load and a store.\<close>

definition spec_load :: "nat \<Rightarrow> 64 word \<Rightarrow> astate \<Rightarrow> astate" where
  "spec_load d p s = set_z d (clip 64 (mem_get (amem s) p)) s"

definition spec_store :: "nat \<Rightarrow> 64 word \<Rightarrow> astate \<Rightarrow> astate" where
  "spec_store a p s = s\<lparr>amem := mem_put (amem s) p 64 (azmm s a)\<rparr>"

lemma zmm_load:
  assumes "code = map (minstr YMM) xs" "list_all (mvalid YMM s) xs" "d < 32"
    and "\<And>r h. r < 32 \<Longrightarrow> view (fst (fold (mrun YMM s) xs (vcells s, mem s))) r h
        = (if r = d then clip 32 (mem_get (mem s) (p + (if h then 32 else 0))) else view (vcells s) r h)"
    and "snd (fold (mrun YMM s) xs (vcells s, mem s)) = mem s"
  shows "\<exists>t. exec code s = Inr t \<and> abs_state t = spec_load d p (abs_state s)"
proof -
  have "\<exists>t. exec code s = Inr t \<and> abs_state t = (set_z d (clip 64 (mem_get (mem s) p)) (abs_state s))\<lparr>amem := mem s\<rparr>"
    using assms by (intro mem_code [where xs = xs and w = "\<lambda>h. clip 32 (mem_get (mem s) (p + (if h then 32 else 0)))"])
      (simp_all only: join_mem)
  then show ?thesis by (simp add: spec_load_def set_z_def abs_state_def)
qed

lemma zmm_store:
  assumes "code = map (minstr YMM) xs" "list_all (mvalid YMM s) xs" "a < 32"
    and "\<And>r h. r < 32 \<Longrightarrow> view (fst (fold (mrun YMM s) xs (vcells s, mem s))) r h = view (vcells s) r h"
    and "snd (fold (mrun YMM s) xs (vcells s, mem s))
        = mem_put (mem_put (mem s) p 32 (view (vcells s) a False)) (p + 32) 32 (view (vcells s) a True)"
  shows "\<exists>t. exec code s = Inr t \<and> abs_state t = spec_store a p (abs_state s)"
proof -
  have "\<exists>t. exec code s = Inr t \<and> abs_state t = (set_z a (azmm (abs_state s) a) (abs_state s))\<lparr>amem := mem_put (mem s) p 64 (azmm (abs_state s) a)\<rparr>"
    using assms by (intro mem_code [where xs = xs and w = "view (vcells s) a"]) (simp_all add: join_view mem_put_join)
  then show ?thesis unfolding set_z_same spec_store_def by (simp add: abs_state_def)
qed

lemma zstore_case_0_run:
  assumes "a < 16" "zmm_access s opc op"
  shows "\<exists>t. exec (zstore_case_0 opc (DR_REG_ZMM0 + a) op) s = Inr t \<and> abs_state t = spec_store a (addr s op) (abs_state s)"
proof -
  obtain e where e: "find_one_available_spill_ymm (DR_REG_YMM0 + a) = DR_REG_YMM0 + e" "10 \<le> e" "e \<le> 15" "e \<noteq> a"
    by (rule zmm_find_one)
  have lt: "a < 32" "e < 32" using assms e by simp_all
  let ?xs = "[Cell (Move (Z e False) (Y e)), Cell (Move (Y e) (Z a True)), Store opc (mem_half op False) a,
      Store opc (mem_half op True) e, Cell (Move (Y e) (Z e False))]"
  show ?thesis
  proof (rule zmm_store [where xs = ?xs])
    show "zstore_case_0 opc (DR_REG_ZMM0 + a) op = map (minstr YMM) ?xs"
      using lt by (simp only: zstore_case_0_def e(1) move_emit)
  qed (use assms e lt mem_half_access [OF assms(2)] in \<open>auto simp: view_def\<close>)
qed

lemma zstore_case_1_run:
  assumes "16 \<le> a" "a < 32" "zmm_access s opc op"
  shows "\<exists>t. exec (zstore_case_1 opc (DR_REG_ZMM0 + a) op) s = Inr t \<and> abs_state t = spec_store a (addr s op) (abs_state s)"
proof -
  have lt: "a < 32" "(10 :: nat) < 32" "(11 :: nat) < 32" using assms by simp_all
  let ?xs = "[Cell (Move (Z 10 False) (Y 10)), Cell (Move (Z 11 False) (Y 11)), Cell (Move (Y 10) (Z a False)),
      Cell (Move (Y 11) (Z a True)), Store opc (mem_half op False) 10, Store opc (mem_half op True) 11,
      Cell (Move (Y 10) (Z 10 False)), Cell (Move (Y 11) (Z 11 False))]"
  show ?thesis
  proof (rule zmm_store [where xs = ?xs])
    show "zstore_case_1 opc (DR_REG_ZMM0 + a) op = map (minstr YMM) ?xs"
      using lt by (simp only: zstore_case_1_def ymm_null move_emit)
  qed (use assms lt mem_half_access [OF assms(3)] in \<open>auto simp: view_def\<close>)
qed

lemma zstore_slot0_eq: "zstore_slot0 r op = zstore_case_1 OP_vmovdqu r op"
  by (simp only: zstore_slot0_def zstore_case_1_def ymm10 ymm_null Let_def move_create_defs)

lemma vmovaps_zload_case_0_run:
  assumes "d < 16" "zmm_access s OP_vmovaps op"
  shows "\<exists>t. exec (vmovaps_zload_case_0 op (DR_REG_ZMM0 + d)) s = Inr t \<and> abs_state t = spec_load d (addr s op) (abs_state s)"
proof -
  obtain e where e: "find_one_available_spill_ymm (DR_REG_YMM0 + d) = DR_REG_YMM0 + e" "10 \<le> e" "e \<le> 15" "e \<noteq> d"
    by (rule zmm_find_one)
  have lt: "d < 32" "e < 32" using assms e by simp_all
  let ?xs = "[Cell (Move (Z e False) (Y e)), Load OP_vmovaps d (mem_half op False), Load OP_vmovaps e (mem_half op True),
      Cell (Move (Z d False) (Y d)), Cell (Move (Z d True) (Y e)), Cell (Move (Y e) (Z e False))]"
  show ?thesis
  proof (rule zmm_load [where xs = ?xs])
    show "vmovaps_zload_case_0 op (DR_REG_ZMM0 + d) = map (minstr YMM) ?xs"
      using lt by (simp only: vmovaps_zload_case_0_def e(1) move_emit)
  qed (use assms e lt mem_half_access [OF assms(2)] in \<open>auto simp: view_def\<close>)
qed

lemma vmovaps_zload_case_1_run:
  assumes "16 \<le> d" "d < 32" "zmm_access s OP_vmovaps op"
  shows "\<exists>t. exec (vmovaps_zload_case_1 op (DR_REG_ZMM0 + d)) s = Inr t \<and> abs_state t = spec_load d (addr s op) (abs_state s)"
proof -
  have lt: "d < 32" "(10 :: nat) < 32" "(11 :: nat) < 32" using assms by simp_all
  let ?xs = "[Cell (Move (Z 10 False) (Y 10)), Cell (Move (Z 11 False) (Y 11)), Load OP_vmovaps 10 (mem_half op False),
      Load OP_vmovaps 11 (mem_half op True), Cell (Move (Z d False) (Y 10)), Cell (Move (Z d True) (Y 11)),
      Cell (Move (Y 10) (Z 10 False)), Cell (Move (Y 11) (Z 11 False))]"
  show ?thesis
  proof (rule zmm_load [where xs = ?xs])
    show "vmovaps_zload_case_1 op (DR_REG_ZMM0 + d) = map (minstr YMM) ?xs"
      using lt by (simp only: vmovaps_zload_case_1_def ymm_null move_emit)
  qed (use assms lt mem_half_access [OF assms(3)] in \<open>auto simp: view_def\<close>)
qed

lemma dqu_zload_case_0_run:
  assumes "d < 16" "zmm_access s OP_vmovdqu op"
  shows "\<exists>t. exec (dqu_zload_case_0 op (DR_REG_ZMM0 + d)) s = Inr t \<and> abs_state t = spec_load d (addr s op) (abs_state s)"
proof -
  obtain e where e: "find_one_available_spill_ymm (DR_REG_YMM0 + d) = DR_REG_YMM0 + e" "10 \<le> e" "e \<le> 15" "e \<noteq> d"
    by (rule zmm_find_one)
  have lt: "d < 32" "e < 32" using assms e by simp_all
  let ?xs = "[Cell (Move (Z e False) (Y e)), Load OP_vmovdqu d (mem_half op False), Load OP_vmovdqu e (mem_half op True),
      Cell (Move (Z d True) (Y e)), Cell (Move (Y e) (Z e False))]"
  show ?thesis
  proof (rule zmm_load [where xs = ?xs])
    show "dqu_zload_case_0 op (DR_REG_ZMM0 + d) = map (minstr YMM) ?xs"
      using lt by (simp only: dqu_zload_case_0_def e(1) move_emit)
  qed (use assms e lt mem_half_access [OF assms(2)] in \<open>auto simp: view_def\<close>)
qed

lemma dqu_zload_case_1_run:
  assumes "16 \<le> d" "d < 32" "zmm_access s OP_vmovdqu op"
  shows "\<exists>t. exec (dqu_zload_case_1 op (DR_REG_ZMM0 + d)) s = Inr t \<and> abs_state t = spec_load d (addr s op) (abs_state s)"
proof -
  have lt: "d < 32" "(10 :: nat) < 32" using assms by simp_all
  let ?xs = "[Cell (Move (Z 10 False) (Y 10)), Load OP_vmovdqu 10 (mem_half op False), Cell (Move (Z d False) (Y 10)),
      Load OP_vmovdqu 10 (mem_half op True), Cell (Move (Z d True) (Y 10)), Cell (Move (Y 10) (Z 10 False))]"
  show ?thesis
  proof (rule zmm_load [where xs = ?xs])
    show "dqu_zload_case_1 op (DR_REG_ZMM0 + d) = map (minstr YMM) ?xs"
      using lt by (simp only: dqu_zload_case_1_def ymm10 move_emit)
  qed (use assms lt mem_half_access [OF assms(3)] in \<open>auto simp: view_def\<close>)
qed

text \<open>
  The stores that first load the register from its slot: the slot of a register below 16 is
  not kept up to date, so the register is overwritten with what happens to be there.
\<close>

definition slot_value :: "mstate \<Rightarrow> nat \<Rightarrow> vec" where
  "slot_value s a = clip 64 (tls_get (tls s) (zslot a))"

lemma join_slot: "join (\<lambda>h. vcells s (Z a h)) = slot_value s a"
proof
  fix i show "join (\<lambda>h. vcells s (Z a h)) i = slot_value s a i"
    using mod_half [of i] by (auto simp: join_def slot_value_def clip_def tls_get_def)
qed

lemma zstore_reload_run:
  assumes "a < 16" "zmm_access s OP_vmovdqu op"
  shows "\<exists>t. exec (zstore_reload (DR_REG_ZMM0 + a) op) s = Inr t
     \<and> abs_state t = spec_store a (addr s op) (set_z a (slot_value s a) (abs_state s))"
proof -
  obtain e where e: "find_one_available_spill_ymm (DR_REG_YMM0 + a) = DR_REG_YMM0 + e" "10 \<le> e" "e \<le> 15" "e \<noteq> a"
    by (rule zmm_find_one)
  have lt: "a < 32" "e < 32" using assms e by simp_all
  let ?xs = "[Cell (Move (Z e False) (Y e)), Cell (Move (Y e) (Z a True)), Cell (Move (Y a) (Z a False)),
      Store OP_vmovdqu (mem_half op False) a, Store OP_vmovdqu (mem_half op True) e, Cell (Move (Y e) (Z e False))]"
  let ?w = "\<lambda>h. vcells s (Z a h)" and ?p = "addr s op"
  have "\<exists>t. exec (zstore_reload (DR_REG_ZMM0 + a) op) s = Inr t
      \<and> abs_state t = (set_z a (slot_value s a) (abs_state s))\<lparr>amem := mem_put (mem_put (mem s) ?p 32 (?w False)) (?p + 32) 32 (?w True)\<rparr>"
  proof (rule mem_code [where xs = ?xs and w = ?w])
    show "zstore_reload (DR_REG_ZMM0 + a) op = map (minstr YMM) ?xs"
      using lt by (simp only: zstore_reload_def e(1) move_emit)
  qed (use assms e lt mem_half_access [OF assms(2)] join_slot [of s a] in \<open>auto simp: view_def\<close>)
  moreover have "mem_put (mem_put (mem s) ?p 32 (?w False)) (?p + 32) 32 (?w True) = mem_put (mem s) ?p 64 (slot_value s a)"
    using mem_put_join [of "mem s" ?p ?w] by (simp only: join_slot)
  ultimately show ?thesis by (simp only: spec_store_def) (simp add: set_z_def abs_state_def)
qed

section \<open>What the \<open>xmm\<close> and \<open>ymm\<close> cases do\<close>

lemmas low_move_emit = zslot_class Let_def move_create_defs minstr.simps ginstr.simps SPILL_SLOT_vbase list.map if_False add_0_right

text \<open>Moving \<open>v\<close> into the low part of register \<open>d\<close>.\<close>

definition low_moved :: "vclass \<Rightarrow> nat \<Rightarrow> vec \<Rightarrow> mstate \<Rightarrow> instr list \<Rightarrow> bool" where
  "low_moved c d v s code \<longleftrightarrow> (\<exists>t. exec code s = Inr t \<and> low_put (opsz c) d v (abs_state s) (abs_state t))"

lemma low_copy:
  assumes "code = map (minstr c) xs" "list_all (mvalid c s) xs"
    and "\<And>r. r < 32 \<Longrightarrow> fst (fold (mrun c s) xs (gcells c s, mem s)) (Z r True) = gcells c s (Z r True)"
    and "\<And>r. r < 32 \<Longrightarrow> lview (fst (fold (mrun c s) xs (gcells c s, mem s))) r
        = (if r = d then clip (opsz c) v else lview (gcells c s) r)"
    and "snd (fold (mrun c s) xs (gcells c s, mem s)) = mem s"
  shows "low_moved c d v s code"
  using low_mem_code [OF assms(1-4) assms(5) [symmetric]] by (simp add: low_moved_def abs_state_def)

lemma clip_vop1_view:
  "a < 32 \<Longrightarrow> clip (opsz c) (vop1 opc (azmm (abs_state s) a)) = clip (opsz c) (vop1 opc (gcells c s (if a < 16 then Y a else Z a False)))"
  using lview_abs [of a c s] vop1_clip [of c opc "azmm (abs_state s) a"] by (simp add: lview_def)

lemma move_case_0_run:
  assumes "opc \<in> set mops" "a < 16" "d < 16"
  shows "low_moved c d (vop1 opc (azmm (abs_state s) a)) s (move_case_0 c opc (vbase c + a) (vbase c + d))"
  by (rule low_copy [where xs = "[Cell (Una opc (Y d) (Y a))]"])
    (use assms in \<open>auto simp: move_case_0_def move_create_defs lview_def clip_vop1_view\<close>)

lemma move_case_1_run:
  assumes "opc \<in> set mops" "16 \<le> a" "a < 32" "d < 16"
  shows "low_moved c d (vop1 opc (azmm (abs_state s) a)) s (move_case_1 c opc (vbase c + a) (vbase c + d))"
proof -
  obtain e where e: "find_one_available_spill c (vbase c + d) = vbase c + e" "10 \<le> e" "e \<le> 15" "e \<noteq> d"
    using find_one_other [of c d] by auto
  have lt: "a < 32" "d < 32" "e < 32" using assms e by simp_all
  let ?xs = "map Cell [Move (Z e False) (Y e), Move (Y e) (Z a False), Una opc (Y d) (Y e), Move (Y e) (Z e False)]"
  show ?thesis
  proof (rule low_copy [where xs = ?xs])
    show "move_case_1 c opc (vbase c + a) (vbase c + d) = map (minstr c) ?xs"
      using lt by (simp only: move_case_1_def e(1) low_move_emit)
  qed (use assms e lt in \<open>auto simp: lview_def clip_vop1_view\<close>)
qed

lemma move_store_run:
  assumes "opc \<in> set mops" "a < 16" "16 \<le> d" "d < 32" "10 \<le> e" "e \<le> 15"
  shows "low_moved c d (vop1 opc (azmm (abs_state s) a)) s
     (map (minstr c) (map Cell [Move (Z e False) (Y e), Una opc (Y e) (Y a), Move (Z d False) (Y e), Move (Y e) (Z e False)]))"
  by (rule low_copy [OF refl]) (use assms in \<open>auto simp: lview_def clip_vop1_view\<close>)

lemma move_case_2_run:
  assumes "opc \<in> set mops" "a < 16" "16 \<le> d" "d < 32"
  shows "low_moved c d (vop1 opc (azmm (abs_state s) a)) s (move_case_2 c opc (vbase c + a) (vbase c + d))"
proof -
  obtain e where e: "find_one_available_spill c (vbase c + a) = vbase c + e" "10 \<le> e" "e \<le> 15" "e \<noteq> a"
    using find_one_other [of c a] by auto
  have lt: "a < 32" "d < 32" "e < 32" using assms e by simp_all
  let ?xs = "map Cell [Move (Z e False) (Y e), Una opc (Y e) (Y a), Move (Z d False) (Y e), Move (Y e) (Z e False)]"
  have "move_case_2 c opc (vbase c + a) (vbase c + d) = map (minstr c) ?xs"
    using lt by (simp only: move_case_2_def e(1) low_move_emit)
  then show ?thesis using move_store_run [OF assms, of e] e by simp
qed

lemma move_case_3_run:
  assumes "opc \<in> set mops" "16 \<le> a" "a < 32" "16 \<le> d" "d < 32"
  shows "low_moved c d (vop1 opc (azmm (abs_state s) a)) s (move_case_3 c opc (vbase c + a) (vbase c + d))"
proof -
  have lt: "a < 32" "d < 32" "(10 :: nat) < 32" using assms by simp_all
  let ?xs = "map Cell [Move (Z 10 False) (Y 10), Move (Y 10) (Z a False), Una opc (Y 10) (Y 10), Move (Z d False) (Y 10), Move (Y 10) (Z 10 False)]"
  show ?thesis
  proof (rule low_copy [where xs = ?xs])
    show "move_case_3 c opc (vbase c + a) (vbase c + d) = map (minstr c) ?xs"
      using lt by (simp only: move_case_3_def low_move_emit)
  qed (use assms in \<open>auto simp: lview_def clip_vop1_view\<close>)
qed

lemma move_need_spill_reg:
  "a < 32 \<Longrightarrow> d < 32 \<Longrightarrow> move_need_spill c (vbase c + a) (vbase c + d) = (if 16 \<le> a then 1 else 0) + (if 16 \<le> d then 2 else 0)"
  by (simp add: move_need_spill_def NEED_SPILL_vbase)

lemma low_reg2reg_run:
  assumes "opc \<in> set mops" "a < 32" "d < 32"
  shows "\<exists>chain. low_reg2reg c opc (vbase c + a) (vbase c + d) = Rw True chain \<and> low_moved c d (vop1 opc (azmm (abs_state s) a)) s chain"
  using assms move_case_0_run [OF assms(1), of a d c s] move_case_1_run [OF assms(1), of a d c s]
    move_case_2_run [OF assms(1), of a d c s] move_case_3_run [OF assms(1), of a d c s]
  by (cases "16 \<le> a"; cases "16 \<le> d") (simp_all add: low_reg2reg_def move_need_spill_reg)

lemma low_disp2reg_run:
  assumes "d < 32" "accessible s opc (opsz c) op"
  shows "\<exists>chain. low_disp2reg c opc op (vbase c + d) = Rw True chain \<and> low_moved c d (mem_get (mem s) (addr s op)) s chain"
proof (cases "16 \<le> d")
  case True
  have lt: "d < 32" "(10 :: nat) < 32" using assms by simp_all
  let ?xs = "[Cell (Move (Z 10 False) (Y 10)), Load opc 10 op, Cell (Move (Z d False) (Y 10)), Cell (Move (Y 10) (Z 10 False))]"
  have "low_moved c d (mem_get (mem s) (addr s op)) s (load_case_1 c opc op (vbase c + d))"
  proof (rule low_copy [where xs = ?xs])
    show "load_case_1 c opc op (vbase c + d) = map (minstr c) ?xs"
      using lt by (simp only: load_case_1_def low_move_emit)
  qed (use assms True in \<open>auto simp: lview_def\<close>)
  then show ?thesis using True assms by (simp add: low_disp2reg_def NEED_SPILL_vbase)
next
  case False
  then have "low_moved c d (mem_get (mem s) (addr s op)) s (load_case_0 c opc op (vbase c + d))"
    by (intro low_copy [where xs = "[Load opc d op]"]) (use assms in \<open>auto simp: load_case_0_def move_create_defs lview_def\<close>)
  then show ?thesis using False assms by (simp add: low_disp2reg_def NEED_SPILL_vbase)
qed

text \<open>After a store the low parts of all registers are as before.\<close>

definition low_stored :: "vclass \<Rightarrow> nat \<Rightarrow> 64 word \<Rightarrow> mstate \<Rightarrow> instr list \<Rightarrow> bool" where
  "low_stored c a p s code \<longleftrightarrow> (\<exists>t. exec code s = Inr t \<and> low_put (opsz c) a (azmm (abs_state s) a)
     ((abs_state s)\<lparr>amem := mem_put (mem s) p (opsz c) (azmm (abs_state s) a)\<rparr>) (abs_state t))"

lemma low_store:
  assumes "code = map (minstr c) xs" "list_all (mvalid c s) xs" "a < 32"
    and "\<And>r. r < 32 \<Longrightarrow> fst (fold (mrun c s) xs (gcells c s, mem s)) (Z r True) = gcells c s (Z r True)"
    and "\<And>r. r < 32 \<Longrightarrow> lview (fst (fold (mrun c s) xs (gcells c s, mem s))) r = lview (gcells c s) r"
    and "snd (fold (mrun c s) xs (gcells c s, mem s)) = mem_put (mem s) p (opsz c) (lview (gcells c s) a)"
  shows "low_stored c a p s code"
proof -
  have "mem_put (mem s) p (opsz c) (azmm (abs_state s) a) = snd (fold (mrun c s) xs (gcells c s, mem s))"
    using mem_put_clip [of "mem s" p "opsz c" "azmm (abs_state s) a"] lview_abs [OF assms(3)] assms(6) by simp
  then show ?thesis unfolding low_stored_def
    using low_mem_code [OF assms(1,2,4), of a "azmm (abs_state s) a"] assms(5) lview_abs [OF assms(3), of c s] by simp
qed

lemma low_reg2disp_run:
  assumes "a < 32" "accessible s opc (opsz c) op"
  shows "\<exists>chain. low_reg2disp c opc (vbase c + a) op = Rw True chain \<and> low_stored c a (addr s op) s chain"
proof (cases "16 \<le> a")
  case True
  have lt: "a < 32" "(10 :: nat) < 32" using assms by simp_all
  let ?xs = "[Cell (Move (Z 10 False) (Y 10)), Cell (Move (Y 10) (Z a False)), Store opc op 10, Cell (Move (Y 10) (Z 10 False))]"
  have "low_stored c a (addr s op) s (store_case_1 c opc (vbase c + a) op)"
  proof (rule low_store [where xs = ?xs])
    show "store_case_1 c opc (vbase c + a) op = map (minstr c) ?xs"
      using lt by (simp only: store_case_1_def low_move_emit)
  qed (use assms True in \<open>auto simp: lview_def\<close>)
  then show ?thesis using True assms by (simp add: low_reg2disp_def NEED_SPILL_vbase)
next
  case False
  then have "low_stored c a (addr s op) s (store_case_0 c opc (vbase c + a) op)"
    by (intro low_store [where xs = "[Store opc op a]"]) (use assms in \<open>auto simp: store_case_0_def move_create_defs lview_def\<close>)
  then show ?thesis using False assms by (simp add: low_reg2disp_def NEED_SPILL_vbase)
qed

section \<open>The functions on \<open>zmm\<close> registers\<close>

lemma zmm_move_need_spill_reg:
  "a < 32 \<Longrightarrow> d < 32 \<Longrightarrow> zmm_move_need_spill (DR_REG_ZMM0 + a) (DR_REG_ZMM0 + d) = (if 16 \<le> a then 1 else 0) + (if 16 \<le> d then 2 else 0)"
  by (simp add: zmm_move_need_spill_def NEED_SPILL_ZMM_def)

lemma NEED_SPILL_ZMM_reg: "a < 32 \<Longrightarrow> NEED_SPILL_ZMM (DR_REG_ZMM0 + a) \<longleftrightarrow> 16 \<le> a"
  by (simp add: NEED_SPILL_ZMM_def)

lemma dqu_reg2reg_run:
  assumes "a < 32" "d < 32"
  shows "\<exists>chain t. dqu_reg2reg (DR_REG_ZMM0 + a) (DR_REG_ZMM0 + d) = Rw True chain \<and> exec chain s = Inr t
     \<and> abs_state t = set_z d (azmm (abs_state s) a) (abs_state s)"
  using assms dqu_case_0_run [of a d s] dqu_case_1_run [of a d s] dqu_case_2_run [of a d s] dqu_case_3_run [of a d s]
  by (cases "16 \<le> a"; cases "16 \<le> d") (simp_all add: dqu_reg2reg_def zmm_move_need_spill_reg)

lemma dqu_disp2reg_run:
  assumes "d < 32" "zmm_access s OP_vmovdqu op"
  shows "\<exists>chain t. dqu_disp2reg op (DR_REG_ZMM0 + d) = Rw True chain \<and> exec chain s = Inr t
     \<and> abs_state t = spec_load d (addr s op) (abs_state s)"
  using assms dqu_zload_case_0_run [of d s op] dqu_zload_case_1_run [of d s op] mem_half_access(1) [OF assms(2)]
  by (cases "16 \<le> d") (simp_all add: dqu_disp2reg_def NEED_SPILL_ZMM_reg)

lemma vmovaps_reg2reg_run:
  assumes "a < 32" "d < 32" "a < 16 \<longleftrightarrow> d < 16"
  shows "\<exists>chain t. vmovaps_zmm_reg2reg_gen (DR_REG_ZMM0 + a) (DR_REG_ZMM0 + d) m = Rw True chain \<and> exec chain s = Inr t
     \<and> abs_state t = set_z d (azmm (abs_state s) a) (abs_state s)"
  using assms vmovaps_zmm_case_0_run [of a d s] vmovaps_zmm_case_3_run [of a d s]
  by (cases "16 \<le> a") (simp_all add: vmovaps_zmm_reg2reg_gen_def zmm_move_need_spill_reg)

lemma vmovaps_reg2reg_null:
  "a < 32 \<Longrightarrow> d < 32 \<Longrightarrow> (a < 16 \<longleftrightarrow> 16 \<le> d) \<Longrightarrow> vmovaps_zmm_reg2reg_gen (DR_REG_ZMM0 + a) (DR_REG_ZMM0 + d) m = RwNull True"
  by (auto simp: vmovaps_zmm_reg2reg_gen_def zmm_move_need_spill_reg)

lemma zstore_run:
  assumes "a < 32" "zmm_access s opc op"
  shows "\<exists>chain t. (if NEED_SPILL_ZMM (DR_REG_ZMM0 + a) then Rw True (zstore_case_1 opc (DR_REG_ZMM0 + a) op)
       else Rw True (zstore_case_0 opc (DR_REG_ZMM0 + a) op)) = Rw True chain \<and> exec chain s = Inr t
     \<and> abs_state t = spec_store a (addr s op) (abs_state s)"
  using assms zstore_case_0_run [of a s opc op] zstore_case_1_run [of a s opc op]
  by (cases "16 \<le> a") (simp_all add: NEED_SPILL_ZMM_reg)

lemma vmovaps_disp2reg_run:
  assumes "d < 32" "zmm_access s OP_vmovaps op"
  shows "\<exists>chain t. vmovaps_zmm_disp2reg_gen op (DR_REG_ZMM0 + d) m = Rw True chain \<and> exec chain s = Inr t
     \<and> abs_state t = spec_load d (addr s op) (abs_state s)"
  using assms vmovaps_zload_case_0_run [of d s op] vmovaps_zload_case_1_run [of d s op] mem_half_access(1) [OF assms(2)]
  by (cases "16 \<le> d") (simp_all add: vmovaps_zmm_disp2reg_gen_def NEED_SPILL_ZMM_reg)

lemma vmovaps_regs:
  assumes "a < 32" "d < 32"
  shows "rw_func_vmovaps (Instr opc [OReg (DR_REG_ZMM0 + d)] [OReg k, OReg (DR_REG_ZMM0 + a)])
      = vmovaps_zmm_reg2reg_gen (DR_REG_ZMM0 + a) (DR_REG_ZMM0 + d) k"
  by (simp add: rw_func_vmovaps_def instr_get_src_def instr_get_dst_def class_of_zmm [OF assms(2)])

lemma vmovaps_dispatch:
  assumes "a < 32" "d < 32" "zmm_access s OP_vmovaps op"
  shows "rw_func_vmovaps (Instr opc [op] [OReg k, OReg (DR_REG_ZMM0 + a)]) = vmovaps_zmm_reg2disp_gen (DR_REG_ZMM0 + a) op k"
    and "rw_func_vmovaps (Instr opc [OReg (DR_REG_ZMM0 + d)] [OReg k, op]) = vmovaps_zmm_disp2reg_gen op (DR_REG_ZMM0 + d) k"
proof -
  obtain b i sc dp where op: "op = OMem b i sc dp 64" using assms(3) by (auto simp: zmm_access_def split: opnd.splits)
  note get = rw_func_vmovaps_def instr_get_src_def instr_get_dst_def op class_of_zmm [OF assms(1)] class_of_zmm [OF assms(2)]
  show "rw_func_vmovaps (Instr opc [op] [OReg k, OReg (DR_REG_ZMM0 + a)]) = vmovaps_zmm_reg2disp_gen (DR_REG_ZMM0 + a) op k"
    and "rw_func_vmovaps (Instr opc [OReg (DR_REG_ZMM0 + d)] [OReg k, op]) = vmovaps_zmm_disp2reg_gen op (DR_REG_ZMM0 + d) k"
    by (simp_all add: get)
qed

lemma vmovaps_nonempty:
  assumes "a < 32" "d < 32"
  shows "rw_func_vmovaps (Instr opc [OReg (DR_REG_ZMM0 + d)] [OReg k, OReg (DR_REG_ZMM0 + a)]) \<noteq> Rw True []"
  by (simp add: vmovaps_regs [OF assms] vmovaps_zmm_reg2reg_gen_def vmovaps_zmm_case_0_def vmovaps_zmm_case_3_def Let_def)

text \<open>
  C14. \<open>vmovaps\<close> on \<open>zmm\<close> registers and memory, through the dispatch of
  \<open>rw_func_vmovaps\<close>. Between registers that are both below or both above 16 the emitted code copies the
  64 bytes and changes nothing else; if exactly one of them is above 15 the original is destroyed
  and nothing replaces it. A store to and a load from 64 mapped bytes at an address divisible by 32
  have exactly the effect of the reference, for all registers.
\<close>

theorem vmovaps_rewrite:
  assumes "a < 32" "d < 32" "zmm_access s OP_vmovaps op"
  shows "(if a < 16 \<longleftrightarrow> d < 16
      then \<exists>chain t. rw_func_vmovaps (Instr opc [OReg (DR_REG_ZMM0 + d)] [OReg k, OReg (DR_REG_ZMM0 + a)]) = Rw True chain
        \<and> exec chain s = Inr t \<and> abs_state t = set_z d (azmm (abs_state s) a) (abs_state s)
      else rw_func_vmovaps (Instr opc [OReg (DR_REG_ZMM0 + d)] [OReg k, OReg (DR_REG_ZMM0 + a)]) = RwNull True)
    \<and> (\<exists>chain t. rw_func_vmovaps (Instr opc [op] [OReg k, OReg (DR_REG_ZMM0 + a)]) = Rw True chain
        \<and> exec chain s = Inr t \<and> abs_state t = spec_store a (addr s op) (abs_state s))
    \<and> (\<exists>chain t. rw_func_vmovaps (Instr opc [OReg (DR_REG_ZMM0 + d)] [OReg k, op]) = Rw True chain
        \<and> exec chain s = Inr t \<and> abs_state t = spec_load d (addr s op) (abs_state s))"
  unfolding vmovaps_regs [OF assms(1,2)] vmovaps_dispatch [OF assms] vmovaps_zmm_reg2disp_gen_def
  using vmovaps_reg2reg_run [OF assms(1,2)] vmovaps_reg2reg_null [OF assms(1,2)] zstore_run [OF assms(1,3)]
    mem_half_access(1) [OF assms(3)] vmovaps_disp2reg_run [OF assms(2,3)]
  by auto

lemma sample_access: "zmm_access vec_sample OP_vmovaps (OMem DR_REG_RSP DR_REG_NULL 0 0 64)"
    "addr vec_sample (OMem DR_REG_RSP DR_REG_NULL 0 0 64) = 0x1000"
  by (simp_all add: zmm_access_def vec_sample_def ea_def gpr_read_def reg_part_def sample_def mapped_range_def list_all_iff)

theorem vmovaps_rewrite_witness:
  "rw_func_vmovaps (Instr (OP_AVX512 16) [OReg (DR_REG_ZMM0 + 20)] [OReg DR_REG_K0, OReg (DR_REG_ZMM0 + 3)]) = RwNull True
   \<and> (\<exists>chain t. rw_func_vmovaps (Instr (OP_AVX512 16) [OMem DR_REG_RSP DR_REG_NULL 0 0 64] [OReg DR_REG_K0, OReg (DR_REG_ZMM0 + 3)]) = Rw True chain
        \<and> exec chain vec_sample = Inr t \<and> amem (abs_state t) 0x1001 = 1 \<and> amem (abs_state t) 0x103F = 3)"
proof -
  have "amem (spec_store 3 0x1000 (abs_state vec_sample)) 0x1001 = 1" "amem (spec_store 3 0x1000 (abs_state vec_sample)) 0x103F = 3"
    by (simp_all add: spec_store_def mem_put_def abs_state_def abs_zmm_def vec_sample_def)
  then show ?thesis
    using vmovaps_rewrite [of 3 20 vec_sample "OMem DR_REG_RSP DR_REG_NULL 0 0 64" "OP_AVX512 16" DR_REG_K0] sample_access by auto
qed

text \<open>The functions of the four \<open>vmovdqu\<close> instructions between registers and from memory.\<close>

definition dqu_gens :: "((reg_id \<Rightarrow> reg_id \<Rightarrow> reg_id \<Rightarrow> rw_result) \<times> (opnd \<Rightarrow> reg_id \<Rightarrow> reg_id \<Rightarrow> rw_result)) list" where
  "dqu_gens = [(vmovdqu8_zmm_reg2reg_gen, vmovdqu8_zmm_disp2reg_gen), (vmovdqu16_zmm_reg2reg_gen, vmovdqu16_zmm_disp2reg_gen),
     (vmovdqu32_zmm_reg2reg_gen, vmovdqu32_zmm_disp2reg_gen), (vmovdqu64_zmm_reg2reg_gen, vmovdqu64_zmm_disp2reg_gen)]"

lemma dqu_gens_eq: "(f, g) \<in> set dqu_gens \<Longrightarrow> f a d k = dqu_reg2reg a d \<and> g op d k = dqu_disp2reg op d"
  by (auto simp: dqu_gens_def vmovdqu8_zmm_reg2reg_gen_def vmovdqu8_zmm_disp2reg_gen_def vmovdqu16_zmm_reg2reg_gen_def
      vmovdqu16_zmm_disp2reg_gen_def vmovdqu32_zmm_reg2reg_gen_def vmovdqu32_zmm_disp2reg_gen_def
      vmovdqu64_zmm_reg2reg_gen_def vmovdqu64_zmm_disp2reg_gen_def)

text \<open>
  C15. \<open>vmovdqu8\<close>, \<open>vmovdqu16\<close>, \<open>vmovdqu32\<close> and \<open>vmovdqu64\<close> between any two \<open>zmm\<close> registers and
  from 64 mapped bytes of memory to any \<open>zmm\<close> register, and \<open>vmovdqu64\<close> from any \<open>zmm\<close> register to
  memory: the emitted code runs to its end and has exactly the effect of the reference.
\<close>

theorem vmovdqu_zmm_rewrite:
  assumes "(f, g) \<in> set dqu_gens" "a < 32" "d < 32" "zmm_access s OP_vmovdqu op"
  shows "(\<exists>chain t. f (DR_REG_ZMM0 + a) (DR_REG_ZMM0 + d) k = Rw True chain
        \<and> exec chain s = Inr t \<and> abs_state t = set_z d (azmm (abs_state s) a) (abs_state s))
    \<and> (\<exists>chain t. g op (DR_REG_ZMM0 + d) k = Rw True chain
        \<and> exec chain s = Inr t \<and> abs_state t = spec_load d (addr s op) (abs_state s))
    \<and> (\<exists>chain t. vmovdqu64_zmm_reg2disp_gen (DR_REG_ZMM0 + a) op k = Rw True chain
        \<and> exec chain s = Inr t \<and> abs_state t = spec_store a (addr s op) (abs_state s))"
  using dqu_gens_eq [OF assms(1)] dqu_reg2reg_run [OF assms(2,3)] dqu_disp2reg_run [OF assms(3,4)] zstore_run [OF assms(2,4)]
    mem_half_access(1) [OF assms(4)]
  by (simp add: vmovdqu64_zmm_reg2disp_gen_def)

lemma sample_access_dqu: "zmm_access vec_sample OP_vmovdqu (OMem DR_REG_RSP DR_REG_NULL 0 1 64)"
    "addr vec_sample (OMem DR_REG_RSP DR_REG_NULL 0 1 64) = 0x1001"
  by (simp_all add: zmm_access_def vec_sample_def ea_def gpr_read_def reg_part_def sample_def mapped_range_def list_all_iff)

theorem vmovdqu_zmm_rewrite_witness:
  "\<exists>chain t. vmovdqu8_zmm_disp2reg_gen (OMem DR_REG_RSP DR_REG_NULL 0 1 64) (DR_REG_ZMM0 + 20) DR_REG_K0 = Rw True chain
     \<and> exec chain vec_sample = Inr t \<and> azmm (abs_state vec_sample) 20 5 = 3 \<and> azmm (abs_state t) 20 5 = 0"
proof -
  have "azmm (abs_state vec_sample) 20 5 = 3" "azmm (spec_load 20 0x1001 (abs_state vec_sample)) 20 5 = 0"
    by (simp_all add: spec_load_def set_z_def clip_def mem_get_def abs_state_def abs_zmm_def vec_sample_def sample_def)
  then show ?thesis
    using vmovdqu_zmm_rewrite [of vmovdqu8_zmm_reg2reg_gen vmovdqu8_zmm_disp2reg_gen 1 20 vec_sample
        "OMem DR_REG_RSP DR_REG_NULL 0 1 64" DR_REG_K0] sample_access_dqu by (auto simp: dqu_gens_def)
qed

text \<open>
  C36. \<open>vmovdqu8\<close>, \<open>vmovdqu16\<close> and \<open>vmovdqu32\<close> from a \<open>zmm\<close> register to memory. For a
  register above 15 the effect is that of the reference. A register below 16 is first overwritten
  with the bytes in its spill slot, and these are stored: the effect is that of the reference only if
  the slot happens to hold the register's value.
\<close>

theorem vmovdqu_store_stale:
  assumes "f \<in> set [vmovdqu8_zmm_reg2disp_gen, vmovdqu16_zmm_reg2disp_gen, vmovdqu32_zmm_reg2disp_gen]"
    and "a < 32" "zmm_access s OP_vmovdqu op"
  shows "\<exists>chain t. f (DR_REG_ZMM0 + a) op k = Rw True chain \<and> exec chain s = Inr t
     \<and> abs_state t = spec_store a (addr s op) (if a < 16 then set_z a (slot_value s a) (abs_state s) else abs_state s)"
proof (cases "a < 16")
  case True
  then have "f (DR_REG_ZMM0 + a) op k = Rw True (zstore_reload (DR_REG_ZMM0 + a) op)"
    using assms mem_half_access(1) [OF assms(3)]
    by (auto simp: vmovdqu8_zmm_reg2disp_gen_def vmovdqu16_zmm_reg2disp_gen_def vmovdqu32_zmm_reg2disp_gen_def NEED_SPILL_ZMM_reg)
  then show ?thesis using True zstore_reload_run [OF True assms(3)] by simp
next
  case False
  then have "f (DR_REG_ZMM0 + a) op k = Rw True (zstore_case_1 OP_vmovdqu (DR_REG_ZMM0 + a) op)"
    using assms mem_half_access(1) [OF assms(3)]
    by (auto simp: vmovdqu8_zmm_reg2disp_gen_def vmovdqu16_zmm_reg2disp_gen_def vmovdqu32_zmm_reg2disp_gen_def NEED_SPILL_ZMM_reg zstore_slot0_eq)
  then show ?thesis using False assms(2) zstore_case_1_run [OF _ assms(2,3)] by simp
qed

theorem vmovdqu_store_stale_witness:
  "\<exists>chain t. vmovdqu32_zmm_reg2disp_gen (DR_REG_ZMM0 + 2) (OMem DR_REG_RSP DR_REG_NULL 0 1 64) DR_REG_K0 = Rw True chain
     \<and> exec chain vec_sample = Inr t \<and> azmm (abs_state vec_sample) 2 0 = 1 \<and> azmm (abs_state t) 2 0 = 3 \<and> amem (abs_state t) 0x1001 = 3"
proof -
  let ?t = "spec_store 2 0x1001 (set_z 2 (slot_value vec_sample 2) (abs_state vec_sample))"
  have "azmm (abs_state vec_sample) 2 0 = 1" "azmm ?t 2 0 = 3" "amem ?t 0x1001 = 3"
    by (simp_all add: spec_store_def set_z_def slot_value_def clip_def tls_get_def mem_put_def abs_state_def abs_zmm_def vec_sample_def)
  then show ?thesis
    using vmovdqu_store_stale [of vmovdqu32_zmm_reg2disp_gen 2 vec_sample "OMem DR_REG_RSP DR_REG_NULL 0 1 64" DR_REG_K0] sample_access_dqu
    by auto
qed

section \<open>The functions on \<open>xmm\<close> and \<open>ymm\<close> registers\<close>

text \<open>The functions by what they move: between registers, from memory and to memory.\<close>

definition low_movers :: "((reg_id \<Rightarrow> reg_id \<Rightarrow> reg_id \<Rightarrow> rw_result) \<times> vclass \<times> opcode) list" where
  "low_movers = [(vmovaps_xmm_reg2reg_gen, XMM, OP_vmovaps), (vmovaps_ymm_reg2reg_gen, YMM, OP_vmovaps)]"

definition low_loaders :: "((opnd \<Rightarrow> reg_id \<Rightarrow> reg_id \<Rightarrow> rw_result) \<times> vclass \<times> opcode) list" where
  "low_loaders = [(vmovaps_xmm_disp2reg_gen, XMM, OP_vmovaps), (vmovaps_ymm_disp2reg_gen, YMM, OP_vmovaps),
     (vmovdqu16_xmm_disp2reg_gen, XMM, OP_vmovdqu), (vmovdqu16_ymm_disp2reg_gen, YMM, OP_vmovdqu),
     (vmovdqu32_ymm_disp2reg_gen, YMM, OP_vmovdqu)]"

definition low_storers :: "((reg_id \<Rightarrow> opnd \<Rightarrow> reg_id \<Rightarrow> rw_result) \<times> vclass \<times> opcode) list" where
  "low_storers = [(vmovaps_xmm_reg2disp_gen, XMM, OP_vmovaps), (vmovaps_ymm_reg2disp_gen, YMM, OP_vmovaps),
     (vmovdqu32_xmm_reg2disp_gen, XMM, OP_vmovdqu), (vmovdqu32_ymm_reg2disp_gen, YMM, OP_vmovdqu)]"

lemmas low_gen_defs = vmovaps_xmm_reg2reg_gen_def vmovaps_ymm_reg2reg_gen_def vmovaps_xmm_disp2reg_gen_def
  vmovaps_ymm_disp2reg_gen_def vmovdqu16_xmm_disp2reg_gen_def vmovdqu16_ymm_disp2reg_gen_def vmovdqu32_ymm_disp2reg_gen_def
  vmovaps_xmm_reg2disp_gen_def vmovaps_ymm_reg2disp_gen_def vmovdqu32_xmm_reg2disp_gen_def vmovdqu32_ymm_reg2disp_gen_def

text \<open>
  C16. Moves of \<open>xmm\<close> and \<open>ymm\<close> registers by the functions without a mask: \<open>vmovaps\<close> between any two
  registers; loads by \<open>vmovaps\<close> and \<open>vmovdqu16\<close> of both widths and by \<open>vmovdqu32\<close> into \<open>ymm\<close>, and stores by
  \<open>vmovaps\<close> and \<open>vmovdqu32\<close> of both widths, at an accessible base-plus-displacement operand. The code
  runs to its end. The lowest 16 or 32 bytes of the destination become the moved value, the lowest 16 or
  32 bytes of every other vector register, bytes 32 to 63 of all of them, the other registers, the
  flags and all other memory stay. Nothing is said about bytes 16 to 31 after an \<open>xmm\<close> instruction:
  restoring a scratch register with 16 bytes clears them.
\<close>

theorem low_move_rewrite:
  assumes "(f, c, opc) \<in> set low_movers" "(g, c', opc') \<in> set low_loaders" "(h, c'', opc'') \<in> set low_storers"
    and "a < 32" "d < 32" "accessible s opc' (opsz c') p" "accessible s opc'' (opsz c'') q"
  shows "(\<exists>chain. f (vbase c + a) (vbase c + d) k = Rw True chain \<and> low_moved c d (azmm (abs_state s) a) s chain)
    \<and> (\<exists>chain. g p (vbase c' + d) k = Rw True chain \<and> low_moved c' d (mem_get (mem s) (addr s p)) s chain)
    \<and> (\<exists>chain. h (vbase c'' + a) q k = Rw True chain \<and> low_stored c'' a (addr s q) s chain)"
proof -
  have "f (vbase c + a) (vbase c + d) k = low_reg2reg c OP_vmovaps (vbase c + a) (vbase c + d)"
    using assms(1) by (auto simp: low_movers_def low_gen_defs)
  moreover have "OP_vmovaps \<in> set mops" "vop1 OP_vmovaps v = v" for v by (simp_all add: mops_def vop1_def)
  moreover have "g p (vbase c' + d) k = low_disp2reg c' opc' p (vbase c' + d)"
    using assms(2) by (auto simp: low_loaders_def low_gen_defs)
  moreover have "h (vbase c'' + a) q k = low_reg2disp c'' opc'' (vbase c'' + a) q"
    using assms(3) by (auto simp: low_storers_def low_gen_defs)
  ultimately show ?thesis
    using low_reg2reg_run [of OP_vmovaps, OF _ assms(4,5), of c s] low_disp2reg_run [OF assms(5,6)] low_reg2disp_run [OF assms(4,7)]
    by simp
qed

lemma sample_accessible:
  "accessible vec_sample OP_vmovaps 32 (OMem DR_REG_RSP DR_REG_NULL 0 0 32)"
  "accessible vec_sample OP_vmovdqu 16 (OMem DR_REG_RSP DR_REG_NULL 0 1 16)"
  "addr vec_sample (OMem DR_REG_RSP DR_REG_NULL 0 0 32) = 0x1000"
  by (simp_all add: accessible_def vec_sample_def ea_def gpr_read_def reg_part_def sample_def mapped_range_def list_all_iff
      needs_alignment_def)

theorem low_move_rewrite_witness:
  "\<exists>chain t. vmovaps_ymm_disp2reg_gen (OMem DR_REG_RSP DR_REG_NULL 0 0 32) (DR_REG_YMM0 + 20) DR_REG_K0 = Rw True chain
     \<and> exec chain vec_sample = Inr t \<and> azmm (abs_state vec_sample) 20 31 = 3 \<and> azmm (abs_state t) 20 31 = 0
     \<and> azmm (abs_state t) 20 32 = 3"
proof -
  obtain chain t where t: "vmovaps_ymm_disp2reg_gen (OMem DR_REG_RSP DR_REG_NULL 0 0 32) (DR_REG_YMM0 + 20) DR_REG_K0 = Rw True chain"
      "exec chain vec_sample = Inr t" "low_put 32 20 (mem_get (mem vec_sample) 0x1000) (abs_state vec_sample) (abs_state t)"
    using low_move_rewrite [of vmovaps_xmm_reg2reg_gen XMM OP_vmovaps vmovaps_ymm_disp2reg_gen YMM OP_vmovaps
        vmovdqu32_xmm_reg2disp_gen XMM OP_vmovdqu 1 20 vec_sample "OMem DR_REG_RSP DR_REG_NULL 0 0 32" "OMem DR_REG_RSP DR_REG_NULL 0 1 16" DR_REG_K0]
      sample_accessible by (auto simp: low_movers_def low_loaders_def low_storers_def low_moved_def)
  have "clip 32 (azmm (abs_state t) 20) 31 = 0" "azmm (abs_state t) 20 32 = azmm (abs_state vec_sample) 20 32"
    using t(3) by (auto simp: low_put_def mem_get_def vec_sample_def sample_def clip_def)
  moreover have "azmm (abs_state vec_sample) 20 31 = 3" "azmm (abs_state vec_sample) 20 32 = 3"
    by (simp_all add: abs_state_def abs_zmm_def vec_sample_def)
  ultimately show ?thesis using t(1,2) by (auto simp: clip_def)
qed

section \<open>The operands of the other moves\<close>

text \<open>The six moves whose emitted instruction has a form with one source register.\<close>

definition unary_moves :: "opcode list" where
  "unary_moves = [OP_vmovups, OP_vmovupd, OP_vmovapd, OP_vmovsldup, OP_vmovshdup, OP_vmovddup]"

text \<open>The function of each of the twelve moves, with its opcode.\<close>

definition two_reg_moves :: "((instr \<Rightarrow> rw_result) \<times> opcode) list" where
  "two_reg_moves = [(rw_func_vmovups, OP_vmovups), (rw_func_vmovupd, OP_vmovupd), (rw_func_vmovapd, OP_vmovapd),
     (rw_func_vmovsldup, OP_vmovsldup), (rw_func_vmovshdup, OP_vmovshdup), (rw_func_vmovddup, OP_vmovddup),
     (rw_func_vmovlps, OP_vmovlps), (rw_func_vmovlpd, OP_vmovlpd), (rw_func_vmovhps, OP_vmovhps),
     (rw_func_vmovhpd, OP_vmovhpd), (rw_func_vmovntps, OP_vmovntps), (rw_func_vmovntpd, OP_vmovntpd)]"

lemmas two_reg_defs = rw_func_vmovups_def rw_func_vmovupd_def rw_func_vmovapd_def rw_func_vmovsldup_def rw_func_vmovshdup_def
  rw_func_vmovddup_def rw_func_vmovlps_def rw_func_vmovlpd_def rw_func_vmovhps_def rw_func_vmovhpd_def rw_func_vmovntps_def
  rw_func_vmovntpd_def

lemma two_reg_moves_eq: "(f, opc) \<in> set two_reg_moves \<Longrightarrow> f = two_regs (unary_gen opc)"
  by (auto simp: two_reg_moves_def two_reg_defs)

lemma two_regs_operands:
  "two_regs f (Instr opc [OReg d] (OReg a # ss)) = f a d"
  "two_regs f (Instr opc [OMem b i sc dp n] ss) = RwCrash"
  "two_regs f (Instr opc ds (OMem b i sc dp n # ss)) = RwCrash"
  by (simp_all add: two_regs_def src_reg_def dst_reg_def instr_get_src_def instr_get_dst_def split: option.splits)

lemma step_mask_move:
  assumes "opc \<in> set unary_moves" "m < 8"
  shows "step (instr_create_1dst_1src opc (OReg dst) (OReg (DR_REG_K0 + m))) s = Trap Unencodable"
proof -
  have "vreg (DR_REG_K0 + m) = None" "\<not> evex_reg (DR_REG_K0 + m)"
    using assms(2) by (simp_all add: vreg_def evex_reg_def IS_XMM_REG_def IS_YMM_REG_def IS_ZMM_REG_def)
  moreover have "encodable (Instr opc [OReg dst] [OReg (DR_REG_K0 + m)])"
      "step_exec opc [OReg dst] [OReg (DR_REG_K0 + m)] s = flow_of (do_vmov opc (OReg dst) (OReg (DR_REG_K0 + m)) s)"
    using assms(1) by (auto simp: unary_moves_def step_exec_def)
  ultimately show ?thesis by (cases "vreg dst") (simp_all add: step_def instr_create_1dst_1src_def do_vmov_def del: encodable.simps split: prod.splits)
qed

text \<open>Code that saves and loads registers up to an instruction that cannot be encoded.\<close>

lemma exec_stuck:
  assumes "list_all (gvalid c) xs" "\<And>t. step i t = Trap Unencodable"
  shows "exec (map (ginstr c) xs @ i # rest) s = Inl Unencodable"
  using assms(1)
proof (induction xs arbitrary: s)
  case Nil
  then show ?case by (simp add: assms(2))
next
  case (Cons x xs)
  then obtain t where "step (ginstr c x) s = Next t" using step_asn [of c x s] by auto
  then show ?case using Cons by simp
qed

text \<open>
  The functions are called with registers of every class. Only an \<open>xmm\<close> register above 15 is taken as
  one that needs spilling.
\<close>

lemma need_spill_xmm: "NEED_SPILL XMM r \<Longrightarrow> \<exists>a < 32. r = vbase XMM + a"
  by (auto simp: NEED_SPILL_XMM_def intro: exI [of _ "r - DR_REG_XMM0"])

lemma unary_gen_mask:
  assumes "opc \<in> set unary_moves" "m < 8"
  shows "\<exists>chain. unary_gen opc (DR_REG_K0 + m) dst = Rw True chain \<and> exec chain s = Inl Unencodable"
proof (cases "NEED_SPILL XMM dst")
  case False
  then have "unary_gen opc (DR_REG_K0 + m) dst = Rw True (move_case_0 XMM opc (DR_REG_K0 + m) dst)"
    using assms(2) by (auto simp: unary_gen_def move_need_spill_def NEED_SPILL_XMM_def)
  then show ?thesis using step_mask_move [OF assms] by (simp add: move_case_0_def)
next
  case True
  have lt: "(10 :: nat) < 32" by simp
  have "unary_gen opc (DR_REG_K0 + m) dst = Rw True (unary_case_2 XMM opc (DR_REG_K0 + m) dst)"
    using True assms by (simp add: unary_gen_def move_need_spill_def NEED_SPILL_XMM_def)
  moreover obtain rest where "unary_case_2 XMM opc (DR_REG_K0 + m) dst
      = map (ginstr XMM) [Move (Z 10 False) (Y 10)] @ instr_create_1dst_1src opc (OReg (vbase XMM + 10)) (OReg (DR_REG_K0 + m)) # rest"
    using lt by (simp only: unary_case_2_def low_move_emit append_Cons append_Nil; blast)
  ultimately show ?thesis
    using exec_stuck [of XMM "[Move (Z 10 False) (Y 10)]"] step_mask_move [OF assms] by auto
qed

lemma unary_gen_unencodable:
  assumes "\<And>x y t. step (instr_create_1dst_1src opc x y) t = Trap Unencodable"
  shows "\<exists>chain. unary_gen opc src dst = Rw True chain \<and> exec chain s = Inl Unencodable"
proof -
  obtain e where e: "find_one_available_spill XMM dst = vbase XMM + e" "10 \<le> e" "e \<le> 15"
    using xmm_slots.one [of dst]
    by (auto simp: find_one_available_spill_xmm_def intro: that [of "find_one_available_spill XMM dst - vbase XMM"])
  note emit = low_move_emit append_Cons append_Nil
  note stuck = exec_stuck [OF _ assms(1)]
  have lt: "e < 32" "(10 :: nat) < 32" "(11 :: nat) < 32" using e by simp_all
  have 1: "exec (move_case_1 XMM opc src dst) s = Inl Unencodable" and 3: "exec (unary_case_3 XMM opc src dst) s = Inl Unencodable"
    if "NEED_SPILL XMM src"
  proof -
    from need_spill_xmm [OF that] obtain a where a: "a < 32" "src = vbase XMM + a" by blast
    have "\<exists>x y rest. move_case_1 XMM opc src dst
        = map (ginstr XMM) [Move (Z e False) (Y e), Move (Y e) (Z a False)] @ instr_create_1dst_1src opc x y # rest"
      using lt a(1) unfolding a(2) by (simp only: move_case_1_def e(1) emit; blast)
    then show "exec (move_case_1 XMM opc src dst) s = Inl Unencodable"
      using stuck [of XMM "[Move (Z e False) (Y e), Move (Y e) (Z a False)]"] e lt a by force
    have "\<exists>x y rest. unary_case_3 XMM opc src dst
        = map (ginstr XMM) [Move (Z 10 False) (Y 10), Move (Z 11 False) (Y 11), Move (Y 10) (Z a False)] @ instr_create_1dst_1src opc x y # rest"
      using lt a(1) unfolding a(2) by (simp only: unary_case_3_def emit; blast)
    then show "exec (unary_case_3 XMM opc src dst) s = Inl Unencodable"
      using stuck [of XMM "[Move (Z 10 False) (Y 10), Move (Z 11 False) (Y 11), Move (Y 10) (Z a False)]"] a by force
  qed
  have "\<exists>x y rest. unary_case_2 XMM opc src dst
      = map (ginstr XMM) [Move (Z 10 False) (Y 10)] @ instr_create_1dst_1src opc x y # rest"
    using lt by (simp only: unary_case_2_def emit; blast)
  then have 2: "exec (unary_case_2 XMM opc src dst) s = Inl Unencodable"
    using stuck [of XMM "[Move (Z 10 False) (Y 10)]"] by force
  show ?thesis
    using 1 2 3 assms(1) by (cases "NEED_SPILL XMM src"; cases "NEED_SPILL XMM dst")
      (simp_all add: unary_gen_def move_need_spill_def move_case_0_def)
qed

text \<open>
  C37. The twelve moves whose functions take source operand 0 for their source. For \<open>vmovups\<close>,
  \<open>vmovupd\<close>, \<open>vmovapd\<close>, \<open>vmovsldup\<close>, \<open>vmovshdup\<close> and \<open>vmovddup\<close> that operand is the mask register: for every mask
  register and every destination register, of whatever class, the emitted code stops at an instruction
  that cannot be encoded. The instruction emitted for the other six has no form with one source register:
  the code stops there for every source and destination register. When the destination, or source
  operand 0, is in memory, all twelve functions read a register from an operand that is none.
\<close>

theorem unary_reads_mask:
  assumes "(f, opc) \<in> set two_reg_moves" "m < 8"
  shows "(\<exists>chain. f (Instr app [OReg dst] (OReg (if opc \<in> set unary_moves then DR_REG_K0 + m else src) # ss)) = Rw True chain
        \<and> exec chain s = Inl Unencodable)
    \<and> f (Instr app [OMem b i sc dp n] ss) = RwCrash \<and> f (Instr app ds (OMem b i sc dp n # ss)) = RwCrash"
proof -
  have f: "f = two_regs (unary_gen opc)" using two_reg_moves_eq [OF assms(1)] .
  show ?thesis
  proof (cases "opc \<in> set unary_moves")
    case True
    then show ?thesis using unary_gen_mask [OF True assms(2)] by (simp only: f two_regs_operands if_True simp_thms)
  next
    case False
    then have "step (instr_create_1dst_1src opc x y) t = Trap Unencodable" for x y t
      using assms(1) by (auto simp: two_reg_moves_def unary_moves_def step_def instr_create_1dst_1src_def)
    from unary_gen_unencodable [OF this] show ?thesis using False by (simp only: f two_regs_operands if_False simp_thms)
  qed
qed

theorem unary_reads_mask_witness:
  "(\<exists>chain. rw_func_vmovups (Instr (OP_AVX512 3) [OReg (DR_REG_ZMM0 + 20)] [OReg (DR_REG_K0 + 1), OReg (DR_REG_ZMM0 + 3)]) = Rw True chain
      \<and> exec chain vec_sample = Inl Unencodable)
   \<and> (\<exists>chain. rw_func_vmovlps (Instr (OP_AVX512 5) [OReg (DR_REG_XMM0 + 2)] [OReg (DR_REG_XMM0 + 17), OMem DR_REG_RSP DR_REG_NULL 0 0 8])
        = Rw True chain \<and> exec chain vec_sample = Inl Unencodable)
   \<and> rw_func_vmovntps (Instr (OP_AVX512 26) [OMem DR_REG_RSP DR_REG_NULL 0 0 64] [OReg (DR_REG_ZMM0 + 3)]) = RwCrash"
  using unary_reads_mask [of rw_func_vmovups OP_vmovups 1 "OP_AVX512 3" "DR_REG_ZMM0 + 20" 0 "[OReg (DR_REG_ZMM0 + 3)]" vec_sample]
    unary_reads_mask [of rw_func_vmovlps OP_vmovlps 1 "OP_AVX512 5" "DR_REG_XMM0 + 2" "DR_REG_XMM0 + 17" "[OMem DR_REG_RSP DR_REG_NULL 0 0 8]" vec_sample]
    unary_reads_mask [of rw_func_vmovntps OP_vmovntps 1 "OP_AVX512 26" 0 0 "[OReg (DR_REG_ZMM0 + 3)]" vec_sample DR_REG_RSP DR_REG_NULL 0 0 64]
  by (auto simp: two_reg_moves_def unary_moves_def)

end
