(* ===== verification/Driver.thy ===== *)
theory Driver
  imports Mask_Shift_Test Mask_Move Instrlist Vec_Move
begin

text \<open>
  The driver of the rewriter (\<open>core/arch/rewrite.c\<close>): the table \<open>rewrite_funcs\<close> and
  \<open>exec_rewrite_avx512_bb\<close>, which walks over the instruction list of a basic block, calls the
  rewrite function of each AVX-512 instruction and inserts the chain it returns after the
  predecessor of the instruction. The driver works on the linked lists of \<open>Instrlist\<close>;
  \<open>rewrite_list\<close> says what it does to the sequence of instructions, and the main theorem is
  that the driver implements it.
\<close>

section \<open>The table of rewrite functions\<close>

text \<open>
  A rewrite function also gets the number from which on label numbers are unused. It uses at
  most three of them.
\<close>

type_synonym rw_func = "nat \<Rightarrow> instr \<Rightarrow> rw_result"

text \<open>
  The place holder for instructions without a translation creates a \<open>nop\<close>, destroys it and
  returns it.
\<close>

definition rw_func_empty :: rw_func where
  "rw_func_empty l i = RwFreed"

definition rw_func_invalid :: rw_func where
  "rw_func_invalid l i = RwNull False"

definition AVX512_FIRST_OP :: nat where "AVX512_FIRST_OP = 636"

fun opcode_number :: "opcode \<Rightarrow> nat option" where
  "opcode_number (OP_AVX512 n) = (if n = 0 then None else Some (AVX512_FIRST_OP + (n - 1)))"
| "opcode_number _ = None"

definition TO_AVX512_RWFUNC_INDEX :: "nat \<Rightarrow> nat" where
  "TO_AVX512_RWFUNC_INDEX opc = opc - AVX512_FIRST_OP"

text \<open>The entries 471 to 521 of the table.\<close>

definition mask_funcs :: "rw_func list" where
  "mask_funcs =
     [\<lambda>_. rw_func_kmovw, \<lambda>_. rw_func_kmovb, \<lambda>_. rw_func_kmovq, \<lambda>_. rw_func_kmovd,
      \<lambda>_. rw_func_kandw, \<lambda>_. rw_func_kandb, \<lambda>_. rw_func_kandq, \<lambda>_. rw_func_kandd,
      \<lambda>_. rw_func_kandnw, \<lambda>_. rw_func_kandnb, \<lambda>_. rw_func_kandnq, \<lambda>_. rw_func_kandnd,
      \<lambda>_. rw_func_kunpckbw, \<lambda>_. rw_func_kunpckwd, \<lambda>_. rw_func_kunpckdq, \<lambda>_. rw_func_knotw,
      \<lambda>_. rw_func_knotb, \<lambda>_. rw_func_knotq, \<lambda>_. rw_func_knotd, \<lambda>_. rw_func_korw,
      \<lambda>_. rw_func_korb, \<lambda>_. rw_func_korq, \<lambda>_. rw_func_kord, \<lambda>_. rw_func_kxnorw,
      \<lambda>_. rw_func_kxnorb, \<lambda>_. rw_func_kxnorq, \<lambda>_. rw_func_kxnord, \<lambda>_. rw_func_kxorw,
      \<lambda>_. rw_func_kxorb, \<lambda>_. rw_func_kxorq, \<lambda>_. rw_func_kxord, \<lambda>_. rw_func_kaddw,
      \<lambda>_. rw_func_kaddb, \<lambda>_. rw_func_kaddq, \<lambda>_. rw_func_kaddd, \<lambda>l. rw_func_kortestw l (l + 1) (l + 2),
      \<lambda>l. rw_func_kortestb l (l + 1) (l + 2), \<lambda>_. rw_func_kortestq, \<lambda>_. rw_func_kortestd, \<lambda>_. rw_func_kshiftlw,
      \<lambda>_. rw_func_kshiftlb, \<lambda>_. rw_func_kshiftlq, \<lambda>_. rw_func_kshiftld, \<lambda>_. rw_func_kshiftrw,
      \<lambda>_. rw_func_kshiftrb, \<lambda>_. rw_func_kshiftrq, \<lambda>_. rw_func_kshiftrd, \<lambda>_. rw_func_ktestw,
      \<lambda>_. rw_func_ktestb, \<lambda>_. rw_func_ktestq, \<lambda>_. rw_func_ktestd]"

text \<open>The other entries that are not \<open>rw_func_empty\<close>.\<close>

definition vector_entries :: "nat list" where
  "vector_entries =
     [0..<35] @ [85, 99, 110, 111, 124, 140, 141, 142, 147, 148, 149, 150, 152, 153, 154, 188, 190, 195, 196, 197,
      198, 199, 200, 210, 217, 218, 439, 440, 442, 463, 464, 465, 466, 554, 555, 560, 561, 569, 571, 573,
      606, 607, 608, 609, 610, 611, 612, 614, 617, 625, 626, 628, 631, 641, 642, 644, 646, 647, 648, 652,
      688, 690, 692, 696, 699, 700, 701, 702, 718, 719, 737, 738, 739, 766]"

text \<open>The table; \<open>vec\<close> stands for the vector entries that are not modelled.\<close>

definition rewrite_funcs :: "(nat \<Rightarrow> rw_func) \<Rightarrow> nat \<Rightarrow> rw_func option" where
  "rewrite_funcs vec k =
     (if 768 \<le> k then None
      else if 471 \<le> k \<and> k < 522 then Some (mask_funcs ! (k - 471))
      else if k \<in> set vector_entries then Some (case map_of (vector_funcs @ move_funcs) k of Some f \<Rightarrow> (\<lambda>_. f) | None \<Rightarrow> vec k)
      else Some rw_func_empty)"

section \<open>Calling a rewrite function\<close>

text \<open>The instructions of a chain are allocated in order and then linked.\<close>

fun create_all :: "instr list \<Rightarrow> lstate \<Rightarrow> addr list \<times> lstate" where
  "create_all [] s = ([], s)"
| "create_all (i # is) s = (let (a, s1) = instr_create i s; (as, s2) = create_all is s1 in (a # as, s2))"

fun instrlist_concat_next_instr :: "addr list \<Rightarrow> lstate \<Rightarrow> lstate option" where
  "instrlist_concat_next_instr (a # b # as) s =
     do { s1 \<leftarrow> instr_concat_next (Some a) (Some b) s; instrlist_concat_next_instr (b # as) s1 }"
| "instrlist_concat_next_instr _ s = Some s"

text \<open>
  \<open>kmovw\<close> to a general-purpose register links its two instructions with a plain assignment
  to \<open>next\<close>.
\<close>

definition next_only :: "instr \<Rightarrow> bool" where
  "next_only i \<longleftrightarrow> opcode_of i = OP_AVX512 472 \<and>
     (case (src_reg i 0, dst_reg i 0) of (Some sreg, Some dreg) \<Rightarrow> mask_flag sreg dreg = 1 | _ \<Rightarrow> False)"

fun link_chain :: "bool \<Rightarrow> addr list \<Rightarrow> lstate \<Rightarrow> lstate option" where
  "link_chain True (a # b # as) s = instr_set_next (Some a) (Some b) s"
| "link_chain True as s = Some s"
| "link_chain False as s = instrlist_concat_next_instr as s"

definition drop_original :: "bool \<Rightarrow> addr \<Rightarrow> lstate \<Rightarrow> lstate option" where
  "drop_original removed a s =
     (if removed then do { s1 \<leftarrow> instrlist_remove (Some a) s; instr_destroy a s1 } else Some s)"

text \<open>
  The call for the instruction at \<open>a\<close>: the pointer that is returned, and the state. A freed
  instruction is a pointer to a cell that is not allocated.
\<close>

definition call_rewrite :: "rw_func \<Rightarrow> nat \<Rightarrow> addr \<Rightarrow> instr \<Rightarrow> lstate \<Rightarrow> (addr option \<times> lstate) option" where
  "call_rewrite f l a i s =
     (case f l i of
        Rw removed is \<Rightarrow> do {
          let (as, s1) = create_all is s;
          s2 \<leftarrow> link_chain (next_only i) as s1;
          s3 \<leftarrow> drop_original removed a s2;
          Some (head_or as None, s3) }
      | RwNull removed \<Rightarrow> do { s3 \<leftarrow> drop_original removed a s; Some (None, s3) }
      | RwFreed \<Rightarrow> Some (Some (brk s), s\<lparr>brk := Suc (brk s)\<rparr>)
      | RwCrash \<Rightarrow> None)"

section \<open>The driver\<close>

definition exec_rewrite_avx512_instr :: "(nat \<Rightarrow> rw_func option) \<Rightarrow> nat \<Rightarrow> addr \<Rightarrow> lstate \<Rightarrow> (addr option \<times> lstate) option" where
  "exec_rewrite_avx512_instr tbl l a s = do {
     n \<leftarrow> cells s a;
     opc \<leftarrow> opcode_number (opcode_of (body n));
     f \<leftarrow> tbl (TO_AVX512_RWFUNC_INDEX opc);
     call_rewrite f l a (body n) s }"

text \<open>
  The loop over the block. It carries the predecessor of the first AVX-512 instruction and the
  successor of the last one.
\<close>

partial_function (option) rewrite_loop ::
    "(nat \<Rightarrow> rw_func option) \<Rightarrow> nat \<Rightarrow> addr option \<Rightarrow> addr option \<Rightarrow> addr option \<Rightarrow> lstate
       \<Rightarrow> (addr option \<times> addr option \<times> lstate) option" where
  "rewrite_loop tbl l p first_prev last_next s =
     (case p of
        None \<Rightarrow> Some (first_prev, last_next, s)
      | Some a \<Rightarrow> do {
          n \<leftarrow> cells s a;
          if is_avx512_instr n then do {
            (q, s1) \<leftarrow> exec_rewrite_avx512_instr tbl l a s;
            s2 \<leftarrow> instrlist_postinsert (iprev n) q s1;
            rewrite_loop tbl (l + 3) (inext n) (if first_prev = None then iprev n else first_prev) (inext n) s2 }
          else rewrite_loop tbl l (inext n) first_prev last_next s })"

fun insert_meta :: "instr list \<Rightarrow> addr option \<Rightarrow> lstate \<Rightarrow> lstate option" where
  "insert_meta [] at s = Some s"
| "insert_meta (i # is) at s =
     (let (a, s1) = instr_create i s in do { s2 \<leftarrow> instrlist_meta_preinsert at (Some a) s1; insert_meta is at s2 })"

definition save_simd_to_tls :: "addr option \<Rightarrow> lstate \<Rightarrow> lstate option" where
  "save_simd_to_tls at s =
     insert_meta (map (\<lambda>i. SAVE_SIMD_TO_SIZED_TLS (DR_REG_YMM0 + i) (TLS_ZMM_idx_SLOT (int i)) 32) [0..<16]) at s"

definition restore_simd_from_tls :: "addr option \<Rightarrow> lstate \<Rightarrow> lstate option" where
  "restore_simd_from_tls at s =
     insert_meta (map (\<lambda>i. RESTORE_SIMD_FROM_SIZED_TLS (DR_REG_YMM0 + i) (TLS_ZMM_idx_SLOT (int i)) 32) [0..<16]) at s"

definition exec_rewrite_avx512_bb :: "(nat \<Rightarrow> rw_func option) \<Rightarrow> nat \<Rightarrow> lstate \<Rightarrow> lstate option" where
  "exec_rewrite_avx512_bb tbl l s = do {
     (first_prev, last_next, s1) \<leftarrow> rewrite_loop tbl l (ifirst (ilist s)) None None s;
     if need_spill_simd (ilist s1) then do {
       at \<leftarrow> instr_get_next first_prev s1;
       s2 \<leftarrow> save_simd_to_tls at s1;
       restore_simd_from_tls last_next s2 }
     else Some s1 }"

section \<open>What the driver does to the sequence of instructions\<close>

text \<open>
  A block as a sequence of instructions with the flag \<open>is_avx512_instr\<close>. The chain of an
  AVX-512 instruction comes before what is left of the original.
\<close>

fun rewrite_list :: "(nat \<Rightarrow> rw_func option) \<Rightarrow> nat \<Rightarrow> (bool \<times> instr) list \<Rightarrow> (bool \<times> instr) list option" where
  "rewrite_list tbl l [] = Some []"
| "rewrite_list tbl l ((False, i) # is) = do { r \<leftarrow> rewrite_list tbl l is; Some ((False, i) # r) }"
| "rewrite_list tbl l ((True, i) # is) = do {
     opc \<leftarrow> opcode_number (opcode_of i);
     f \<leftarrow> tbl (TO_AVX512_RWFUNC_INDEX opc);
     (case f l i of
        Rw removed js \<Rightarrow>
          if js = [] then None
          else do { r \<leftarrow> rewrite_list tbl (l + 3) is;
                    Some (map (Pair False) js @ (if removed then [] else [(True, i)]) @ r) }
      | _ \<Rightarrow> None) }"

section \<open>Allocation of a chain\<close>

definition fresh :: "lstate \<Rightarrow> bool" where
  "fresh s \<longleftrightarrow> (\<forall>a. cells s a \<noteq> None \<longrightarrow> a < brk s)"

lemma create_all_cells:
  "create_all is s = (as, s1) \<Longrightarrow>
     as = [brk s..<brk s + length is] \<and> brk s1 = brk s + length is \<and> ilist s1 = ilist s
     \<and> (\<forall>a. a < brk s \<or> brk s + length is \<le> a \<longrightarrow> cells s1 a = cells s a)
     \<and> (\<forall>k < length is. \<exists>n. cells s1 (brk s + k) = Some n \<and> inext n = None \<and> iprev n = None
          \<and> \<not> is_avx512_instr n \<and> body n = is ! k)"
proof (induction "is" arbitrary: s as s1)
  case (Cons i "is")
  obtain as' where r: "create_all is (snd (instr_create i s)) = (as', s1)" "as = brk s # as'"
    using Cons.prems by (auto simp: instr_create_def split: prod.splits)
  note IH = Cons.IH [OF r(1), simplified instr_create_def, simplified]
  have "\<exists>n. cells s1 (brk s + k) = Some n \<and> inext n = None \<and> iprev n = None \<and> \<not> is_avx512_instr n
      \<and> body n = (i # is) ! k" if "k < length (i # is)" for k
    using IH that by (cases k) auto
  moreover have "cells s1 a = cells s a" if "a < brk s \<or> brk s + length (i # is) \<le> a" for a
  proof -
    have "a \<noteq> brk s" "a < Suc (brk s) \<or> Suc (brk s + length is) \<le> a" using that by auto
    then show ?thesis using IH by (auto split: if_splits)
  qed
  moreover have "as' = [Suc (brk s)..<Suc (brk s) + length is]"
    using Cons.IH [OF r(1)] by (simp add: instr_create_def del: upt_Suc)
  then have "as = [brk s..<brk s + length (i # is)]"
    using r(2) upt_conv_Cons [of "brk s" "brk s + length (i # is)"] by (simp del: upt_Suc)
  ultimately show ?case using IH by (simp del: upt_Suc)
qed simp

lemma frame_mono: "frame A s t \<Longrightarrow> A \<subseteq> B \<Longrightarrow> frame B s t"
  by (auto simp: frame_def)

lemma concat_links:
  assumes "distinct (a # as)" "\<And>x. x \<in> set (a # as) \<Longrightarrow> \<exists>n. cells s x = Some n \<and> inext n = None"
    and "\<exists>n. cells s a = Some n \<and> iprev n = p"
  shows "\<exists>t. instrlist_concat_next_instr (a # as) s = Some t \<and> dll (cells t) p (a # as) None
     \<and> frame (set (a # as)) s t \<and> ilist t = ilist s"
  using assms
proof (induction as arbitrary: a s p)
  case Nil
  then show ?case by auto
next
  case (Cons b bs)
  let ?s = "s\<lparr>cells := join_cells a b (cells s)\<rparr>"
  obtain n m where nm: "cells s a = Some n" "iprev n = p" "cells s b = Some m" "inext m = None"
    using Cons.prems(2) [of b] Cons.prems(3) by auto
  have j: "instr_concat_next (Some a) (Some b) s = Some ?s"
    using nm by (simp add: instr_concat_next_def set_next_cells set_prev_cells join_cells_def)
  have "a \<noteq> b" using Cons.prems(1) by simp
  then have ab: "cells ?s a = Some (n\<lparr>inext := Some b\<rparr>)" "cells ?s b = Some (m\<lparr>iprev := Some a\<rparr>)"
      "\<And>x. x \<noteq> a \<Longrightarrow> x \<noteq> b \<Longrightarrow> cells ?s x = cells s x"
    using nm by (auto simp: join_cells_def link_next_def link_prev_def)
  have "\<exists>n. cells ?s x = Some n \<and> inext n = None" if "x \<in> set (b # bs)" for x
  proof (cases "x = b")
    case False
    then have "x \<noteq> a" using that Cons.prems(1) by auto
    then show ?thesis using ab(3) [OF _ False] Cons.prems(2) [of x] that by auto
  qed (use ab(2) nm(4) in simp)
  then obtain t where t: "instrlist_concat_next_instr (b # bs) ?s = Some t" "dll (cells t) (Some a) (b # bs) None"
      "frame (set (b # bs)) ?s t" "ilist t = ilist ?s"
    using Cons.IH [of b ?s "Some a"] Cons.prems(1) ab(2) by auto
  have "frame (set (a # b # bs)) s ?s" by (intro frame_join) (auto simp: frame_def)
  then have "frame (set (a # b # bs)) s t" by (rule frame_mono [OF frame_trans [OF _ t(3)]]) auto
  moreover have "cells t a = Some (n\<lparr>inext := Some b\<rparr>)" using t(3) Cons.prems(1) ab(1) by (simp add: frame_def)
  ultimately show ?case using j t nm(2) by auto
qed

text \<open>A chain of new instructions, apart from everything that was allocated before.\<close>

lemma alloc_chain:
  assumes "fresh s" "is \<noteq> []" "create_all is s = (as, s1)"
  shows "\<exists>t. instrlist_concat_next_instr as s1 = Some t \<and> chain t as \<and> (\<forall>a \<in> set as. cells s a = None)
     \<and> map (info t) as = map (\<lambda>i. Some (False, i)) is \<and> fresh t \<and> ilist t = ilist s
     \<and> (\<forall>a. a \<notin> set as \<longrightarrow> cells t a = cells s a)"
proof -
  note c = create_all_cells [OF assms(3)]
  have as: "as = [brk s..<brk s + length is]" "as \<noteq> []" "distinct as" using c assms(2) by auto
  have cell: "\<exists>n. cells s1 a = Some n \<and> inext n = None \<and> iprev n = None \<and> \<not> is_avx512_instr n \<and> body n = is ! (a - brk s)"
    if "a \<in> set as" for a
    using that c as(1) by (auto dest: spec [where x = "a - brk s"])
  obtain t where t: "instrlist_concat_next_instr as s1 = Some t" "dll (cells t) None as None" "frame (set as) s1 t"
      "ilist t = ilist s1"
    using concat_links [of "hd as" "tl as" s1 None] as(2,3) cell by (cases as) fastforce+
  have other: "cells t a = cells s a" if "a \<notin> set as" for a
    using that t(3) c as(1) by (auto simp: frame_def not_less)
  have new: "cells s a = None" if "a \<in> set as" for a using that assms(1) as(1) by (auto simp: fresh_def)
  have "info s1 a = Some (False, is ! (a - brk s))" if "a \<in> set as" for a
    using cell [OF that] by (auto simp: info_def)
  then have "map (info s1) as = map (\<lambda>i. Some (False, i)) is"
    using as(1) by (intro nth_equalityI) auto
  moreover have "info t = info s1" "brk t = brk s1" using t(3) by (simp_all add: frame_def)
  moreover have "a < brk t" if "cells t a \<noteq> None" for a
    using that other [of a] assms(1) c as(1) \<open>brk t = brk s1\<close> by (cases "a \<in> set as") (auto simp: fresh_def)
  then have "fresh t" by (simp add: fresh_def)
  ultimately show ?thesis using t as c new other by (auto simp: chain_def)
qed

lemma rep_cong: "ilist t = ilist s \<Longrightarrow> (\<And>a. a \<in> set xs \<Longrightarrow> cells t a = cells s a) \<Longrightarrow> rep t xs = rep s xs"
  using dll_cong [of xs "cells t" "cells s" None None] by (simp add: rep_def)

lemma chain_cong: "(\<And>a. a \<in> set xs \<Longrightarrow> cells t a = cells s a) \<Longrightarrow> chain t xs = chain s xs"
  using dll_cong [of xs "cells t" "cells s" None None] by (simp add: chain_def)

lemma info_None: "info s a = None \<longleftrightarrow> cells s a = None"
  by (simp add: info_def)

lemma fresh_frame: "frame A s t \<Longrightarrow> fresh s \<Longrightarrow> fresh t"
proof -
  assume f: "frame A s t" and s: "fresh s"
  then have "cells t a = None \<longleftrightarrow> cells s a = None" for a
    using info_None [of t a] info_None [of s a] by (simp add: frame_def)
  then show ?thesis using f s by (simp add: fresh_def frame_def)
qed

text \<open>Dropping the original, if the rewrite function does, keeps the rest of the list and the new chain.\<close>

lemma drop_original_rep:
  assumes "rep s (xs @ a # zs)" "chain s ys" "set ys \<inter> set (xs @ a # zs) = {}" "fresh s"
  shows "\<exists>t. drop_original removed a s = Some t \<and> rep t (xs @ (if removed then [] else [a]) @ zs) \<and> chain t ys
     \<and> fresh t \<and> rest (ilist t) = rest (ilist s) \<and> (\<forall>b. \<not> removed \<or> b \<noteq> a \<longrightarrow> info t b = info s b)"
proof (cases removed)
  case True
  obtain t where t: "instrlist_remove (Some a) s = Some t" "rep t (xs @ zs)" "chain t [a]" "frame (set (xs @ a # zs)) s t"
    using instrlist_remove_rep [OF assms(1)] by blast
  let ?u = "t\<lparr>cells := (cells t)(a := None)\<rparr>"
  have a: "a \<notin> set (xs @ zs)" "a \<notin> set ys" using assms(1,3) by (auto simp: rep_def)
  have "instr_destroy a t = Some ?u" using t(3) by (auto simp: instr_destroy_def chain_def split: option.splits)
  then have "drop_original removed a s = Some ?u" using True t(1) by (simp add: drop_original_def)
  moreover have "rep ?u (xs @ zs)" by (rule rep_cong [THEN iffD2, OF _ _ t(2)]) (use a(1) in auto)
  moreover have "chain t ys" using frame_chain [OF t(4) assms(2,3)] .
  then have "chain ?u ys" by (rule chain_cong [THEN iffD2, rotated]) (use a(2) in auto)
  moreover have "fresh ?u" using fresh_frame [OF t(4) assms(4)] by (simp add: fresh_def)
  moreover have "rest (ilist ?u) = rest (ilist s)" "\<forall>b. b \<noteq> a \<longrightarrow> info ?u b = info s b"
    using t(4) by (auto simp: frame_def info_def fun_eq_iff)
  ultimately show ?thesis using True by auto
qed (use assms in \<open>auto simp: drop_original_def\<close>)

lemma rewrite_step:
  assumes "rep s (xs @ a # zs)" "fresh s" "f l i = Rw removed js" "js \<noteq> []" "\<not> next_only i"
  shows "\<exists>q s1 t ys. call_rewrite f l a i s = Some (q, s1) \<and> instrlist_postinsert (last_or xs None) q s1 = Some t
     \<and> rep t (xs @ ys @ (if removed then [] else [a]) @ zs) \<and> map (info t) ys = map (\<lambda>i. Some (False, i)) js
     \<and> fresh t \<and> rest (ilist t) = rest (ilist s)
     \<and> (\<forall>b \<in> set (xs @ a # zs). \<not> removed \<or> b \<noteq> a \<longrightarrow> info t b = info s b)"
proof -
  let ?left = "if removed then [] else [a]"
  obtain as s0 where cr: "create_all js s = (as, s0)" by (cases "create_all js s") auto
  obtain u where u: "instrlist_concat_next_instr as s0 = Some u" "chain u as" "\<forall>a \<in> set as. cells s a = None"
      "map (info u) as = map (\<lambda>i. Some (False, i)) js" "fresh u" "ilist u = ilist s" "\<forall>a. a \<notin> set as \<longrightarrow> cells u a = cells s a"
    using alloc_chain [OF assms(2,4) cr] by blast
  have "cells s b \<noteq> None" if "b \<in> set (xs @ a # zs)" for b
    using dll_alloc [OF _ that] assms(1) by (auto simp: rep_def)
  then have dj: "set as \<inter> set (xs @ a # zs) = {}" using u(3) by blast
  then have "rep u (xs @ a # zs)" using assms(1) u(6,7) rep_cong [of u s "xs @ a # zs"] by auto
  from drop_original_rep [OF this u(2) dj u(5)] obtain v where v: "drop_original removed a u = Some v"
      "rep v (xs @ ?left @ zs)" "chain v as" "fresh v" "rest (ilist v) = rest (ilist u)"
      "\<forall>b. \<not> removed \<or> b \<noteq> a \<longrightarrow> info v b = info u b" by blast
  have "set as \<inter> set (xs @ ?left @ zs) = {}" using dj by auto
  from il.insert_after_prev [OF v(2,3) this] obtain t where t: "instrlist_postinsert (last_or xs None) (Some (hd as)) v = Some t"
      "rep t (xs @ as @ ?left @ zs)" "frame (set (xs @ ?left @ zs) \<union> set as) v t"
    unfolding last_or_def by blast
  have "as \<noteq> []" using u(2) by (simp add: chain_def)
  then have "call_rewrite f l a i s = Some (Some (hd as), v)"
    using assms(3,5) cr u(1) v(1) by (simp add: call_rewrite_def head_or_hd)
  moreover have "info t = info v" using t(3) by (simp add: frame_def)
  moreover have "map (info v) as = map (info u) as" using v(6) dj by auto
  moreover have "\<forall>b \<in> set (xs @ a # zs). info u b = info s b" using u(7) dj by (auto simp: info_def)
  ultimately show ?thesis using t u v fresh_frame [OF t(3) v(4)] by (auto simp: frame_def)
qed

section \<open>The loop over the block\<close>

definition contents :: "lstate \<Rightarrow> addr list \<Rightarrow> (bool \<times> instr) list" where
  "contents s xs = map (\<lambda>a. the (info s a)) xs"

definition linked_back :: "(bool \<times> instr) list \<Rightarrow> bool" where
  "linked_back is = list_all (\<lambda>(b, i). \<not> (b \<and> next_only i)) is"

lemma contents_cong: "(\<And>a. a \<in> set xs \<Longrightarrow> info t a = info s a) \<Longrightarrow> contents t xs = contents s xs"
  by (simp add: contents_def)

lemma rep_node:
  assumes "rep s (xs @ a # zs)"
  obtains n where "cells s a = Some n" "iprev n = last_or xs None" "inext n = head_or zs None"
    "info s a = Some (is_avx512_instr n, body n)"
  using assms by (auto simp: rep_def dll_append info_def split: option.splits)

lemma rewrite_list_avx512:
  assumes "rewrite_list tbl l ((True, i) # is) = Some out"
  obtains opc f removed js r where "opcode_number (opcode_of i) = Some opc" "tbl (TO_AVX512_RWFUNC_INDEX opc) = Some f"
    "f l i = Rw removed js" "js \<noteq> []" "rewrite_list tbl (l + 3) is = Some r"
    "out = map (Pair False) js @ (if removed then [] else [(True, i)]) @ r"
  using assms by (auto split: Option.bind_splits rw_result.splits if_splits)

lemma rewrite_list_Cons:
  "rewrite_list tbl l (x # is) = Some out \<Longrightarrow> \<exists>js r. rewrite_list tbl l [x] = Some js
     \<and> rewrite_list tbl (if fst x then l + 3 else l) is = Some r \<and> out = js @ r"
  by (cases x; cases "fst x") (auto split: Option.bind_splits rw_result.splits if_splits)

text \<open>
  One round of the loop: it arrives at the rest of the block with the instruction rewritten and
  everything else as it was.
\<close>

lemma rewrite_loop_one:
  assumes "rep s (xs @ a # ws)" "fresh s" "rewrite_list tbl l (contents s [a]) = Some out" "linked_back (contents s [a])"
  shows "\<exists>p q t ys. rewrite_loop tbl l (Some a) fp ln s
        = rewrite_loop tbl (if fst (the (info s a)) then l + 3 else l) (head_or ws None) p q t
     \<and> rep t (xs @ ys @ ws) \<and> contents t ys = out \<and> (\<forall>b \<in> set (xs @ ws). info t b = info s b)
     \<and> rest (ilist t) = rest (ilist s) \<and> fresh t"
proof -
  obtain n where n: "cells s a = Some n" "iprev n = last_or xs None" "inext n = head_or ws None"
      "info s a = Some (is_avx512_instr n, body n)"
    using rep_node [OF assms(1)] .
  show ?thesis
  proof (cases "is_avx512_instr n")
    case False
    then have "rewrite_loop tbl l (Some a) fp ln s = rewrite_loop tbl l (head_or ws None) fp ln s"
      using n by (subst rewrite_loop.simps) simp
    moreover have "contents s [a] = out" using assms(3) n(4) False by (simp add: contents_def)
    moreover have "rep s (xs @ [a] @ ws)" using assms(1) by simp
    moreover have "(if fst (the (info s a)) then l + 3 else l) = l" using n(4) False by simp
    ultimately show ?thesis using assms(2) by (simp only:) blast
  next
    case True
    then have c: "contents s [a] = [(True, body n)]" using n(4) by (simp add: contents_def)
    then have "rewrite_list tbl l [(True, body n)] = Some out" using assms(3) by simp
    then obtain opc f removed js r where f: "opcode_number (opcode_of (body n)) = Some opc"
        "tbl (TO_AVX512_RWFUNC_INDEX opc) = Some f" "f l (body n) = Rw removed js" "js \<noteq> []"
        "rewrite_list tbl (l + 3) [] = Some r" "out = map (Pair False) js @ (if removed then [] else [(True, body n)]) @ r"
      by (rule rewrite_list_avx512)
    have "\<not> next_only (body n)" using assms(4) c by (simp add: linked_back_def)
    from rewrite_step [where f = f, OF assms(1,2) f(3,4) this] obtain u s1 t ys where
      st: "call_rewrite f l a (body n) s = Some (u, s1)" "instrlist_postinsert (last_or xs None) u s1 = Some t"
        "rep t (xs @ ys @ (if removed then [] else [a]) @ ws)" "map (info t) ys = map (\<lambda>i. Some (False, i)) js" "fresh t"
        "rest (ilist t) = rest (ilist s)" "\<forall>b \<in> set (xs @ a # ws). \<not> removed \<or> b \<noteq> a \<longrightarrow> info t b = info s b"
      by blast
    have "rewrite_loop tbl l (Some a) fp ln s
        = rewrite_loop tbl (l + 3) (head_or ws None) (if fp = None then iprev n else fp) (inext n) t"
      using n True st(1,2) f(1,2) by (subst rewrite_loop.simps) (simp add: exec_rewrite_avx512_instr_def)
    moreover have "contents t ys = map (Pair False) js"
      using arg_cong [OF st(4), of "map the"] by (simp add: contents_def comp_def)
    then have "contents t (ys @ (if removed then [] else [a])) = out" using st(7) n(4) True f(5,6) by (simp add: contents_def)
    moreover have "\<forall>b \<in> set (xs @ ws). info t b = info s b" using st(7) assms(1) by (auto simp: rep_def)
    moreover have "rep t (xs @ (ys @ (if removed then [] else [a])) @ ws)" using st(3) by simp
    moreover have "(if fst (the (info s a)) then l + 3 else l) = l + 3" using n(4) True by simp
    ultimately show ?thesis using st(5,6) by (simp only:) blast
  qed
qed

text \<open>The loop over a part \<open>zs\<close> of the block.\<close>

lemma rewrite_loop_part:
  assumes "rep s (xs @ zs @ ws)" "fresh s" "rewrite_list tbl l (contents s zs) = Some out" "linked_back (contents s zs)"
  shows "\<exists>l' p q t ys. rewrite_loop tbl l (head_or (zs @ ws) None) fp ln s = rewrite_loop tbl l' (head_or ws None) p q t
     \<and> rep t (xs @ ys @ ws) \<and> contents t ys = out \<and> (\<forall>b \<in> set (xs @ ws). info t b = info s b)
     \<and> rest (ilist t) = rest (ilist s) \<and> fresh t"
  using assms
proof (induction zs arbitrary: s xs l fp ln out)
  case Nil
  then show ?case by (intro exI [of _ l] exI [of _ fp] exI [of _ ln] exI [of _ s] exI [of _ "[]"]) (simp add: contents_def)
next
  case (Cons a zs)
  let ?l = "if fst (the (info s a)) then l + 3 else l"
  have c: "contents s (a # zs) = the (info s a) # contents s zs" "contents s [a] = [the (info s a)]" by (simp_all add: contents_def)
  obtain js r where r: "rewrite_list tbl l (contents s [a]) = Some js" "rewrite_list tbl ?l (contents s zs) = Some r" "out = js @ r"
    using rewrite_list_Cons [of tbl l "the (info s a)" "contents s zs" out] Cons.prems(3) c by auto
  have nx: "linked_back (contents s [a])" "linked_back (contents s zs)" using Cons.prems(4) c by (simp_all add: linked_back_def)
  have "rep s (xs @ a # zs @ ws)" using Cons.prems(1) by simp
  from rewrite_loop_one [OF this Cons.prems(2) r(1) nx(1)] obtain p q t ys where
    t: "rewrite_loop tbl l (Some a) fp ln s = rewrite_loop tbl ?l (head_or (zs @ ws) None) p q t" "rep t ((xs @ ys) @ zs @ ws)"
      "contents t ys = js" "\<forall>b \<in> set (xs @ zs @ ws). info t b = info s b" "rest (ilist t) = rest (ilist s)" "fresh t"
    unfolding append_assoc by blast
  have "contents t zs = contents s zs" using t(4) by (intro contents_cong) auto
  with r(2) nx(2) obtain l' p' q' u zs' where
    u: "rewrite_loop tbl ?l (head_or (zs @ ws) None) p q t = rewrite_loop tbl l' (head_or ws None) p' q' u"
      "rep u ((xs @ ys) @ zs' @ ws)" "contents u zs' = r" "\<forall>b \<in> set ((xs @ ys) @ ws). info u b = info t b"
      "rest (ilist u) = rest (ilist t)" "fresh u"
    using Cons.IH [OF t(2,6), of ?l r p q] by (simp only:) blast
  have "contents u ys = js" unfolding t(3) [symmetric] using u(4) by (intro contents_cong) simp
  then have "contents u (ys @ zs') = out" using u(3) r(3) by (simp add: contents_def)
  moreover have "rep u (xs @ (ys @ zs') @ ws)" using u(2) by simp
  moreover have "\<forall>b \<in> set (xs @ ws). info u b = info s b" using u(4) t(4) by auto
  moreover have "rewrite_loop tbl l (head_or ((a # zs) @ ws) None) fp ln s = rewrite_loop tbl l' (head_or ws None) p' q' u"
    using t(1) u(1) by simp
  moreover have "rest (ilist u) = rest (ilist s)" using t(5) u(5) by simp
  ultimately show ?case using u(6) by blast
qed

lemma need_spill_rest: "rest l = rest m \<Longrightarrow> need_spill_simd l = need_spill_simd m"
  by (metis instrlist_t.select_convs(7) instrlist_t.surjective instrlist_t.update_convs(1,2) rest_def)

lemma exec_rewrite_avx512_bb_run:
  assumes "rep s xs" "fresh s" "\<not> need_spill_simd (ilist s)" "linked_back (contents s xs)"
    and "rewrite_list tbl l (contents s xs) = Some out"
  shows "\<exists>t ys. exec_rewrite_avx512_bb tbl l s = Some t \<and> rep t ys \<and> fresh t \<and> contents t ys = out"
proof -
  obtain l' p q t ys where t: "rewrite_loop tbl l (head_or xs None) None None s = rewrite_loop tbl l' None p q t" "rep t ys"
      "contents t ys = out" "rest (ilist t) = rest (ilist s)" "fresh t"
    using rewrite_loop_part [of s "[]" xs "[]" tbl l out None None] assms by auto
  then have "rewrite_loop tbl l (head_or xs None) None None s = Some (p, q, t)"
    using rewrite_loop.simps [of tbl l' None p q t] by simp
  have "need_spill_simd (ilist t) = need_spill_simd (ilist s)" by (rule need_spill_rest [OF t(4)])
  moreover have "ifirst (ilist s) = head_or xs None" using assms(1) by (simp add: rep_def)
  ultimately have "exec_rewrite_avx512_bb tbl l s = Some t"
    using assms(3) \<open>rewrite_loop tbl l (head_or xs None) None None s = Some (p, q, t)\<close> by (simp add: exec_rewrite_avx512_bb_def)
  then show ?thesis using t by blast
qed

text \<open>
  C2. The driver on a block that is a well-formed list, under three conditions. The function in
  the table for each AVX-512 instruction of the block returns a non-empty chain, so that \<open>rewrite_list\<close> is
  defined on the block. No instruction is a \<open>kmovw\<close> to a general-purpose register, whose chain is linked
  forwards only. The list does not ask for the vector registers to be spilled. Then the driver
  ends, and the linked list it leaves is well-formed and holds the sequence that \<open>rewrite_list\<close> gives: each
  AVX-512 instruction replaced, in place and in order, by its chain, followed by the original if the
  rewrite function did not remove it; all other instructions unchanged.
\<close>

theorem exec_rewrite_avx512_bb_refines:
  assumes "rep s xs" "fresh s" "\<not> need_spill_simd (ilist s)" "linked_back (contents s xs)"
    and "rewrite_list tbl l (contents s xs) = Some out"
  shows "\<exists>t ys. exec_rewrite_avx512_bb tbl l s = Some t \<and> rep t ys \<and> fresh t \<and> contents t ys = out"
  using assms by (rule exec_rewrite_avx512_bb_run)

text \<open>A block of a native instruction and \<open>kxnorw k1, k2, k3\<close>.\<close>

definition block_sample :: lstate where
  "block_sample = list_sample\<lparr>cells := [1 \<mapsto> link_sample None (Some 2),
     2 \<mapsto> (link_sample (Some 1) None)\<lparr>is_avx512_instr := True, body := Instr (OP_AVX512 495) [K 1] [K 2, K 3]\<rparr>]\<rparr>"

lemma block_sample_rep: "rep block_sample [1, 2]" "fresh block_sample" "\<not> need_spill_simd (ilist block_sample)"
    "contents block_sample [1, 2] = [(False, INSTR_CREATE_clc), (True, Instr (OP_AVX512 495) [K 1] [K 2, K 3])]"
  by (auto simp: rep_def fresh_def block_sample_def list_sample_def link_sample_def last_or_def contents_def info_def
      split: if_splits)

theorem exec_rewrite_avx512_bb_refines_witness:
  "\<exists>t ys js. rw_func_kxnorw (Instr (OP_AVX512 495) [K 1] [K 2, K 3]) = Rw True js
     \<and> exec_rewrite_avx512_bb (rewrite_funcs (\<lambda>_. rw_func_empty)) 0 block_sample = Some t
     \<and> rep t ys \<and> contents t ys = (False, INSTR_CREATE_clc) # map (Pair False) js"
proof -
  obtain js where js: "rw_func_kxnorw (Instr (OP_AVX512 495) [K 1] [K 2, K 3]) = Rw True js" "js \<noteq> []"
    by (simp add: rw_func_kxnorw_def)
  have "rewrite_funcs (\<lambda>_. rw_func_empty) 494 = Some (\<lambda>_. rw_func_kxnorw)"
    by (simp add: rewrite_funcs_def mask_funcs_def)
  then have "rewrite_list (rewrite_funcs (\<lambda>_. rw_func_empty)) 0 (contents block_sample [1, 2])
      = Some ((False, INSTR_CREATE_clc) # map (Pair False) js)"
    using js by (simp add: block_sample_rep(4) [simplified] AVX512_FIRST_OP_def TO_AVX512_RWFUNC_INDEX_def)
  moreover have "linked_back (contents block_sample [1, 2])"
    using block_sample_rep(4) by (simp add: linked_back_def next_only_def)
  ultimately show ?thesis using exec_rewrite_avx512_bb_refines [OF block_sample_rep(1-3)] js(1) by blast
qed

section \<open>Instructions the driver cannot rewrite\<close>

lemma postinsert_bad: "check_translation q s = None \<Longrightarrow> instrlist_postinsert p q s = None"
  by (cases p) (auto simp: instrlist_postinsert_def instrlist_prepend_def split: Option.bind_splits)

text \<open>What a translation is not: a null pointer, or an instruction that is no longer allocated.\<close>

definition dangling :: "addr option \<Rightarrow> lstate \<Rightarrow> bool" where
  "dangling q s \<longleftrightarrow> (case q of None \<Rightarrow> True | Some b \<Rightarrow> cells s b = None)"

lemma untranslated_instr:
  assumes "cells s a = Some c" "fresh s" "opcode_of (body c) = OP_AVX512 n" "0 < n" "n \<le> 768"
    and "n = 486 \<or> (n < 472 \<or> 522 < n) \<and> n - 1 \<notin> set vector_entries"
  shows "\<exists>q s1. exec_rewrite_avx512_instr (rewrite_funcs vec) l a s = Some (q, s1) \<and> dangling q s1 \<and> (q = None \<longleftrightarrow> n = 486)"
proof -
  have ix: "opcode_number (opcode_of (body c)) = Some (AVX512_FIRST_OP + (n - 1))"
      "TO_AVX512_RWFUNC_INDEX (AVX512_FIRST_OP + (n - 1)) = n - 1"
    using assms(3,4) by (simp_all add: TO_AVX512_RWFUNC_INDEX_def)
  show ?thesis
  proof (cases "n = 486")
    case True
    then have "rewrite_funcs vec (n - 1) = Some (\<lambda>_. rw_func_kunpckdq)" by (simp add: rewrite_funcs_def mask_funcs_def)
    then show ?thesis using True assms(1) ix
      by (simp add: exec_rewrite_avx512_instr_def call_rewrite_def rw_func_kunpckdq_def drop_original_def dangling_def)
  next
    case False
    then have "rewrite_funcs vec (n - 1) = Some rw_func_empty" using assms(4-6) by (auto simp: rewrite_funcs_def)
    moreover have "cells s (brk s) = None" using assms(2) by (auto simp: fresh_def)
    ultimately show ?thesis using False assms(1) ix
      by (simp add: exec_rewrite_avx512_instr_def call_rewrite_def rw_func_empty_def dangling_def)
  qed
qed

lemma dangling_check: "dangling q s \<Longrightarrow> check_translation q s = None"
  by (cases q) (auto simp: dangling_def check_translation_def update_def)

text \<open>
  C31. A block with an AVX-512 instruction without a translation, after a part of the block whose
  AVX-512 instructions all have a translation that is linked in both directions. The driver reaches the instruction with that part rewritten. What it
  gets for the instruction is a dangling pointer: the address of the \<open>nop\<close> that the place holder has
  just destroyed, or for \<open>kunpckdq\<close> a null pointer. It inserts this pointer, and so accesses an
  instruction that does not exist, which is where the run of the driver stops.
\<close>

theorem untranslated_block_fails:
  assumes "rep s (xs @ a # zs)" "fresh s" "linked_back (contents s xs)"
    and "rewrite_list (rewrite_funcs vec) l (contents s xs) = Some out"
    and "info s a = Some (True, i)" "opcode_of i = OP_AVX512 n" "0 < n" "n \<le> 768"
    and "n = 486 \<or> (n < 472 \<or> 522 < n) \<and> n - 1 \<notin> set vector_entries"
  shows "\<exists>l' fp ln t ys q u. rewrite_loop (rewrite_funcs vec) l (ifirst (ilist s)) None None s
        = rewrite_loop (rewrite_funcs vec) l' (Some a) fp ln t
      \<and> rep t (ys @ a # zs) \<and> contents t ys = out
      \<and> exec_rewrite_avx512_instr (rewrite_funcs vec) l' a t = Some (q, u) \<and> dangling q u \<and> (q = None \<longleftrightarrow> n = 486)
      \<and> check_translation q u = None \<and> exec_rewrite_avx512_bb (rewrite_funcs vec) l s = None"
proof -
  let ?tbl = "rewrite_funcs vec"
  obtain l' fp ln t ys where t: "rewrite_loop ?tbl l (head_or (xs @ a # zs) None) None None s = rewrite_loop ?tbl l' (Some a) fp ln t"
      "rep t (ys @ a # zs)" "contents t ys = out" "\<forall>b \<in> set (a # zs). info t b = info s b" "fresh t"
    using rewrite_loop_part [of s "[]" xs "a # zs" ?tbl l out None None] assms(1-4) by auto
  obtain c where c: "cells t a = Some c" "info t a = Some (is_avx512_instr c, body c)"
    using rep_node [OF t(2)] by metis
  with t(4) assms(5) have i: "is_avx512_instr c" "body c = i" by auto
  obtain q u where q: "exec_rewrite_avx512_instr ?tbl l' a t = Some (q, u)" "dangling q u" "q = None \<longleftrightarrow> n = 486"
    using untranslated_instr [OF c(1) t(5)] assms(6-9) i(2) by blast
  note bad = dangling_check [OF q(2)]
  have "rewrite_loop ?tbl l' (Some a) fp ln t = None"
    using c i(1) q(1) postinsert_bad [OF bad] by (subst rewrite_loop.simps) simp
  moreover have "ifirst (ilist s) = head_or (xs @ a # zs) None" using assms(1) by (simp add: rep_def)
  ultimately have "exec_rewrite_avx512_bb ?tbl l s = None" using t(1) by (simp add: exec_rewrite_avx512_bb_def)
  with t(1-3) q bad \<open>ifirst (ilist s) = _\<close> show ?thesis by (simp only:) blast
qed

theorem untranslated_block_fails_witness:
  "exec_rewrite_avx512_bb (rewrite_funcs (\<lambda>_. rw_func_empty)) 0
     (block_sample\<lparr>cells := (cells block_sample)(2 \<mapsto>
       (link_sample (Some 1) None)\<lparr>is_avx512_instr := True, body := Instr (OP_AVX512 523) [] []\<rparr>)\<rparr>) = None"
proof -
  let ?s = "block_sample\<lparr>cells := (cells block_sample)(2 \<mapsto>
       (link_sample (Some 1) None)\<lparr>is_avx512_instr := True, body := Instr (OP_AVX512 523) [] []\<rparr>)\<rparr>"
  have "rep ?s ([1] @ 2 # [])" "fresh ?s" "info ?s 2 = Some (True, Instr (OP_AVX512 523) [] [])"
      "contents ?s [1] = [(False, INSTR_CREATE_clc)]"
    by (auto simp: rep_def fresh_def block_sample_def list_sample_def link_sample_def last_or_def contents_def info_def split: if_splits)
  then show ?thesis
    using untranslated_block_fails [of ?s "[1]" 2 "[]" "\<lambda>_. rw_func_empty" 0 "[(False, INSTR_CREATE_clc)]" "Instr (OP_AVX512 523) [] []" 523]
    by (auto simp: linked_back_def vector_entries_def)
qed

text \<open>Inserting a chain of two that is linked forwards only into an empty list.\<close>

lemma forward_prepend:
  assumes "ifirst (ilist s) = None" "\<exists>m. cells s b = Some m \<and> iprev m = None \<and> inext m = Some c"
    and "\<exists>m. cells s c = Some m \<and> iprev m = None \<and> inext m = None"
  shows "instrlist_prepend (Some b) s = Some (set_last (Some c) (set_first (Some b)
      (s\<lparr>cells := stamp_on {c} (ilist s) (stamp_on {b} (ilist s) (cells s))\<rparr>)))"
proof -
  let ?s = "s\<lparr>cells := stamp_on {b} (ilist s) (cells s)\<rparr>"
  let ?t = "s\<lparr>cells := stamp_on {c} (ilist s) (stamp_on {b} (ilist s) (cells s))\<rparr>"
  have "instr_get_next (Some b) ?s = Some (Some c)" "instr_get_next (Some c) ?t = Some None"
    using assms(2,3) by (auto simp: instr_get_next_def deref_def stamp_on_def)
  moreover have "check_translation (Some c) ?s = Some ?t"
    using check_translation_cells [of ?s c] assms(3) by auto
  ultimately have "chain_end (Some b) ?s = Some (Some c, ?t)"
    by (subst chain_end.simps) (simp, subst chain_end.simps, simp)
  then show ?thesis using assms(1,2) by (auto simp: instrlist_prepend_def check_translation_cells)
qed

text \<open>
  Rewriting \<open>kmovw\<close> to a general-purpose register leaves a list that is not
  well-formed: the second instruction of the chain does not point back to the first.
\<close>

lemma kmovw_list_broken:
  assumes "rep s [a]" "fresh s" "\<not> need_spill_simd (ilist s)" "k < 8" "g < 16"
    and "info s a = Some (True, Instr (OP_AVX512 472) [OReg (DR_REG_EAX + g)] [K k])"
  shows "\<exists>t. exec_rewrite_avx512_bb (rewrite_funcs vec) l s = Some t \<and> (\<forall>ys. \<not> rep t ys)"
proof -
  let ?i = "Instr (OP_AVX512 472) [OReg (DR_REG_EAX + g)] [K k]"
  obtain i1 i2 where rw: "rw_func_kmovw ?i = Rw True [i1, i2]" using assms(4,5) by (simp add: rw_func_kmovw_def)
  have nx: "next_only ?i" using assms(4,5) by (simp add: next_only_def)
  obtain n where n: "cells s a = Some n" "iprev n = None" "inext n = None" "is_avx512_instr n" "body n = ?i"
    using assms(1,6) by (auto simp: rep_def info_def split: option.splits)
  define b where "b = brk s"
  have ab: "a < b" "cells s b = None" "cells s (Suc b) = None" using n(1) assms(2) by (auto simp: fresh_def b_def)
  have "rewrite_funcs vec 471 = Some (\<lambda>_. rw_func_kmovw)" by (simp add: rewrite_funcs_def mask_funcs_def)
  then obtain s1 where s1: "exec_rewrite_avx512_instr (rewrite_funcs vec) l a s = Some (Some b, s1)"
      "ifirst (ilist s1) = None" "ilast (ilist s1) = None" "rest (ilist s1) = rest (ilist s)"
      "\<exists>m. cells s1 b = Some m \<and> iprev m = None \<and> inext m = Some (Suc b)"
      "\<exists>m. cells s1 (Suc b) = Some m \<and> iprev m = None \<and> inext m = None"
    using n rw nx ab
    by (auto simp: exec_rewrite_avx512_instr_def AVX512_FIRST_OP_def TO_AVX512_RWFUNC_INDEX_def call_rewrite_def
        drop_original_def instr_create_def b_def [symmetric] instrlist_remove_def instr_set_next_def instr_set_prev_def
        update_def instr_get_prev_def instr_get_next_def deref_def instr_destroy_def)
  let ?c = "stamp_on {Suc b} (ilist s1) (stamp_on {b} (ilist s1) (cells s1))"
  let ?t = "set_last (Some (Suc b)) (set_first (Some b) (s1\<lparr>cells := ?c\<rparr>))"
  have ins: "instrlist_postinsert None (Some b) s1 = Some ?t"
    using forward_prepend [OF s1(2,5,6)] by (simp add: instrlist_postinsert_def)
  have cb: "\<exists>m. ?c b = Some m \<and> inext m = Some (Suc b)" "\<exists>m. ?c (Suc b) = Some m \<and> iprev m = None"
    using s1(5,6) by (auto simp: stamp_on_def)
  have "\<not> rep ?t ys" for ys
  proof
    assume r: "rep ?t ys"
    then have first: "head_or ys None = Some b" and d: "dll ?c None ys None" by (simp_all add: rep_def)
    then obtain ws where ys: "ys = b # ws" by (cases ys) auto
    with d cb(1) have "head_or ws None = Some (Suc b)" by (auto split: option.splits)
    with ys d cb(2) show False by (cases ws) (auto split: option.splits)
  qed
  moreover have "exec_rewrite_avx512_bb (rewrite_funcs vec) l s = Some ?t"
  proof -
    have "rewrite_loop (rewrite_funcs vec) l (Some a) None None s = Some (None, None, ?t)"
      using n s1(1) ins by (subst rewrite_loop.simps) (simp, subst rewrite_loop.simps, simp)
    moreover have "need_spill_simd (ilist ?t) = need_spill_simd (ilist s)" using s1(4) by (intro need_spill_rest) simp
    moreover have "ifirst (ilist s) = Some a" using assms(1) by (simp add: rep_def)
    ultimately show ?thesis using assms(3) by (simp add: exec_rewrite_avx512_bb_def)
  qed
  ultimately show ?thesis by blast
qed

lemma kmovw_list_broken_witness:
  "\<exists>t. exec_rewrite_avx512_bb (rewrite_funcs (\<lambda>_. rw_func_empty)) 0
     (list_sample\<lparr>ilist := (ilist list_sample)\<lparr>ilast := Some 1\<rparr>, cells := [1 \<mapsto> (link_sample None None)
        \<lparr>is_avx512_instr := True, body := Instr (OP_AVX512 472) [OReg DR_REG_ECX] [K 2]\<rparr>]\<rparr>) = Some t
     \<and> (\<forall>ys. \<not> rep t ys)"
  by (rule kmovw_list_broken [of _ 1 2 1])
    (auto simp: rep_def fresh_def list_sample_def link_sample_def last_or_def info_def split: if_splits)

end
