(* ===== verification/Block.thy ===== *)
theory Block
  imports Driver
begin

text \<open>
  From single instructions to basic blocks. The locale \<open>rewriting\<close> collects what a table of
  rewrite functions must provide for the instructions of a block: each is rewritten, the
  emitted chain runs to its end, and what it leaves agrees with the reference. In it the
  whole rewritten block is shown to run to its end and to agree with the reference of the
  block. The locale is interpreted on the table of the program and the instructions whose
  rewriting is exact.
\<close>

section \<open>A block of rewritten instructions\<close>

lemma agree_trans: "agree m a b \<Longrightarrow> agree m b c \<Longrightarrow> agree m a c"
  by (simp add: agree_def)

lemma stack_room_agree:
  "stack_room m s \<Longrightarrow> agree n (abs_state t) a \<Longrightarrow> agpr a 4 = agpr (abs_state s) 4 \<Longrightarrow>
     amapped a = amapped (abs_state s) \<Longrightarrow> stack_room m t"
  by (simp add: stack_room_def agree_def abs_state_def)

locale rewriting =
  fixes valid :: "'op \<Rightarrow> bool"
    and encode :: "'op \<Rightarrow> bool \<times> instr"
    and ref :: "'op \<Rightarrow> astate \<Rightarrow> astate"
    and tbl :: "nat \<Rightarrow> rw_func option"
    and m :: nat
  assumes native: "valid p \<Longrightarrow> encode p = (False, i) \<Longrightarrow> stack_room m s \<Longrightarrow>
      \<exists>t. exec [i] s = Inr t \<and> agree m (abs_state t) (ref p (abs_state s))"
    and translated: "valid p \<Longrightarrow> encode p = (True, i) \<Longrightarrow> stack_room m s \<Longrightarrow>
      \<exists>opc f js t. opcode_number (opcode_of i) = Some opc \<and> tbl (TO_AVX512_RWFUNC_INDEX opc) = Some f
        \<and> f l i = Rw True js \<and> js \<noteq> [] \<and> exec js s = Inr t \<and> agree m (abs_state t) (ref p (abs_state s))"
    and ref_agree: "valid p \<Longrightarrow> agree m a b \<Longrightarrow> agree m (ref p a) (ref p b)"
    and ref_stack: "valid p \<Longrightarrow> agpr (ref p a) 4 = agpr a 4" "valid p \<Longrightarrow> amapped (ref p a) = amapped a"
begin

lemma fold_ref_agree: "list_all valid ps \<Longrightarrow> agree m a b \<Longrightarrow> agree m (fold ref ps a) (fold ref ps b)"
  by (induction ps arbitrary: a b) (auto intro: ref_agree)

lemma one_op:
  assumes "valid p" "stack_room m s"
  shows "\<exists>js t. (\<forall>is r. rewrite_list tbl (if fst (encode p) then l + 3 else l) is = Some r \<longrightarrow>
        rewrite_list tbl l (encode p # is) = Some (map (Pair False) js @ r))
     \<and> exec js s = Inr t \<and> agree m (abs_state t) (ref p (abs_state s))"
proof (cases "encode p")
  case (Pair b i)
  show ?thesis
  proof (cases b)
    case True
    with Pair have e: "encode p = (True, i)" by simp
    obtain opc f js t where "opcode_number (opcode_of i) = Some opc" "tbl (TO_AVX512_RWFUNC_INDEX opc) = Some f"
        "f l i = Rw True js" "js \<noteq> []" "exec js s = Inr t" "agree m (abs_state t) (ref p (abs_state s))"
      using translated [OF assms(1) e assms(2), of l] by blast
    then show ?thesis using e by (intro exI [of _ js] exI [of _ t]) (simp del: exec.simps)
  next
    case False
    with Pair have e: "encode p = (False, i)" by simp
    obtain t where "exec [i] s = Inr t" "agree m (abs_state t) (ref p (abs_state s))"
      using native [OF assms(1) e assms(2)] by blast
    then show ?thesis using e by (intro exI [of _ "[i]"] exI [of _ t]) (simp del: exec.simps)
  qed
qed

text \<open>The first unused label number after the instructions of \<open>ps\<close>.\<close>

abbreviation labels :: "nat \<Rightarrow> 'op list \<Rightarrow> nat" where
  "labels l ps \<equiv> l + 3 * length (filter (\<lambda>p. fst (encode p)) ps)"

lemma block_prefix:
  "list_all valid ps \<Longrightarrow> stack_room m s \<Longrightarrow>
     \<exists>out t. (\<forall>is r. rewrite_list tbl (labels l ps) is = Some r \<longrightarrow>
          rewrite_list tbl l (map encode ps @ is) = Some (out @ r))
       \<and> exec (map snd out) s = Inr t \<and> stack_room m t \<and> agree m (abs_state t) (fold ref ps (abs_state s))"
proof (induction ps arbitrary: s l)
  case (Cons p ps)
  then have p: "valid p" "list_all valid ps" by simp_all
  obtain js u where u: "\<forall>is r. rewrite_list tbl (if fst (encode p) then l + 3 else l) is = Some r \<longrightarrow>
        rewrite_list tbl l (encode p # is) = Some (map (Pair False) js @ r)"
      "exec js s = Inr u" "agree m (abs_state u) (ref p (abs_state s))"
    using one_op [OF p(1) Cons.prems(2)] by blast
  have "stack_room m u" using stack_room_agree [OF Cons.prems(2) u(3)] ref_stack [OF p(1)] by blast
  then obtain out t where t: "\<forall>is r. rewrite_list tbl (labels (if fst (encode p) then l + 3 else l) ps) is = Some r \<longrightarrow>
          rewrite_list tbl (if fst (encode p) then l + 3 else l) (map encode ps @ is) = Some (out @ r)"
      "exec (map snd out) u = Inr t" "stack_room m t" "agree m (abs_state t) (fold ref ps (abs_state u))"
    using Cons.IH [OF p(2)] by blast
  have "labels l (p # ps) = labels (if fst (encode p) then l + 3 else l) ps" by simp
  then have "\<forall>is r. rewrite_list tbl (labels l (p # ps)) is = Some r \<longrightarrow>
      rewrite_list tbl l (map encode (p # ps) @ is) = Some ((map (Pair False) js @ out) @ r)"
    using u(1) t(1) by simp
  moreover have "exec (map snd (map (Pair False) js @ out)) s = Inr t"
    using exec_append [OF u(2)] t(2) by (simp add: comp_def)
  moreover have "agree m (abs_state t) (fold ref (p # ps) (abs_state s))"
    using agree_trans [OF t(4) fold_ref_agree [OF p(2) u(3)]] by simp
  ultimately show ?case using t(3) by blast
qed (auto intro: exI [of _ "[]"])

lemma block:
  assumes "list_all valid ps" "stack_room m s"
  shows "\<exists>out t. rewrite_list tbl l (map encode ps) = Some out \<and> exec (map snd out) s = Inr t
       \<and> agree m (abs_state t) (fold ref ps (abs_state s))"
proof -
  obtain out t where t: "\<forall>is r. rewrite_list tbl (labels l ps) is = Some r \<longrightarrow>
          rewrite_list tbl l (map encode ps @ is) = Some (out @ r)"
      "exec (map snd out) s = Inr t" "agree m (abs_state t) (fold ref ps (abs_state s))"
    using block_prefix [OF assms] by blast
  from t(1) have "rewrite_list tbl l (map encode ps) = Some out" by (metis append_Nil2 rewrite_list.simps(1))
  then show ?thesis using t(2,3) by blast
qed

text \<open>
  If the rewrite function of an instruction between two such blocks leaves the instruction in
  place, the rewritten block ends at it with an undefined-opcode exception.
\<close>

lemma block_kept:
  assumes "list_all valid ps" "list_all valid qs" "stack_room m s"
    and "opcode_of i = OP_AVX512 n" "n = k + 1" "tbl k = Some f"
    and run: "\<And>l u. stack_room m u \<Longrightarrow> \<exists>js t. f l i = Rw False js \<and> js \<noteq> [] \<and> exec js u = Inr t"
  shows "\<exists>out. rewrite_list tbl l (map encode ps @ (True, i) # map encode qs) = Some out
     \<and> exec (map snd out) s = Inl UD"
proof -
  obtain pre u where u: "\<forall>is r. rewrite_list tbl (labels l ps) is = Some r \<longrightarrow>
          rewrite_list tbl l (map encode ps @ is) = Some (pre @ r)"
      "exec (map snd pre) s = Inr u" "stack_room m u"
    using block_prefix [OF assms(1,3)] by blast
  obtain js t where t: "f (labels l ps) i = Rw False js" "js \<noteq> []" "exec js u = Inr t" using run [OF u(3)] by blast
  obtain r where r: "rewrite_list tbl (labels l ps + 3) (map encode qs) = Some r"
    using block [OF assms(2) u(3)] by blast
  have "rewrite_list tbl (labels l ps) ((True, i) # map encode qs) = Some (map (Pair False) js @ (True, i) # r)"
    using assms(4-6) t r by (simp add: TO_AVX512_RWFUNC_INDEX_def)
  then have "rewrite_list tbl l (map encode ps @ (True, i) # map encode qs) = Some (pre @ map (Pair False) js @ (True, i) # r)"
    using u(1) by blast
  moreover have "step i t = Trap UD" using assms(4) by (cases i) (simp add: step_def step_exec_def)
  then have "exec (map snd (pre @ map (Pair False) js @ (True, i) # r)) s = Inl UD"
    using exec_append [OF u(2)] exec_append [OF t(3)] by (simp add: comp_def)
  ultimately show ?thesis by blast
qed

end

section \<open>The instructions whose rewriting is exact\<close>

text \<open>
  The instructions of the table that are replaced by a chain with exactly the effect of the
  reference, and two instructions the rewriter leaves alone. Widths of masks are in bits;
  \<open>Kmov_gk\<close> reads a mask register into a general-purpose register, \<open>Kmov_kg\<close> the other way
  round. The vector instructions are the unmasked ones on \<open>zmm\<close> registers.
\<close>

datatype bop =
    Kxnor nat nat nat nat
  | Kor nat nat nat
  | Knot nat nat
  | Kshiftr int nat nat
  | Kmov_kk nat nat nat
  | Kmov_gk nat nat nat
  | Kmov_kg nat nat nat
  | Mov_imm nat int
  | Add nat nat
  | Vpaddd nat nat nat
  | Vpsubq nat nat nat
  | Vpsubd nat nat nat
  | Vmovaps nat nat

fun valid_op :: "bop \<Rightarrow> bool" where
  "valid_op (Kxnor w d a b) \<longleftrightarrow> (w = 8 \<or> w = 16 \<or> w = 64) \<and> d < 8 \<and> a < 8 \<and> b < 8"
| "valid_op (Kor d a b) \<longleftrightarrow> d < 8 \<and> a < 8 \<and> b < 8"
| "valid_op (Knot d a) \<longleftrightarrow> d < 8 \<and> a < 8"
| "valid_op (Kshiftr c d a) \<longleftrightarrow> 0 \<le> c \<and> c \<le> 127 \<and> d < 8 \<and> a < 8"
| "valid_op (Kmov_kk w d a) \<longleftrightarrow> (w = 64 \<or> w = 8 \<and> a \<noteq> d) \<and> d < 8 \<and> a < 8"
| "valid_op (Kmov_gk w g a) \<longleftrightarrow> (w = 64 \<or> w = 32 \<or> w = 8) \<and> g < 16 \<and> g \<noteq> 4 \<and> a < 8"
| "valid_op (Kmov_kg w d g) \<longleftrightarrow> (w = 64 \<or> w = 8 \<and> g \<noteq> 15 \<and> g \<noteq> 4) \<and> g < 16 \<and> d < 8"
| "valid_op (Mov_imm g v) \<longleftrightarrow> g < 16 \<and> g \<noteq> 4"
| "valid_op (Add g h) \<longleftrightarrow> g < 16 \<and> h < 16 \<and> g \<noteq> 4"
| "valid_op (Vpaddd d a b) \<longleftrightarrow> d < 32 \<and> a < 32 \<and> b < 32"
| "valid_op (Vpsubq d a b) \<longleftrightarrow> d < 32 \<and> a < 32 \<and> b < 32"
| "valid_op (Vpsubd d a b) \<longleftrightarrow> d < 16 \<and> a < 16 \<and> b < 16"
| "valid_op (Vmovaps d a) \<longleftrightarrow> d < 32 \<and> a < 32 \<and> (a < 16 \<longleftrightarrow> d < 16)"

text \<open>The instruction, and whether the decoder marks it as an AVX-512 instruction.\<close>

fun encode_op :: "bop \<Rightarrow> bool \<times> instr" where
  "encode_op (Kxnor w d a b) = (True, Instr (OP_AVX512 (if w = 16 then 495 else if w = 8 then 496 else 497)) [K d] [K a, K b])"
| "encode_op (Kor d a b) = (True, Instr (OP_AVX512 493) [K d] [K a, K b])"
| "encode_op (Knot d a) = (True, Instr (OP_AVX512 489) [K d] [K a])"
| "encode_op (Kshiftr c d a) = (True, Instr (OP_AVX512 516) [K d] [K a, OImm c 1])"
| "encode_op (Kmov_kk w d a) = (True, Instr (OP_AVX512 (if w = 64 then 474 else 473)) [K d] [K a])"
| "encode_op (Kmov_gk w g a) = (True, Instr (OP_AVX512 (if w = 64 then 474 else if w = 32 then 475 else 473))
     [OReg ((if w = 64 then DR_REG_RAX else DR_REG_EAX) + g)] [K a])"
| "encode_op (Kmov_kg w d g) = (True, Instr (OP_AVX512 (if w = 64 then 474 else 473))
     [K d] [OReg ((if w = 64 then DR_REG_RAX else DR_REG_EAX) + g)])"
| "encode_op (Mov_imm g v) = (False, INSTR_CREATE_mov_imm (OReg (DR_REG_RAX + g)) (OImm v 8))"
| "encode_op (Add g h) = (False, INSTR_CREATE_add (OReg (DR_REG_RAX + g)) (OReg (DR_REG_RAX + h)))"
| "encode_op (Vpaddd d a b) = (True, Instr (OP_AVX512 154) [OReg (DR_REG_ZMM0 + d)] [K 0, OReg (DR_REG_ZMM0 + a), OReg (DR_REG_ZMM0 + b)])"
| "encode_op (Vpsubq d a b) = (True, Instr (OP_AVX512 151) [OReg (DR_REG_ZMM0 + d)] [K 0, OReg (DR_REG_ZMM0 + a), OReg (DR_REG_ZMM0 + b)])"
| "encode_op (Vpsubd d a b) = (True, Instr (OP_AVX512 150) [OReg (DR_REG_ZMM0 + d)] [K 0, OReg (DR_REG_ZMM0 + a), OReg (DR_REG_ZMM0 + b)])"
| "encode_op (Vmovaps d a) = (True, Instr (OP_AVX512 16) [OReg (DR_REG_ZMM0 + d)] [K 0, OReg (DR_REG_ZMM0 + a)])"

fun ref_op :: "bop \<Rightarrow> astate \<Rightarrow> astate" where
  "ref_op (Kxnor w d a b) s = set_k d (spec_kxnor w (ak s a) (ak s b)) s"
| "ref_op (Kor d a b) s = set_k d (spec_kor 64 (ak s a) (ak s b)) s"
| "ref_op (Knot d a) s = set_k d (spec_knot 64 (ak s a)) s"
| "ref_op (Kshiftr c d a) s = set_k d (spec_kshiftr 8 (nat c) (ak s a)) s"
| "ref_op (Kmov_kk w d a) s = set_k d (take_bit w (ak s a)) s"
| "ref_op (Kmov_gk w g a) s = set_r g (take_bit w (ak s a)) s"
| "ref_op (Kmov_kg w d g) s = set_k d (take_bit w (agpr s g)) s"
| "ref_op (Mov_imm g v) s = set_r g (word_of_int v) s"
| "ref_op (Add g h) s = (set_r g (agpr s g + agpr s h) s)
     \<lparr>aflg := add_flags 8 (agpr s g) (agpr s h) (agpr s g + agpr s h)\<rparr>"
| "ref_op (Vpaddd d a b) s = spec_zmm OP_vpaddd d a b s"
| "ref_op (Vpsubq d a b) s = spec_zmm OP_vpsubq d a b s"
| "ref_op (Vpsubd d a b) s = spec_zmm OP_vpsubd d a b s"
| "ref_op (Vmovaps d a) s = set_z d (azmm s a) s"

definition chain_for :: "(nat \<Rightarrow> rw_func) \<Rightarrow> nat \<Rightarrow> bop \<Rightarrow> mstate \<Rightarrow> bool" where
  "chain_for vec l p s \<longleftrightarrow> (\<exists>opc f js t. opcode_number (opcode_of (snd (encode_op p))) = Some opc
     \<and> rewrite_funcs vec (TO_AVX512_RWFUNC_INDEX opc) = Some f \<and> f l (snd (encode_op p)) = Rw True js \<and> js \<noteq> []
     \<and> exec js s = Inr t \<and> agree 24 (abs_state t) (ref_op p (abs_state s)))"

lemma chain_forI:
  assumes "rewrite_funcs vec k = Some (\<lambda>_. g)"
    and "\<exists>js t. g (Instr (OP_AVX512 n) ds ss) = Rw True js \<and> exec js s = Inr t \<and> agree m (abs_state t) a"
    and "snd (encode_op p) = Instr (OP_AVX512 n) ds ss" "n = k + 1"
    and "m \<le> 24" "a = ref_op p (abs_state s)" "g (Instr (OP_AVX512 n) ds ss) \<noteq> Rw True []"
  shows "chain_for vec l p s"
proof -
  obtain js t where "g (Instr (OP_AVX512 n) ds ss) = Rw True js" "exec js s = Inr t" "agree m (abs_state t) a"
    using assms(2) by blast
  moreover have "opcode_number (OP_AVX512 n) = Some (AVX512_FIRST_OP + k)" using assms(4) by simp
  ultimately show ?thesis
    using assms agree_mono unfolding chain_for_def TO_AVX512_RWFUNC_INDEX_def by force
qed

lemma table_mask:
  "rewrite_funcs vec 494 = Some (\<lambda>_. rw_func_kxnorw)" "rewrite_funcs vec 495 = Some (\<lambda>_. rw_func_kxnorb)"
  "rewrite_funcs vec 496 = Some (\<lambda>_. rw_func_kxnorq)" "rewrite_funcs vec 492 = Some (\<lambda>_. rw_func_korq)"
  "rewrite_funcs vec 488 = Some (\<lambda>_. rw_func_knotq)" "rewrite_funcs vec 515 = Some (\<lambda>_. rw_func_kshiftrb)"
  "rewrite_funcs vec 472 = Some (\<lambda>_. rw_func_kmovb)" "rewrite_funcs vec 473 = Some (\<lambda>_. rw_func_kmovq)"
  "rewrite_funcs vec 474 = Some (\<lambda>_. rw_func_kmovd)"
  by (simp_all add: rewrite_funcs_def mask_funcs_def)

lemma chain_kxnor:
  assumes "valid_op (Kxnor w d a b)" "stack_room 24 s"
  shows "chain_for vec l (Kxnor w d a b) s"
proof -
  consider "w = 16" | "w = 8" | "w = 64" using assms(1) by auto
  then show ?thesis
  proof cases
    case 1
    show ?thesis by (rule chain_forI [OF table_mask(1) kxnor_run [where f = rw_func_kxnorw and w = 16]])
      (use assms 1 in \<open>simp_all add: rw_func_kxnorw_def\<close>)
  next
    case 2
    show ?thesis by (rule chain_forI [OF table_mask(2) kxnor_run [where f = rw_func_kxnorb and w = 8]])
      (use assms 2 in \<open>simp_all add: rw_func_kxnorb_def\<close>)
  next
    case 3
    show ?thesis by (rule chain_forI [OF table_mask(3) kxnor_run [where f = rw_func_kxnorq and w = 64]])
      (use assms 3 in \<open>simp_all add: rw_func_kxnorq_def\<close>)
  qed
qed

lemma chain_kor: "valid_op (Kor d a b) \<Longrightarrow> stack_room 24 s \<Longrightarrow> chain_for vec l (Kor d a b) s"
  by (rule chain_forI [OF table_mask(4) conjunct1 [OF korq_knotq_run]]) (simp_all add: rw_func_korq_def)

lemma chain_knot: "valid_op (Knot d a) \<Longrightarrow> stack_room 24 s \<Longrightarrow> chain_for vec l (Knot d a) s"
  by (rule chain_forI [OF table_mask(5) conjunct2 [OF korq_knotq_run [where ?k2.0 = 0]]]) (simp_all add: rw_func_knotq_def)

lemma chain_kshiftr:
  assumes "valid_op (Kshiftr c d a)" "stack_room 24 s"
  shows "chain_for vec l (Kshiftr c d a) s"
  by (rule chain_forI [OF table_mask(6) kshiftrb_run])
    (use assms stack_room_mono [OF assms(2), of 16] in \<open>auto simp: rw_func_kshiftrb_def instr_get_src_def Let_def split: opnd.splits\<close>)

lemma chain_kmov_kk:
  assumes "valid_op (Kmov_kk w d a)" "stack_room 24 s"
  shows "chain_for vec l (Kmov_kk w d a) s"
proof (cases "w = 64")
  case True
  show ?thesis by (rule chain_forI [OF table_mask(8) conjunct1 [OF kmov_between_run]])
    (use assms True stack_room_mono [OF assms(2), of 8] in \<open>simp_all add: rw_func_kmovq_def\<close>)
next
  case False
  show ?thesis by (rule chain_forI [OF table_mask(7) conjunct1 [OF conjunct2 [OF conjunct2 [OF kmov_between_run]]]])
    (use assms False stack_room_mono [OF assms(2), of 8] in \<open>auto simp: rw_func_kmovb_def\<close>)
qed

lemma chain_kmov_gk:
  assumes "valid_op (Kmov_gk w g a)" "stack_room 24 s"
  shows "chain_for vec l (Kmov_gk w g a) s"
proof -
  consider "w = 64" | "w = 32" | "w = 8" using assms(1) by auto
  then show ?thesis
  proof cases
    case 1
    show ?thesis by (rule chain_forI [OF table_mask(8) kmov_to_gpr_run [where f = rw_func_kmovq and base = DR_REG_RAX and n = 8]])
      (use assms 1 stack_room_mono [OF assms(2), of 8] in \<open>simp_all add: rw_func_kmovq_def\<close>)
  next
    case 2
    show ?thesis by (rule chain_forI [OF table_mask(9) kmov_to_gpr_run [where f = rw_func_kmovd and base = DR_REG_EAX and n = 4]])
      (use assms 2 stack_room_mono [OF assms(2), of 8] in \<open>simp_all add: rw_func_kmovd_def\<close>)
  next
    case 3
    show ?thesis by (rule chain_forI [OF table_mask(7) kmov_to_gpr_run [where f = rw_func_kmovb and base = DR_REG_EAX and n = 1]])
      (use assms 3 stack_room_mono [OF assms(2), of 8] in \<open>simp_all add: rw_func_kmovb_def\<close>)
  qed
qed

lemma chain_kmov_kg:
  assumes "valid_op (Kmov_kg w d g)" "stack_room 24 s"
  shows "chain_for vec l (Kmov_kg w d g) s"
proof (cases "w = 64")
  case True
  show ?thesis
    by (rule chain_forI [OF table_mask(8) kmovq_from_gpr_run])
      (use assms True in \<open>simp_all add: rw_func_kmovq_def\<close>)
next
  case False
  show ?thesis
    by (rule chain_forI [OF table_mask(7) kmovb_from_gpr_run [where base = DR_REG_EAX]])
      (use assms False stack_room_mono [OF assms(2), of 16] in \<open>auto simp: rw_func_kmovb_def kmovb_reads_def\<close>)
qed

lemma table_vector:
  "rewrite_funcs vec 153 = Some (\<lambda>_. rw_func_vpaddd)" "rewrite_funcs vec 150 = Some (\<lambda>_. rw_func_vpsubq)"
  "rewrite_funcs vec 149 = Some (\<lambda>_. rw_func_vpsubd)" "rewrite_funcs vec 15 = Some (\<lambda>_. rw_func_vmovaps)"
  by (simp_all add: rewrite_funcs_def vector_entries_def vector_funcs_def move_funcs_def)

lemma chain_vpaddd:
  assumes "valid_op (Vpaddd d a b)"
  shows "chain_for vec l (Vpaddd d a b) s"
proof (rule chain_forI [OF table_vector(1), where n = 154 and m = 0 and a = "ref_op (Vpaddd d a b) (abs_state s)"])
  show "\<exists>js t. rw_func_vpaddd (Instr (OP_AVX512 154) [OReg (DR_REG_ZMM0 + d)] [K 0, OReg (DR_REG_ZMM0 + a), OReg (DR_REG_ZMM0 + b)])
      = Rw True js \<and> exec js s = Inr t \<and> agree 0 (abs_state t) (ref_op (Vpaddd d a b) (abs_state s))"
    using zmm_dispatch(1) [of a b d "OP_AVX512 154" DR_REG_K0 s] assms by (auto simp del: exec.simps)
qed (use assms zmm_dispatch_nonempty(1) [of d] in simp_all)

lemma chain_vpsubq:
  assumes "valid_op (Vpsubq d a b)"
  shows "chain_for vec l (Vpsubq d a b) s"
proof (rule chain_forI [OF table_vector(2), where n = 151 and m = 0 and a = "ref_op (Vpsubq d a b) (abs_state s)"])
  show "\<exists>js t. rw_func_vpsubq (Instr (OP_AVX512 151) [OReg (DR_REG_ZMM0 + d)] [K 0, OReg (DR_REG_ZMM0 + a), OReg (DR_REG_ZMM0 + b)])
      = Rw True js \<and> exec js s = Inr t \<and> agree 0 (abs_state t) (ref_op (Vpsubq d a b) (abs_state s))"
    using zmm_dispatch(2) [of a b d "OP_AVX512 151" DR_REG_K0 s] assms by (auto simp del: exec.simps)
qed (use assms zmm_dispatch_nonempty(2) [of d] in simp_all)

lemma chain_vpsubd:
  assumes "valid_op (Vpsubd d a b)"
  shows "chain_for vec l (Vpsubd d a b) s"
proof (rule chain_forI [OF table_vector(3), where n = 150 and m = 0 and a = "ref_op (Vpsubd d a b) (abs_state s)"])
  show "\<exists>js t. rw_func_vpsubd (Instr (OP_AVX512 150) [OReg (DR_REG_ZMM0 + d)] [K 0, OReg (DR_REG_ZMM0 + a), OReg (DR_REG_ZMM0 + b)])
      = Rw True js \<and> exec js s = Inr t \<and> agree 0 (abs_state t) (ref_op (Vpsubd d a b) (abs_state s))"
    using zmm_dispatch_low [of a b d "OP_AVX512 150" DR_REG_K0 s] assms by (auto simp del: exec.simps)
qed (use assms zmm_dispatch_nonempty(3) [of d] in simp_all)

lemma chain_vmovaps:
  assumes "valid_op (Vmovaps d a)"
  shows "chain_for vec l (Vmovaps d a) s"
proof (rule chain_forI [OF table_vector(4), where n = 16 and m = 0 and a = "ref_op (Vmovaps d a) (abs_state s)"])
  show "\<exists>js t. rw_func_vmovaps (Instr (OP_AVX512 16) [OReg (DR_REG_ZMM0 + d)] [K 0, OReg (DR_REG_ZMM0 + a)])
      = Rw True js \<and> exec js s = Inr t \<and> agree 0 (abs_state t) (ref_op (Vmovaps d a) (abs_state s))"
    using vmovaps_regs [of a d "OP_AVX512 16" DR_REG_K0] vmovaps_reg2reg_run [of a d DR_REG_K0 s] assms by (auto simp del: exec.simps)
qed (use assms vmovaps_nonempty [of a d] in simp_all)

lemmas chain_rules = chain_kxnor chain_kor chain_knot chain_kshiftr chain_kmov_kk chain_kmov_gk chain_kmov_kg chain_vpaddd chain_vpsubq chain_vpsubd chain_vmovaps

lemma native_mov_imm:
  assumes "gpart r g 8" "g \<noteq> 4"
  shows "\<exists>t. exec [INSTR_CREATE_mov_imm (OReg r) (OImm v 8)] s = Inr t
     \<and> agree m (abs_state t) (ref_op (Mov_imm g v) (abs_state s))"
  using assms by (simp add: step_mov_imm [OF assms(1)] immed_size_ok_def gpr_write_gpart put_part_def set_r_def agree_def
      abs_state_def abs_zmm_def [abs_def] abs_k_def [abs_def] cong: if_cong)

lemma native_add:
  assumes "gpart r g 8" "gpart q h 8" "g \<noteq> 4"
  shows "\<exists>t. exec [INSTR_CREATE_add (OReg r) (OReg q)] s = Inr t
     \<and> agree m (abs_state t) (ref_op (Add g h) (abs_state s))"
  using assms by (simp add: step_alu_reg [OF assms(1,2)] alu_write_def alu2_def gpr_write_gpart put_part_def gpr_read_gpart
      set_r_def agree_def abs_state_def abs_zmm_def [abs_def] abs_k_def [abs_def] Let_def cong: if_cong)

lemma ref_op_agree: "valid_op p \<Longrightarrow> agree m a b \<Longrightarrow> agree m (ref_op p a) (ref_op p b)"
  by (cases p) (auto simp: agree_def set_k_def set_r_def spec_zmm_def set_z_def)

lemma ref_op_stack: "valid_op p \<Longrightarrow> agpr (ref_op p a) 4 = agpr a 4 \<and> amapped (ref_op p a) = amapped a"
  by (cases p) (auto simp: set_k_def set_r_def spec_zmm_def set_z_def)

interpretation exact_blocks: rewriting valid_op encode_op ref_op "rewrite_funcs vec" 24 for vec
proof
  fix p i and s :: mstate
  assume "valid_op p" "encode_op p = (False, i)" "stack_room 24 s"
  then show "\<exists>t. exec [i] s = Inr t \<and> agree 24 (abs_state t) (ref_op p (abs_state s))"
    using native_mov_imm [OF gpart_full(1)] native_add [OF gpart_full(1) gpart_full(1)]
    by (cases p) (auto simp del: exec.simps ref_op.simps One_nat_def add_Suc)
next
  fix p i l and s :: mstate
  assume p: "valid_op p" "encode_op p = (True, i)" "stack_room 24 s"
  then have "chain_for vec l p s" using chain_rules by (cases p) auto
  then show "\<exists>opc f js t. opcode_number (opcode_of i) = Some opc
      \<and> rewrite_funcs vec (TO_AVX512_RWFUNC_INDEX opc) = Some f \<and> f l i = Rw True js \<and> js \<noteq> []
      \<and> exec js s = Inr t \<and> agree 24 (abs_state t) (ref_op p (abs_state s))"
    using p(2) by (simp add: chain_for_def)
qed (simp_all add: ref_op_agree ref_op_stack)

section \<open>The instructions that are left in place\<close>

text \<open>
  Mask instructions whose rewrite function builds a chain and does not remove the original:
  \<open>kand\<close> and \<open>kandn\<close> of every width, the shifts but \<open>kshiftrb\<close>, and \<open>kxnord\<close> of different
  sources.
\<close>

datatype kop = Kand nat nat nat nat | Kshift nat int nat nat | Kxnord nat nat nat

fun valid_kept :: "kop \<Rightarrow> bool" where
  "valid_kept (Kand n d a b) \<longleftrightarrow> 476 \<le> n \<and> n \<le> 483 \<and> d < 8 \<and> a < 8 \<and> b < 8"
| "valid_kept (Kshift n c d a) \<longleftrightarrow> 511 \<le> n \<and> n \<le> 518 \<and> n \<noteq> 516 \<and> 0 \<le> c \<and> c \<le> 127 \<and> d < 8 \<and> a < 8"
| "valid_kept (Kxnord d a b) \<longleftrightarrow> a \<noteq> b \<and> d < 8 \<and> a < 8 \<and> b < 8"

fun kept_number :: "kop \<Rightarrow> nat" where
  "kept_number (Kand n d a b) = n"
| "kept_number (Kshift n c d a) = n"
| "kept_number (Kxnord d a b) = 498"

fun encode_kept :: "kop \<Rightarrow> instr" where
  "encode_kept (Kand n d a b) = Instr (OP_AVX512 n) [K d] [K a, K b]"
| "encode_kept (Kshift n c d a) = Instr (OP_AVX512 n) [K d] [K a, OImm c 1]"
| "encode_kept (Kxnord d a b) = Instr (OP_AVX512 498) [K d] [K a, K b]"

lemma encode_kept_opcode: "opcode_of (encode_kept p) = OP_AVX512 (kept_number p)"
  by (cases p) simp_all

lemma table_kept:
  "rewrite_funcs vec 475 = Some (\<lambda>_. rw_func_kandw)" "rewrite_funcs vec 476 = Some (\<lambda>_. rw_func_kandb)"
  "rewrite_funcs vec 477 = Some (\<lambda>_. rw_func_kandq)" "rewrite_funcs vec 478 = Some (\<lambda>_. rw_func_kandd)"
  "rewrite_funcs vec 479 = Some (\<lambda>_. rw_func_kandnw)" "rewrite_funcs vec 480 = Some (\<lambda>_. rw_func_kandnb)"
  "rewrite_funcs vec 481 = Some (\<lambda>_. rw_func_kandnq)" "rewrite_funcs vec 482 = Some (\<lambda>_. rw_func_kandnd)"
  "rewrite_funcs vec 510 = Some (\<lambda>_. rw_func_kshiftlw)" "rewrite_funcs vec 511 = Some (\<lambda>_. rw_func_kshiftlb)"
  "rewrite_funcs vec 512 = Some (\<lambda>_. rw_func_kshiftlq)" "rewrite_funcs vec 513 = Some (\<lambda>_. rw_func_kshiftld)"
  "rewrite_funcs vec 514 = Some (\<lambda>_. rw_func_kshiftrw)" "rewrite_funcs vec 516 = Some (\<lambda>_. rw_func_kshiftrq)"
  "rewrite_funcs vec 517 = Some (\<lambda>_. rw_func_kshiftrd)" "rewrite_funcs vec 497 = Some (\<lambda>_. rw_func_kxnord)"
  by (simp_all add: rewrite_funcs_def mask_funcs_def)

definition kept_by :: "(nat \<Rightarrow> rw_func) \<Rightarrow> kop \<Rightarrow> mstate \<Rightarrow> bool" where
  "kept_by vec p u \<longleftrightarrow> (\<exists>g. rewrite_funcs vec (kept_number p - 1) = Some (\<lambda>_. g)
     \<and> g (encode_kept p) \<noteq> Rw False [] \<and> (\<exists>js t. g (encode_kept p) = Rw False js \<and> exec js u = Inr t))"

lemma kept_byI:
  assumes "rewrite_funcs vec (kept_number p - 1) = Some (\<lambda>_. g)" "g (encode_kept p) \<noteq> Rw False []"
    and "\<exists>js t. g (encode_kept p) = Rw False js \<and> exec js u = Inr t"
  shows "kept_by vec p u"
  using assms unfolding kept_by_def by blast

definition and_table :: "(nat \<times> (instr \<Rightarrow> rw_result) \<times> nat) list" where
  "and_table = [(476, rw_func_kandw, 2), (477, rw_func_kandb, 1), (478, rw_func_kandq, 8), (479, rw_func_kandd, 4),
     (480, rw_func_kandnw, 2), (481, rw_func_kandnb, 1), (482, rw_func_kandnq, 8), (483, rw_func_kandnd, 4)]"

definition shift_table :: "(nat \<times> (instr \<Rightarrow> rw_result) \<times> nat) list" where
  "shift_table = [(511, rw_func_kshiftlw, 2), (512, rw_func_kshiftlb, 1), (513, rw_func_kshiftlq, 8),
     (514, rw_func_kshiftld, 4), (515, rw_func_kshiftrw, 2), (517, rw_func_kshiftrq, 8), (518, rw_func_kshiftrd, 4)]"

lemma tables_of:
  "(n, f, m) \<in> set and_table \<union> set shift_table \<Longrightarrow> rewrite_funcs vec (n - 1) = Some (\<lambda>_. f)"
  by (auto simp: and_table_def shift_table_def table_kept)

lemma kept_and:
  assumes "valid_kept (Kand n d a b)" "stack_room 24 u"
  shows "kept_by vec (Kand n d a b) u"
proof -
  have "n \<in> fst ` set and_table" using assms(1) by (auto simp: and_table_def)
  then obtain f m where t: "(n, f, m) \<in> set and_table" by auto
  then have "\<exists>js t. f (encode_kept (Kand n d a b)) = Rw False js \<and> exec js u = Inr t"
    using kand_run [of f m d a b u "OP_AVX512 n"] kandn_run [of f m d a b u "OP_AVX512 n"] assms
    by (auto simp: and_table_def)
  moreover have "f (encode_kept (Kand n d a b)) \<noteq> Rw False []"
    using t by (auto simp: and_table_def rw_func_kandw_def rw_func_kandb_def rw_func_kandq_def rw_func_kandd_def
        rw_func_kandnw_def rw_func_kandnb_def rw_func_kandnq_def rw_func_kandnd_def)
  ultimately show ?thesis using tables_of [of n f m vec] t by (intro kept_byI) simp_all
qed

lemma kept_shift:
  assumes "valid_kept (Kshift n c d a)" "stack_room 24 u"
  shows "kept_by vec (Kshift n c d a) u"
proof -
  have "n \<in> fst ` set shift_table" using assms(1) by (auto simp: shift_table_def)
  then obtain f m where t: "(n, f, m) \<in> set shift_table" by auto
  have "stack_room 16 u" using assms(2) by (rule stack_room_mono) simp
  then have "\<exists>js t. f (encode_kept (Kshift n c d a)) = Rw False js \<and> exec js u = Inr t"
    using kshiftl_run [of f m d a u c "OP_AVX512 n"] kshiftr_run [of f m d a u c "OP_AVX512 n"] assms(1) t
    by (auto simp: shift_table_def)
  moreover have "f (encode_kept (Kshift n c d a)) \<noteq> Rw False []"
    using t by (auto simp: shift_table_def rw_func_kshiftlw_def rw_func_kshiftlb_def rw_func_kshiftlq_def
        rw_func_kshiftld_def rw_func_kshiftrw_def rw_func_kshiftrq_def rw_func_kshiftrd_def
        split: option.splits if_splits)
  ultimately show ?thesis using tables_of [of n f m vec] t by (intro kept_byI) simp_all
qed

lemma kept_xnor:
  assumes "valid_kept (Kxnord d a b)" "stack_room 24 u"
  shows "kept_by vec (Kxnord d a b) u"
  using assms kxnord_run [of d a b u "OP_AVX512 498"]
  by (intro kept_byI [where g = rw_func_kxnord]) (auto simp: table_kept rw_func_kxnord_def)

lemma kept: "valid_kept p \<Longrightarrow> stack_room 24 u \<Longrightarrow> kept_by vec p u"
  using kept_and kept_shift kept_xnor by (cases p) blast+

end
