(* ===== verification/Vmareas.thy ===== *)
theory Vmareas
  imports Avx_Prelude
begin

text \<open>
  The vectors of memory areas (\<open>core/vmareas.c\<close>, \<open>core/vmareas.h\<close>) in which the runtime around the
  rewriter keeps all its knowledge about the address space: a sorted array of disjoint half-open
  intervals of addresses with flags and a client's payload. Modelled are \<open>add_vm_area\<close>,
  \<open>remove_vm_area\<close>, \<open>binary_search\<close> and the interface \<open>vmvector_*\<close> on top of them, with the iterator, and
  the routines on DynamoRIO's own areas that rely on the layout of the array.

  Addresses are 64-bit words, compared without sign. A vector carries the callbacks for payloads,
  a record of the payloads given to \<open>free_payload_func\<close> and of the ranges of pages made
  writable. The model is the release build, in which assertions, logging and statistics
  are empty. Locking is left out: an operation is one step. Left out are also the two special
  vectors the code treats apart: lists of fragments (\<open>VECTOR_FRAGMENT_LIST\<close>) and
  \<open>executable_areas\<close> with its coarse-grain units.
\<close>

section \<open>Areas and vectors\<close>

type_synonym app_pc = "64 word"
type_synonym uint = "32 word"

record 'p vm_area =
  va_start :: app_pc
  va_end :: app_pc
  vm_flags :: uint
  frag_flags :: uint
  client :: 'p

record 'p vm_area_vector =
  buf :: "'p vm_area list"
  vsize :: nat
  vflags :: uint
  free_payload_func :: bool
  split_payload_func :: "('p \<Rightarrow> 'p) option"
  should_merge_func :: "(bool \<Rightarrow> 'p \<Rightarrow> 'p \<Rightarrow> bool) option"
  merge_payload_func :: "('p \<Rightarrow> 'p \<Rightarrow> 'p) option"
  freed :: "'p list"
  made_writable :: "(app_pc \<times> app_pc) list"

text \<open>The options the code reads.\<close>

record vm_options =
  vmarea_initial_size :: nat
  vmarea_increment_size :: nat
  hw_cache_consistency :: bool

definition TEST :: "uint \<Rightarrow> uint \<Rightarrow> bool" where
  "TEST m x \<longleftrightarrow> m AND x \<noteq> 0"

abbreviation "VM_WRITABLE \<equiv> 0x0001 :: uint"
abbreviation "VM_UNMOD_IMAGE \<equiv> 0x0002 :: uint"
abbreviation "VM_WAS_FUTURE \<equiv> 0x0008 :: uint"
abbreviation "VM_DR_HEAP \<equiv> 0x0010 :: uint"
abbreviation "VM_ONCE_ONLY \<equiv> 0x0020 :: uint"
abbreviation "VM_MADE_READONLY \<equiv> VM_WRITABLE"
abbreviation "VM_ADD_TO_SHARED_DATA \<equiv> 0x1000 :: uint"
abbreviation "FRAG_COARSE_GRAIN \<equiv> 0x10000000 :: uint"
abbreviation "VECTOR_NEVER_MERGE_ADJACENT \<equiv> 0x0004 :: uint"

definition DR_MADE_READONLY :: "vm_options \<Rightarrow> uint \<Rightarrow> bool" where
  "DR_MADE_READONLY opts fl \<longleftrightarrow> hw_cache_consistency opts \<and> TEST VM_MADE_READONLY fl"

section \<open>Adding an area\<close>

definition vm_area_vector_check_size :: "vm_options \<Rightarrow> 'p vm_area_vector \<Rightarrow> 'p vm_area_vector" where
  "vm_area_vector_check_size opts v =
     (if vsize v = length (buf v)
      then if length (buf v) = 0 then v\<lparr>vsize := vmarea_initial_size opts\<rparr>
           else v\<lparr>vsize := vmarea_increment_size opts + length (buf v)\<rparr>
      else v)"

text \<open>An existing area that overlaps the new one, or is adjacent and of the same type.\<close>

definition touches :: "'p vm_area_vector \<Rightarrow> app_pc \<Rightarrow> app_pc \<Rightarrow> uint \<Rightarrow> uint \<Rightarrow> 'p \<Rightarrow> 'p vm_area \<Rightarrow> bool" where
  "touches v start stop vmf ff data b \<longleftrightarrow>
     (start < va_end b \<and> stop > va_start b) \<or>
     (start \<le> va_end b \<and> stop \<ge> va_start b \<and> vmf = vm_flags b \<and> ff = frag_flags b
      \<and> \<not> TEST FRAG_COARSE_GRAIN (frag_flags b) \<and> \<not> TEST VECTOR_NEVER_MERGE_ADJACENT (vflags v)
      \<and> (case should_merge_func v of None \<Rightarrow> True | Some f \<Rightarrow> f True data (client b)))"

definition drop_flag :: "uint \<Rightarrow> uint \<Rightarrow> 'p vm_area \<Rightarrow> 'p vm_area" where
  "drop_flag fl vmf b = (if TEST fl (vm_flags b) \<and> \<not> TEST fl vmf then b\<lparr>vm_flags := vm_flags b AND NOT fl\<rparr> else b)"

definition drop_flags :: "uint \<Rightarrow> 'p vm_area \<Rightarrow> 'p vm_area" where
  "drop_flags vmf b = drop_flag VM_ONCE_ONLY vmf (drop_flag VM_WAS_FUTURE vmf b)"

text \<open>A touching area that must not be merged: the new area gives way to it.\<close>

definition conflicts :: "'p vm_area_vector \<Rightarrow> uint \<Rightarrow> uint \<Rightarrow> 'p \<Rightarrow> 'p vm_area \<Rightarrow> bool" where
  "conflicts v vmf ff data b \<longleftrightarrow>
     (vmf \<noteq> vm_flags b \<or> ff \<noteq> frag_flags b)
     \<and> (case should_merge_func v of None \<Rightarrow> True | Some f \<Rightarrow> \<not> f False data (client b))"

text \<open>A brand-new area before index \<open>i\<close>.\<close>

definition insert_area :: "vm_options \<Rightarrow> 'p vm_area_vector \<Rightarrow> nat \<Rightarrow> 'p vm_area \<Rightarrow> 'p vm_area_vector" where
  "insert_area opts v i a =
     (let v1 = vm_area_vector_check_size opts v in v1\<lparr>buf := take i (buf v1) @ a # drop i (buf v1)\<rparr>)"

text \<open>The payload of an area that is merged into the one at index \<open>k\<close>.\<close>

definition absorb :: "nat \<Rightarrow> 'p vm_area \<Rightarrow> 'p vm_area_vector \<Rightarrow> 'p vm_area_vector" where
  "absorb k a v =
     (case merge_payload_func v of
        Some m \<Rightarrow> v\<lparr>buf := (buf v)[k := (buf v ! k)\<lparr>client := m (client (buf v ! k)) (client a)\<rparr>]\<rparr>
      | None \<Rightarrow> if free_payload_func v then v\<lparr>freed := freed v @ [client a]\<rparr> else v)"

text \<open>The area at index \<open>k\<close> takes the bounds of all areas up to and without \<open>n\<close> and of the new area.\<close>

definition widen :: "'p vm_area_vector \<Rightarrow> nat \<Rightarrow> nat \<Rightarrow> app_pc \<Rightarrow> app_pc \<Rightarrow> 'p \<Rightarrow> 'p vm_area_vector" where
  "widen v k n start stop data =
     (let b = buf v ! k; e = va_end (buf v ! (n - 1));
          b1 = b\<lparr>va_start := (if start < va_start b then start else va_start b), va_end := (if stop > e then stop else e)\<rparr>
      in case merge_payload_func v of
           Some m \<Rightarrow> v\<lparr>buf := (buf v)[k := b1\<lparr>client := m data (client b1)\<rparr>]\<rparr>
         | None \<Rightarrow> (if free_payload_func v then v\<lparr>freed := freed v @ [client b1]\<rparr> else v)\<lparr>buf := (buf v)[k := b1]\<rparr>)"

text \<open>The areas from \<open>k\<close> up to and without \<open>n\<close> become one, which also covers the new area.\<close>

definition merge_areas :: "'p vm_area_vector \<Rightarrow> nat \<Rightarrow> nat \<Rightarrow> app_pc \<Rightarrow> app_pc \<Rightarrow> 'p \<Rightarrow> 'p vm_area_vector" where
  "merge_areas v k n start stop data =
     (let w = fold (\<lambda>j w. absorb k (buf w ! j) w) [k + 1..<n] (widen v k n start stop data)
      in w\<lparr>buf := take (k + 1) (buf w) @ drop n (buf w)\<rparr>)"

definition finish_add :: "vm_options \<Rightarrow> 'p vm_area_vector \<Rightarrow> nat \<Rightarrow> app_pc \<Rightarrow> app_pc \<Rightarrow> uint \<Rightarrow> uint \<Rightarrow> 'p
    \<Rightarrow> nat option \<Rightarrow> nat \<Rightarrow> 'p vm_area_vector" where
  "finish_add opts v i start stop vmf ff data overlap_start overlap_end =
     (case overlap_start of
        None \<Rightarrow> insert_area opts v i \<lparr>va_start = start, va_end = stop, vm_flags = vmf, frag_flags = ff, client = data\<rparr>
      | Some k \<Rightarrow> merge_areas v k overlap_end start stop data)"

lemma drop_flags_simps [simp]:
  "va_start (drop_flags vmf b) = va_start b" "va_end (drop_flags vmf b) = va_end b" "client (drop_flags vmf b) = client b"
  "frag_flags (drop_flags vmf b) = frag_flags b"
  by (simp_all add: drop_flags_def drop_flag_def)

text \<open>Adjacent areas of the same type do not conflict.\<close>

lemma conflicts_overlap:
  assumes "touches v start stop vmf ff data b" "conflicts v vmf ff data (drop_flags vmf b)"
  shows "start < va_end b" "va_start b < stop"
proof -
  have "drop_flags vmf b = b" if "vmf = vm_flags b" using that by (simp add: drop_flags_def drop_flag_def)
  then show "start < va_end b" "va_start b < stop" using assms by (auto simp: touches_def conflicts_def)
qed

text \<open>The loop of \<open>add_vm_area\<close> at index \<open>i\<close>, with the call of itself for the part behind a conflicting area.\<close>

function add_scan :: "vm_options \<Rightarrow> 'p vm_area_vector \<Rightarrow> nat \<Rightarrow> app_pc \<Rightarrow> app_pc \<Rightarrow> uint \<Rightarrow> uint \<Rightarrow> 'p
    \<Rightarrow> nat option \<Rightarrow> 'p vm_area_vector" where
  "add_scan opts v i start stop vmf ff data overlap_start =
     (if length (buf v) \<le> i then finish_add opts v i start stop vmf ff data overlap_start (length (buf v))
      else let b = buf v ! i in
        if touches v start stop vmf ff data b
        then let os = (if overlap_start = None then Some i else overlap_start);
                 b1 = drop_flags vmf b;
                 v1 = v\<lparr>buf := (buf v)[i := b1]\<rparr> in
             if conflicts v vmf ff data b1
             then if start < va_start b1
                  then let v2 = (if stop > va_end b1
                                 then add_scan opts v1 0 (va_end b1) stop vmf ff
                                   (case split_payload_func v of None \<Rightarrow> data | Some f \<Rightarrow> f data) None
                                 else v1)
                       in finish_add opts v2 i start (va_start (buf v2 ! i)) vmf ff data (if os = Some i then None else os) i
                  else if stop > va_end b1
                  then add_scan opts v1 (i + 1) (va_end b1) stop vmf ff data None
                  else add_scan opts v1 (i + 1) start stop vmf ff data os
             else add_scan opts v1 (i + 1) start stop vmf ff data os
        else if overlap_start \<noteq> None then finish_add opts v i start stop vmf ff data overlap_start i
        else if stop \<le> va_start b then finish_add opts v i start stop vmf ff data None i
        else add_scan opts v (i + 1) start stop vmf ff data None)"
  by pat_completeness auto
termination
  by (relation "measures [\<lambda>(opts, v, i, start, stop, _). unat stop - unat start, \<lambda>(opts, v, i, _). length (buf v) - i]")
    (auto dest: conflicts_overlap simp: word_less_nat_alt)

declare add_scan.simps [simp del]

definition add_vm_area :: "vm_options \<Rightarrow> 'p vm_area_vector \<Rightarrow> app_pc \<Rightarrow> app_pc \<Rightarrow> uint \<Rightarrow> uint \<Rightarrow> 'p \<Rightarrow> 'p vm_area_vector" where
  "add_vm_area opts v start stop vmf ff data = add_scan opts v 0 start stop vmf ff data None"

section \<open>Removing a range\<close>

text \<open>The first loop of \<open>remove_vm_area\<close>: the indices of the areas that overlap the range.\<close>

function find_overlap :: "'p vm_area list \<Rightarrow> nat \<Rightarrow> app_pc \<Rightarrow> app_pc \<Rightarrow> nat option \<Rightarrow> (nat \<times> nat) option" where
  "find_overlap bs i start stop overlap_start =
     (if length bs \<le> i then map_option (\<lambda>k. (k, length bs)) overlap_start
      else if start < va_end (bs ! i) \<and> stop > va_start (bs ! i)
      then find_overlap bs (i + 1) start stop (if overlap_start = None then Some i else overlap_start)
      else if overlap_start \<noteq> None then map_option (\<lambda>k. (k, i)) overlap_start
      else if stop \<le> va_start (bs ! i) then None
      else find_overlap bs (i + 1) start stop None)"
  by pat_completeness auto
termination by (relation "measure (\<lambda>(bs, i, _). length bs - i)") auto

declare find_overlap.simps [simp del]

abbreviation "PAGE_SIZE \<equiv> 0x1000 :: app_pc"

definition ALIGN_FORWARD :: "app_pc \<Rightarrow> app_pc \<Rightarrow> app_pc" where
  "ALIGN_FORWARD x alignment = (x + (alignment - 1)) AND NOT (alignment - 1)"

definition ALIGN_BACKWARD :: "app_pc \<Rightarrow> app_pc \<Rightarrow> app_pc" where
  "ALIGN_BACKWARD x alignment = x AND NOT (alignment - 1)"

definition vm_make_writable :: "app_pc \<Rightarrow> app_pc \<Rightarrow> 'p vm_area_vector \<Rightarrow> 'p vm_area_vector" where
  "vm_make_writable pc sz v =
     (let start_pc = ALIGN_BACKWARD pc PAGE_SIZE; final_size = ALIGN_FORWARD (sz + (pc - start_pc)) PAGE_SIZE
      in v\<lparr>made_writable := made_writable v @ [(start_pc, final_size)]\<rparr>)"

text \<open>The range of an area is made writable again where the caller asks for it.\<close>

definition restore_range :: "vm_options \<Rightarrow> bool \<Rightarrow> 'p vm_area \<Rightarrow> app_pc \<Rightarrow> app_pc \<Rightarrow> 'p vm_area_vector \<Rightarrow> 'p vm_area_vector" where
  "restore_range opts restore_prot a pc sz v =
     (if restore_prot \<and> DR_MADE_READONLY opts (vm_flags a) then vm_make_writable pc sz v else v)"

definition delete_area :: "vm_options \<Rightarrow> bool \<Rightarrow> 'p vm_area \<Rightarrow> 'p vm_area_vector \<Rightarrow> 'p vm_area_vector" where
  "delete_area opts restore_prot a v =
     (let v1 = restore_range opts restore_prot a (va_start a) (va_end a - va_start a) v
      in if free_payload_func v1 then v1\<lparr>freed := freed v1 @ [client a]\<rparr> else v1)"

text \<open>
  The two ends of the removed range cut areas, the areas from \<open>k\<close> up to and without \<open>n\<close> go, and what
  is left behind the range of an area that contains it is added again.
\<close>

definition cut_front :: "vm_options \<Rightarrow> bool \<Rightarrow> app_pc \<Rightarrow> app_pc \<Rightarrow> nat \<Rightarrow> 'p vm_area_vector \<Rightarrow> nat \<times> 'p vm_area_vector" where
  "cut_front opts restore_prot start stop k v =
     (let a = buf v ! k in
      if start > va_start a
      then let v1 = restore_range opts restore_prot a start (stop - start) v
           in (k + 1, v1\<lparr>buf := (buf v1)[k := a\<lparr>va_end := start\<rparr>]\<rparr>)
      else (k, v))"

definition cut_back :: "vm_options \<Rightarrow> bool \<Rightarrow> app_pc \<Rightarrow> nat \<Rightarrow> 'p vm_area_vector \<Rightarrow> nat \<times> 'p vm_area_vector" where
  "cut_back opts restore_prot stop n v =
     (let a = buf v ! (n - 1) in
      if stop < va_end a
      then let v1 = restore_range opts restore_prot a (va_start a) (stop - va_start a) v
           in (n - 1, v1\<lparr>buf := (buf v1)[n - 1 := a\<lparr>va_start := stop\<rparr>]\<rparr>)
      else (n, v))"

definition delete_areas :: "vm_options \<Rightarrow> bool \<Rightarrow> nat \<Rightarrow> nat \<Rightarrow> 'p vm_area_vector \<Rightarrow> 'p vm_area_vector" where
  "delete_areas opts restore_prot k n v =
     (if k < n
      then let v1 = fold (\<lambda>j. delete_area opts restore_prot (buf v ! j)) [k..<n] v
           in v1\<lparr>buf := take k (buf v1) @ drop n (buf v1)\<rparr>
      else v)"

definition remove_vm_area :: "vm_options \<Rightarrow> 'p vm_area_vector \<Rightarrow> app_pc \<Rightarrow> app_pc \<Rightarrow> bool \<Rightarrow> bool \<times> 'p vm_area_vector" where
  "remove_vm_area opts v start stop restore_prot =
     (case find_overlap (buf v) 0 start stop None of
        None \<Rightarrow> (False, v)
      | Some (k, n) \<Rightarrow>
          let old = buf v ! k;
              add_new_area = (start > va_start old \<and> k = n - 1 \<and> stop < va_end old);
              (k1, v1) = cut_front opts restore_prot start stop k v;
              (n1, v2) = cut_back opts restore_prot stop n v1;
              v3 = delete_areas opts restore_prot k1 n1 v2
          in (True,
              if add_new_area
              then add_vm_area opts v3 stop (va_end old) (vm_flags old AND NOT VM_ADD_TO_SHARED_DATA)
                (frag_flags old AND NOT FRAG_COARSE_GRAIN)
                (case split_payload_func v of None \<Rightarrow> client old | Some f \<Rightarrow> f (client old))
              else v3))"

section \<open>Searching\<close>

datatype search = Found nat | Missing int

text \<open>The first of the matching areas, given one of them.\<close>

fun first_match :: "'p vm_area list \<Rightarrow> app_pc \<Rightarrow> nat \<Rightarrow> nat" where
  "first_match bs start 0 = 0"
| "first_match bs start (Suc i) = (if va_end (bs ! i) > start then first_match bs start i else Suc i)"

function search_loop :: "'p vm_area list \<Rightarrow> app_pc \<Rightarrow> app_pc \<Rightarrow> bool \<Rightarrow> int \<Rightarrow> int \<Rightarrow> search" where
  "search_loop bs start stop first mn mx =
     (if mx < mn then Missing mx
      else let i = (mn + mx) div 2 in
        if stop \<noteq> 0 \<and> stop \<le> va_start (bs ! nat i) then search_loop bs start stop first mn (i - 1)
        else if start \<ge> va_end (bs ! nat i) \<or> start = stop then search_loop bs start stop first (i + 1) mx
        else Found (if first then first_match bs start (nat i) else nat i))"
  by pat_completeness auto
termination by (relation "measure (\<lambda>(bs, start, stop, first, mn, mx). nat (mx + 1 - mn))") auto

declare search_loop.simps [simp del]

definition binary_search :: "'p vm_area_vector \<Rightarrow> app_pc \<Rightarrow> app_pc \<Rightarrow> bool \<Rightarrow> search" where
  "binary_search v start stop first = search_loop (buf v) start stop first 0 (int (length (buf v)) - 1)"

definition lookup_addr :: "'p vm_area_vector \<Rightarrow> app_pc \<Rightarrow> 'p vm_area option" where
  "lookup_addr v addr = (case binary_search v addr (addr + 1) False of Found i \<Rightarrow> Some (buf v ! i) | Missing _ \<Rightarrow> None)"

definition vm_area_overlap :: "'p vm_area_vector \<Rightarrow> app_pc \<Rightarrow> app_pc \<Rightarrow> bool" where
  "vm_area_overlap v start stop = (case binary_search v start stop False of Found _ \<Rightarrow> True | Missing _ \<Rightarrow> False)"

section \<open>The interface\<close>

definition vmvector_init_vector :: "uint \<Rightarrow> 'p vm_area_vector" where
  "vmvector_init_vector fl = \<lparr>buf = [], vsize = 0, vflags = fl, free_payload_func = False, split_payload_func = None,
     should_merge_func = None, merge_payload_func = None, freed = [], made_writable = []\<rparr>"

definition vmvector_set_callbacks :: "'p vm_area_vector \<Rightarrow> bool \<Rightarrow> ('p \<Rightarrow> 'p) option \<Rightarrow> (bool \<Rightarrow> 'p \<Rightarrow> 'p \<Rightarrow> bool) option
    \<Rightarrow> ('p \<Rightarrow> 'p \<Rightarrow> 'p) option \<Rightarrow> 'p vm_area_vector" where
  "vmvector_set_callbacks v free_func split_func should_merge merge_func =
     v\<lparr>free_payload_func := free_func, split_payload_func := split_func, should_merge_func := should_merge,
       merge_payload_func := merge_func\<rparr>"

definition vmvector_empty :: "'p vm_area_vector \<Rightarrow> bool" where
  "vmvector_empty v \<longleftrightarrow> length (buf v) = 0"

definition vmvector_add :: "vm_options \<Rightarrow> 'p vm_area_vector \<Rightarrow> app_pc \<Rightarrow> app_pc \<Rightarrow> 'p \<Rightarrow> 'p vm_area_vector" where
  "vmvector_add opts v start stop data = add_vm_area opts v start stop 0 0 data"

text \<open>Writing the payload of the area at an index.\<close>

definition set_client :: "nat \<Rightarrow> 'p \<Rightarrow> 'p vm_area_vector \<Rightarrow> 'p vm_area_vector" where
  "set_client i data v = v\<lparr>buf := (buf v)[i := (buf v ! i)\<lparr>client := data\<rparr>]\<rparr>"

definition vmvector_add_replace :: "vm_options \<Rightarrow> 'p vm_area_vector \<Rightarrow> app_pc \<Rightarrow> app_pc \<Rightarrow> 'p \<Rightarrow> 'p option \<times> 'p vm_area_vector" where
  "vmvector_add_replace opts v start stop data =
     (case binary_search v start (start + 1) False of
        Found i \<Rightarrow> (if start = va_start (buf v ! i) \<and> stop = va_end (buf v ! i)
                     then (Some (client (buf v ! i)), set_client i data v)
                     else (None, add_vm_area opts v start stop 0 0 data))
      | Missing _ \<Rightarrow> (None, add_vm_area opts v start stop 0 0 data))"

definition vmvector_remove :: "vm_options \<Rightarrow> 'p vm_area_vector \<Rightarrow> app_pc \<Rightarrow> app_pc \<Rightarrow> bool \<times> 'p vm_area_vector" where
  "vmvector_remove opts v start stop = remove_vm_area opts v start stop False"

definition vmvector_remove_containing_area :: "vm_options \<Rightarrow> 'p vm_area_vector \<Rightarrow> app_pc \<Rightarrow> (app_pc \<times> app_pc) option \<times> 'p vm_area_vector" where
  "vmvector_remove_containing_area opts v pc =
     (case lookup_addr v pc of
        Some a \<Rightarrow> (Some (va_start a, va_end a), snd (remove_vm_area opts v (va_start a) (va_end a) False))
      | None \<Rightarrow> (None, v))"

definition vmvector_overlap :: "'p vm_area_vector \<Rightarrow> app_pc \<Rightarrow> app_pc \<Rightarrow> bool" where
  "vmvector_overlap v start stop = (if vmvector_empty v then False else vm_area_overlap v start stop)"

definition vmvector_lookup_data :: "'p vm_area_vector \<Rightarrow> app_pc \<Rightarrow> (app_pc \<times> app_pc \<times> 'p) option" where
  "vmvector_lookup_data v pc = map_option (\<lambda>a. (va_start a, va_end a, client a)) (lookup_addr v pc)"

definition vmvector_lookup :: "'p vm_area_vector \<Rightarrow> app_pc \<Rightarrow> 'p option" where
  "vmvector_lookup v pc = map_option (\<lambda>(_, _, data). data) (vmvector_lookup_data v pc)"

definition vmvector_lookup_prev_next :: "'p vm_area_vector \<Rightarrow> app_pc \<Rightarrow> ((app_pc \<times> app_pc) \<times> (app_pc \<times> app_pc)) option" where
  "vmvector_lookup_prev_next v pc =
     (case binary_search v pc (pc + 1) False of
        Found _ \<Rightarrow> None
      | Missing k \<Rightarrow> Some
          (if k = - 1 then (0, 0) else (va_start (buf v ! nat k), va_end (buf v ! nat k)),
           if k \<ge> int (length (buf v)) - 1 then (- 1, - 1)
           else (va_start (buf v ! nat (k + 1)), va_end (buf v ! nat (k + 1)))))"

definition vmvector_modify_data :: "'p vm_area_vector \<Rightarrow> app_pc \<Rightarrow> app_pc \<Rightarrow> 'p \<Rightarrow> bool \<times> 'p vm_area_vector" where
  "vmvector_modify_data v start stop data =
     (case binary_search v start (start + 1) False of
        Found i \<Rightarrow> (True, if start = va_start (buf v ! i) \<and> stop = va_end (buf v ! i) then set_client i data v else v)
      | Missing _ \<Rightarrow> (False, v))"

definition vmvector_reset_vector :: "'p vm_area_vector \<Rightarrow> 'p vm_area_vector" where
  "vmvector_reset_vector v =
     v\<lparr>freed := (if free_payload_func v then freed v @ map client (buf v) else freed v), vsize := 0, buf := []\<rparr>"

text \<open>The iterator.\<close>

record 'p vmvector_iterator =
  vector :: "'p vm_area_vector"
  iindex :: int

definition vmvector_iterator_start :: "'p vm_area_vector \<Rightarrow> 'p vmvector_iterator" where
  "vmvector_iterator_start v = \<lparr>vector = v, iindex = - 1\<rparr>"

definition vmvector_iterator_hasnext :: "'p vmvector_iterator \<Rightarrow> bool" where
  "vmvector_iterator_hasnext vmvi \<longleftrightarrow> iindex vmvi + 1 < int (length (buf (vector vmvi)))"

definition vmvector_iterator_startover :: "'p vmvector_iterator \<Rightarrow> 'p vmvector_iterator" where
  "vmvector_iterator_startover vmvi = vmvi\<lparr>iindex := - 1\<rparr>"

definition vmvector_iterator_peek :: "'p vmvector_iterator \<Rightarrow> app_pc \<times> app_pc \<times> 'p" where
  "vmvector_iterator_peek vmvi =
     (let a = buf (vector vmvi) ! nat (iindex vmvi + 1) in (va_start a, va_end a, client a))"

definition vmvector_iterator_next :: "'p vmvector_iterator \<Rightarrow> (app_pc \<times> app_pc \<times> 'p) \<times> 'p vmvector_iterator" where
  "vmvector_iterator_next vmvi = (vmvector_iterator_peek vmvi, vmvi\<lparr>iindex := iindex vmvi + 1\<rparr>)"

section \<open>DynamoRIO's own areas\<close>

definition add_dynamo_heap_vm_area :: "vm_options \<Rightarrow> 'p vm_area_vector \<Rightarrow> app_pc \<Rightarrow> app_pc \<Rightarrow> bool \<Rightarrow> bool \<Rightarrow> 'p \<Rightarrow> 'p vm_area_vector" where
  "add_dynamo_heap_vm_area opts v start stop writable unmod_image null =
     add_vm_area opts v start stop
       (VM_DR_HEAP OR (if writable then VM_WRITABLE else 0) OR (if unmod_image then VM_UNMOD_IMAGE else 0)) 0 null"

text \<open>
  The loop of \<open>remove_dynamo_heap_areas\<close>, from index \<open>i - 1\<close> down to 0. The call of
  \<open>remove_from_all_memory_areas\<close> is empty where the kernel can be asked for the memory map, as on Linux.
\<close>

fun remove_heap_loop :: "vm_options \<Rightarrow> nat \<Rightarrow> 'p vm_area_vector \<Rightarrow> 'p vm_area_vector" where
  "remove_heap_loop opts 0 v = v"
| "remove_heap_loop opts (Suc i) v =
     (if TEST VM_DR_HEAP (vm_flags (buf v ! i))
      then remove_heap_loop opts i (snd (remove_vm_area opts v (va_start (buf v ! i)) (va_end (buf v ! i)) False))
      else remove_heap_loop opts i v)"

definition remove_dynamo_heap_areas :: "vm_options \<Rightarrow> 'p vm_area_vector \<Rightarrow> 'p vm_area_vector" where
  "remove_dynamo_heap_areas opts v = remove_heap_loop opts (length (buf v)) v"

section \<open>Well-formed vectors and the set they denote\<close>

lemma interval_around:
  fixes a :: "'a::linorder"
  assumes "{s..<e} \<subseteq> P" "a < s" "s < e"
  shows "P \<union> {e..<b} \<union> {a..<s} = P \<union> {a..<b} \<union> {a..<s}"
proof -
  have "{a..<b} \<subseteq> {a..<s} \<union> {s..<e} \<union> {e..<b}" by auto
  moreover have "{e..<b} \<subseteq> {a..<b}" using assms(2,3) by (intro ivl_subset [THEN iffD2]) auto
  ultimately show ?thesis using assms(1) by blast
qed

lemma interval_behind:
  fixes a :: "'a::linorder"
  assumes "{s..<e} \<subseteq> P" "s \<le> a"
  shows "{a..<b} \<subseteq> P \<union> {e..<b}"
proof -
  have "{a..<b} \<subseteq> {a..<e} \<union> {e..<b}" by auto
  moreover have "{a..<e} \<subseteq> {s..<e}" using assms(2) by (intro ivl_subset [THEN iffD2]) auto
  ultimately show ?thesis using assms(1) by blast
qed

definition area_order :: "'p vm_area \<Rightarrow> 'p vm_area \<Rightarrow> bool" where
  "area_order a b \<longleftrightarrow> va_end a \<le> va_start b"

definition area_pcs :: "'p vm_area \<Rightarrow> app_pc set" where
  "area_pcs a = {va_start a..<va_end a}"

text \<open>Sorted, disjoint and without empty areas.\<close>

definition sorted_areas :: "'p vm_area list \<Rightarrow> bool" where
  "sorted_areas bs \<longleftrightarrow> sorted_wrt area_order bs \<and> list_all (\<lambda>a. va_start a < va_end a) bs"

definition pcs :: "'p vm_area list \<Rightarrow> app_pc set" where
  "pcs bs = (\<Union>a \<in> set bs. area_pcs a)"

lemma pcs_simps [simp]: "pcs [] = {}" "pcs (a # bs) = area_pcs a \<union> pcs bs" "pcs (as @ bs) = pcs as \<union> pcs bs"
  by (auto simp: pcs_def)

lemma sorted_areas_append:
  "sorted_areas (as @ bs) \<longleftrightarrow> sorted_areas as \<and> sorted_areas bs \<and> (\<forall>a \<in> set as. \<forall>b \<in> set bs. va_end a \<le> va_start b)"
  by (auto simp: sorted_areas_def sorted_wrt_append area_order_def)

lemma sorted_areas_Cons:
  "sorted_areas (a # bs) \<longleftrightarrow> va_start a < va_end a \<and> sorted_areas bs \<and> (\<forall>b \<in> set bs. va_end a \<le> va_start b)"
  by (auto simp: sorted_areas_def area_order_def)

lemma sorted_areas_Nil [simp]: "sorted_areas []" by (simp add: sorted_areas_def)

text \<open>Splitting a list at an index, the form in which the loops see it.\<close>

lemma split_at: "i < length bs \<Longrightarrow> bs = take i bs @ bs ! i # drop (Suc i) bs"
  by (rule id_take_nth_drop)

lemma sorted_areas_nth:
  assumes "sorted_areas bs" "i < j" "j < length bs"
  shows "va_end (bs ! i) \<le> va_start (bs ! j)"
  using assms by (auto simp: sorted_areas_def area_order_def sorted_wrt_iff_nth_less)

lemma sorted_areas_nonempty: "sorted_areas bs \<Longrightarrow> i < length bs \<Longrightarrow> va_start (bs ! i) < va_end (bs ! i)"
  by (simp add: sorted_areas_def list_all_length)

lemma sorted_areas_mono:
  assumes "sorted_areas bs" "i \<le> j" "j < length bs"
  shows "va_start (bs ! i) \<le> va_start (bs ! j)" "va_end (bs ! i) \<le> va_end (bs ! j)"
proof -
  have "i = j \<or> va_end (bs ! i) \<le> va_start (bs ! j)" using assms sorted_areas_nth [of bs i j] by (cases "i = j") auto
  moreover have "va_start (bs ! i) < va_end (bs ! i)" "va_start (bs ! j) < va_end (bs ! j)"
    using assms sorted_areas_nonempty [of bs i] sorted_areas_nonempty [of bs j] by simp_all
  ultimately show "va_start (bs ! i) \<le> va_start (bs ! j)" "va_end (bs ! i) \<le> va_end (bs ! j)" by auto
qed

lemma sorted_areas_update:
  assumes "sorted_areas bs" "i < length bs" "va_start a = va_start (bs ! i)" "va_end a = va_end (bs ! i)"
  shows "sorted_areas (bs[i := a])"
  using assms by (auto simp: sorted_areas_def area_order_def sorted_wrt_iff_nth_less list_all_length nth_list_update)

lemma area_in_pcs: "i < length bs \<Longrightarrow> area_pcs (bs ! i) \<subseteq> pcs bs"
  unfolding pcs_def by (intro UN_upper nth_mem)

lemma pcs_update:
  assumes "i < length bs" "va_start a = va_start (bs ! i)" "va_end a = va_end (bs ! i)"
  shows "pcs (bs[i := a]) = pcs bs"
proof -
  have "area_pcs (bs[i := a] ! j) = area_pcs (bs ! j)" if "j < length bs" for j
    using that assms by (auto simp: area_pcs_def nth_list_update)
  then show ?thesis by (force simp: pcs_def set_conv_nth)
qed

section \<open>Adding keeps the vector well-formed and covers the range\<close>

text \<open>The vector's other fields.\<close>

definition fits :: "'p vm_area_vector \<Rightarrow> bool" where
  "fits v \<longleftrightarrow> length (buf v) \<le> vsize v"

definition sizes_ok :: "vm_options \<Rightarrow> bool" where
  "sizes_ok opts \<longleftrightarrow> 0 < vmarea_initial_size opts \<and> 0 < vmarea_increment_size opts"

definition well_formed :: "'p vm_area_vector \<Rightarrow> bool" where
  "well_formed v \<longleftrightarrow> sorted_areas (buf v) \<and> fits v"

text \<open>The result of adding \<open>start..stop\<close>, of which the first \<open>m\<close> areas are as before.\<close>

definition added :: "vm_options \<Rightarrow> nat \<Rightarrow> app_pc \<Rightarrow> app_pc \<Rightarrow> 'p vm_area_vector \<Rightarrow> 'p vm_area_vector \<Rightarrow> bool" where
  "added opts m start stop v w \<longleftrightarrow> sorted_areas (buf w) \<and> pcs (buf w) = pcs (buf v) \<union> {start..<stop}
     \<and> take m (buf w) = take m (buf v) \<and> m \<le> length (buf w) \<and> (sizes_ok opts \<and> fits v \<longrightarrow> fits w)"

lemma check_size_simps [simp]: "buf (vm_area_vector_check_size opts v) = buf v"
  by (simp add: vm_area_vector_check_size_def)

lemma insert_area_added:
  assumes "sorted_areas (buf v)" "i \<le> length (buf v)" "start < stop" "m \<le> i"
    and before: "\<And>j. j < i \<Longrightarrow> va_end (buf v ! j) \<le> start"
    and after: "\<And>j. i \<le> j \<Longrightarrow> j < length (buf v) \<Longrightarrow> stop \<le> va_start (buf v ! j)"
    and a: "va_start a = start" "va_end a = stop"
  shows "added opts m start stop v (insert_area opts v i a)"
proof -
  have buf: "buf v = take i (buf v) @ drop i (buf v)" by simp
  have b: "\<forall>b \<in> set (take i (buf v)). va_end b \<le> start"
    using before assms(2) by (auto simp: in_set_conv_nth)
  have f: "\<forall>b \<in> set (drop i (buf v)). stop \<le> va_start b"
    using after by (auto simp: in_set_conv_nth)
  have "sorted_areas (take i (buf v))" "sorted_areas (drop i (buf v))"
      "\<forall>x \<in> set (take i (buf v)). \<forall>y \<in> set (drop i (buf v)). va_end x \<le> va_start y"
    using assms(1) buf sorted_areas_append [of "take i (buf v)" "drop i (buf v)"] by simp_all
  then have "sorted_areas (take i (buf v) @ a # drop i (buf v))"
    using b f a assms(3) by (auto simp: sorted_areas_append sorted_areas_Cons)
  moreover have "pcs (buf v) = pcs (take i (buf v)) \<union> pcs (drop i (buf v))" by (metis buf pcs_simps(3))
  then have "pcs (take i (buf v) @ a # drop i (buf v)) = pcs (buf v) \<union> {start..<stop}"
    using a by (auto simp: area_pcs_def)
  moreover have "take m (take i (buf v) @ a # drop i (buf v)) = take m (buf v)"
    using assms(2,4) by (simp add: min_def)
  moreover have "fits (insert_area opts v i a)" if "sizes_ok opts" "fits v"
    using that assms(2) by (auto simp: fits_def sizes_ok_def insert_area_def vm_area_vector_check_size_def)
  ultimately show ?thesis
    using assms(2,4) by (simp add: added_def insert_area_def Let_def)
qed

text \<open>Merging payloads touches neither bounds nor the length.\<close>

lemma absorb_bounds:
  "length (buf (absorb k a v)) = length (buf v)" "vsize (absorb k a v) = vsize v"
  "va_start (buf (absorb k a v) ! j) = va_start (buf v ! j)" "va_end (buf (absorb k a v) ! j) = va_end (buf v ! j)"
  "j \<noteq> k \<Longrightarrow> buf (absorb k a v) ! j = buf v ! j"
  by (cases "j = k"; cases "k < length (buf v)"; auto simp: absorb_def list_update_beyond split: option.splits)+

lemma absorb_fold:
  "length (buf (fold (\<lambda>j w. absorb k (buf w ! j) w) js v)) = length (buf v)
   \<and> vsize (fold (\<lambda>j w. absorb k (buf w ! j) w) js v) = vsize v
   \<and> va_start (buf (fold (\<lambda>j w. absorb k (buf w ! j) w) js v) ! i) = va_start (buf v ! i)
   \<and> va_end (buf (fold (\<lambda>j w. absorb k (buf w ! j) w) js v) ! i) = va_end (buf v ! i)
   \<and> (i \<noteq> k \<longrightarrow> buf (fold (\<lambda>j w. absorb k (buf w ! j) w) js v) ! i = buf v ! i)"
  by (induction js arbitrary: v) (simp_all add: absorb_bounds)

lemma widen_bounds:
  assumes "k < length (buf v)"
  shows "length (buf (widen v k n start stop data)) = length (buf v)" "vsize (widen v k n start stop data) = vsize v"
    "j \<noteq> k \<Longrightarrow> buf (widen v k n start stop data) ! j = buf v ! j"
    "va_start (buf (widen v k n start stop data) ! k) = min start (va_start (buf v ! k))"
    "va_end (buf (widen v k n start stop data) ! k) = max stop (va_end (buf v ! (n - 1)))"
  using assms by (auto simp: widen_def Let_def min_def max_def split: option.splits)

lemma merge_areas_buf:
  assumes "k < n" "n \<le> length (buf v)"
  shows "\<exists>a. buf (merge_areas v k n start stop data) = take k (buf v) @ a # drop n (buf v)
     \<and> va_start a = min start (va_start (buf v ! k)) \<and> va_end a = max stop (va_end (buf v ! (n - 1)))
     \<and> vsize (merge_areas v k n start stop data) = vsize v"
proof -
  let ?w = "fold (\<lambda>j w. absorb k (buf w ! j) w) [k + 1..<n] (widen v k n start stop data)"
  have "k < length (buf v)" using assms by simp
  note widen = widen_bounds [OF this, where n = n and start = start and stop = stop and data = data]
  have w: "length (buf ?w) = length (buf v)" "vsize ?w = vsize v" "\<And>j. j \<noteq> k \<Longrightarrow> buf ?w ! j = buf v ! j"
      "va_start (buf ?w ! k) = min start (va_start (buf v ! k))" "va_end (buf ?w ! k) = max stop (va_end (buf v ! (n - 1)))"
    using absorb_fold [of k "[k + 1..<n]" "widen v k n start stop data"] widen by simp_all
  have "take k (buf ?w) = take k (buf v)" using w(1,3) by (intro nth_equalityI) auto
  then have "take (k + 1) (buf ?w) = take k (buf v) @ [buf ?w ! k]"
    using assms w(1) by (simp add: take_Suc_conv_app_nth)
  moreover have "drop n (buf ?w) = drop n (buf v)"
    using assms w(1,3) by (intro nth_equalityI) auto
  moreover have "merge_areas v k n start stop data = ?w\<lparr>buf := take (k + 1) (buf ?w) @ drop n (buf ?w)\<rparr>"
    by (simp only: merge_areas_def Let_def)
  ultimately show ?thesis using w(2,4,5) by (intro exI [of _ "buf ?w ! k"]) simp
qed

lemma pcs_iff: "x \<in> pcs bs \<longleftrightarrow> (\<exists>j < length bs. va_start (bs ! j) \<le> x \<and> x < va_end (bs ! j))"
  by (auto simp: pcs_def area_pcs_def set_conv_nth)

lemma pcs_slice:
  assumes "k < n" "n \<le> length bs"
  shows "x \<in> pcs (take (n - k) (drop k bs)) \<longleftrightarrow> (\<exists>j. k \<le> j \<and> j < n \<and> va_start (bs ! j) \<le> x \<and> x < va_end (bs ! j))"
proof
  assume "x \<in> pcs (take (n - k) (drop k bs))"
  then obtain j where "j < n - k" "va_start (bs ! (k + j)) \<le> x" "x < va_end (bs ! (k + j))"
    using assms by (auto simp: pcs_iff)
  then show "\<exists>j. k \<le> j \<and> j < n \<and> va_start (bs ! j) \<le> x \<and> x < va_end (bs ! j)" by (intro exI [of _ "k + j"]) simp
next
  assume "\<exists>j. k \<le> j \<and> j < n \<and> va_start (bs ! j) \<le> x \<and> x < va_end (bs ! j)"
  then obtain j where "k \<le> j" "j < n" "va_start (bs ! j) \<le> x" "x < va_end (bs ! j)" by blast
  then show "x \<in> pcs (take (n - k) (drop k bs))" using assms unfolding pcs_iff by (intro exI [of _ "j - k"]) auto
qed

lemma hull_pcs:
  assumes "sorted_areas bs" "k < n" "n \<le> length bs" "start \<le> va_end (bs ! k)" "va_start (bs ! (n - 1)) \<le> stop"
    and "va_start a = min start (va_start (bs ! k))" "va_end a = max stop (va_end (bs ! (n - 1)))"
  shows "area_pcs a = pcs (take (n - k) (drop k bs)) \<union> {start..<stop}"
proof -
  note mid = pcs_slice [OF assms(2,3)]
  have "x \<in> area_pcs a" if "k \<le> j" "j < n" "va_start (bs ! j) \<le> x" "x < va_end (bs ! j)" for x j
  proof -
    have "va_start (bs ! k) \<le> va_start (bs ! j)" using that assms(1,3) sorted_areas_mono(1) [of bs k j] by simp
    moreover have "va_end (bs ! j) \<le> va_end (bs ! (n - 1))" using that assms(1,3) sorted_areas_mono(2) [of bs j "n - 1"] by simp
    ultimately show ?thesis using that assms(6,7) by (auto simp: area_pcs_def min_def max_def)
  qed
  moreover have "x \<in> pcs (take (n - k) (drop k bs)) \<union> {start..<stop}" if "x \<in> area_pcs a" for x
  proof (cases "x < start")
    case True
    then show ?thesis using that assms by (auto simp: mid area_pcs_def min_def split: if_splits intro!: exI [of _ k])
  next
    case False
    then show ?thesis using that assms
      by (cases "x < stop") (auto simp: mid area_pcs_def max_def split: if_splits intro!: exI [of _ "n - 1"])
  qed
  moreover have "{start..<stop} \<subseteq> area_pcs a" using assms(6,7) by (auto simp: area_pcs_def)
  ultimately show ?thesis using mid by blast
qed

lemma merge_areas_added:
  assumes "sorted_areas (buf v)" "k < n" "n \<le> length (buf v)" "start < stop" "m \<le> k"
    and before: "\<And>j. j < k \<Longrightarrow> va_end (buf v ! j) \<le> start"
    and after: "\<And>j. n \<le> j \<Longrightarrow> j < length (buf v) \<Longrightarrow> stop \<le> va_start (buf v ! j)"
    and joins: "start \<le> va_end (buf v ! k)" "va_start (buf v ! (n - 1)) \<le> stop"
  shows "added opts m start stop v (merge_areas v k n start stop data)"
proof -
  obtain a where a: "buf (merge_areas v k n start stop data) = take k (buf v) @ a # drop n (buf v)"
      "va_start a = min start (va_start (buf v ! k))" "va_end a = max stop (va_end (buf v ! (n - 1)))"
      "vsize (merge_areas v k n start stop data) = vsize v"
    using merge_areas_buf [OF assms(2,3)] by blast
  let ?mid = "take (n - k) (drop k (buf v))"
  have buf: "buf v = take k (buf v) @ ?mid @ drop n (buf v)"
    using assms(2) by (metis append_take_drop_id drop_drop le_add_diff_inverse2 less_imp_le)
  have lo: "\<forall>b \<in> set (take k (buf v)). va_end b \<le> va_start a"
    using before assms(1-3) sorted_areas_nth [of "buf v" _ k] by (auto simp: in_set_conv_nth a(2))
  have hi: "\<forall>b \<in> set (drop n (buf v)). va_end a \<le> va_start b"
    using after assms(1-3) sorted_areas_nth [of "buf v" "n - 1"] by (auto simp: in_set_conv_nth a(3))
  have "sorted_areas (take k (buf v))" "sorted_areas (drop n (buf v))"
      "\<forall>x \<in> set (take k (buf v)). \<forall>y \<in> set (drop n (buf v)). va_end x \<le> va_start y"
    using assms(1) unfolding buf [THEN arg_cong, of sorted_areas] sorted_areas_append by auto
  moreover have "va_start a < va_end a" using assms(4) a(2,3) by (auto simp: min_def max_def)
  ultimately have "sorted_areas (take k (buf v) @ a # drop n (buf v))"
    using lo hi by (auto simp: sorted_areas_append sorted_areas_Cons)
  moreover have "pcs (buf v) = pcs (take k (buf v)) \<union> pcs ?mid \<union> pcs (drop n (buf v))"
    by (metis buf pcs_simps(3) Un_assoc)
  then have "pcs (take k (buf v) @ a # drop n (buf v)) = pcs (buf v) \<union> {start..<stop}"
    using hull_pcs [OF assms(1-3) joins a(2,3)] by auto
  ultimately show ?thesis using a(1,4) assms(2,3,5) by (auto simp: added_def fits_def min_def)
qed

text \<open>Clearing flags of an area changes no bounds.\<close>

lemma added_update:
  assumes "added opts m start stop (v\<lparr>buf := (buf v)[i := a]\<rparr>) w" "m \<le> i" "i < length (buf v)"
    and "va_start a = va_start (buf v ! i)" "va_end a = va_end (buf v ! i)"
  shows "added opts m start stop v w"
  using assms pcs_update [OF assms(3-5)] by (simp add: added_def fits_def)

lemma added_grow:
  assumes "added opts m start' stop v w" "{start..<stop} \<subseteq> pcs (buf v) \<union> {start'..<stop}" "{start'..<stop} \<subseteq> {start..<stop}"
  shows "added opts m start stop v w"
  using assms by (auto simp: added_def)

text \<open>The state of the loop at index \<open>i\<close>, and a prefix of \<open>m\<close> areas that the loop skips.\<close>

definition scanning :: "'p vm_area list \<Rightarrow> nat \<Rightarrow> app_pc \<Rightarrow> app_pc \<Rightarrow> nat option \<Rightarrow> bool" where
  "scanning bs i start stop os \<longleftrightarrow> sorted_areas bs \<and> start < stop \<and> i \<le> length bs
     \<and> (case os of
          None \<Rightarrow> (\<forall>j < i. va_end (bs ! j) \<le> start)
        | Some k \<Rightarrow> k < i \<and> (\<forall>j < k. va_end (bs ! j) \<le> start) \<and> start \<le> va_end (bs ! k) \<and> va_start (bs ! (i - 1)) \<le> stop)"

lemma finish_added:
  assumes "scanning (buf v) i start stop os" "m \<le> (case os of None \<Rightarrow> i | Some k \<Rightarrow> k)"
    and "\<And>j. i \<le> j \<Longrightarrow> j < length (buf v) \<Longrightarrow> stop \<le> va_start (buf v ! j)"
  shows "added opts m start stop v (finish_add opts v i start stop vmf ff data os i)"
proof (cases os)
  case None
  then show ?thesis
    using assms insert_area_added [of v i start stop m "\<lparr>va_start = start, va_end = stop, vm_flags = vmf, frag_flags = ff, client = data\<rparr>" opts]
    by (simp add: finish_add_def scanning_def)
next
  case (Some k)
  then show ?thesis
    using assms merge_areas_added [of v k i start stop m opts data] by (simp add: finish_add_def scanning_def)
qed

text \<open>Leaving the loop at an area behind the new one.\<close>

lemma finish_before:
  assumes "scanning (buf v) i start stop os" "m \<le> (case os of None \<Rightarrow> i | Some k \<Rightarrow> k)"
    and "i < length (buf v)" "stop \<le> va_start (buf v ! i)"
  shows "added opts m start stop v (finish_add opts v i start stop vmf ff data os i)"
proof (rule finish_added [OF assms(1,2)])
  fix j assume "i \<le> j" "j < length (buf v)"
  then have "va_start (buf v ! i) \<le> va_start (buf v ! j)"
    using assms(1) sorted_areas_mono(1) [of "buf v" i j] by (simp add: scanning_def)
  then show "stop \<le> va_start (buf v ! j)" using assms(4) by simp
qed

lemma scanning_update:
  assumes "scanning bs i start stop os" "l < length bs" "va_start a = va_start (bs ! l)" "va_end a = va_end (bs ! l)"
  shows "scanning (bs[l := a]) i start stop os"
proof -
  have "va_start (bs[l := a] ! j) = va_start (bs ! j)" "va_end (bs[l := a] ! j) = va_end (bs ! j)" for j
    using assms(2-4) by (cases "j = l"; simp)+
  then show ?thesis using assms(1) sorted_areas_update [OF _ assms(2-4)] by (auto simp: scanning_def split: option.splits)
qed

text \<open>The steps of the loop.\<close>

lemma scanning_touch:
  assumes "scanning bs i start stop os" "i < length bs" "start \<le> va_end (bs ! i)" "va_start (bs ! i) \<le> stop"
  shows "scanning bs (Suc i) start stop (if os = None then Some i else os)"
  using assms by (auto simp: scanning_def less_Suc_eq split: option.splits)

lemma scanning_skip:
  assumes "scanning bs i start stop None" "i < length bs" "va_end (bs ! i) \<le> start"
  shows "scanning bs (Suc i) start stop None"
  using assms by (auto simp: scanning_def less_Suc_eq)

lemma scanning_shift:
  assumes "scanning bs i start stop os" "i < length bs" "va_end (bs ! i) < stop"
  shows "scanning bs (Suc i) (va_end (bs ! i)) stop None"
  using assms sorted_areas_mono(2) [of bs _ i] by (auto simp: scanning_def less_Suc_eq_le)

lemma scanning_past:
  assumes "scanning bs i start stop (Some k)" "i < length bs" "\<not> (start < va_end (bs ! i) \<and> stop > va_start (bs ! i))"
  shows "stop \<le> va_start (bs ! i)"
proof -
  have "start \<le> va_end (bs ! k)" "va_end (bs ! k) \<le> va_start (bs ! i)" "va_start (bs ! i) < va_end (bs ! i)"
    using assms sorted_areas_nth [of bs k i] sorted_areas_nonempty [of bs i] by (simp_all add: scanning_def)
  then show ?thesis using assms(3) by auto
qed

lemma touches_bounds: "touches v start stop vmf ff data b \<Longrightarrow> start \<le> va_end b \<and> va_start b \<le> stop"
  by (auto simp: touches_def)

text \<open>A prefix that ends before the new area and is of no interest to it.\<close>

definition skipped :: "'p vm_area_vector \<Rightarrow> nat \<Rightarrow> nat \<Rightarrow> app_pc \<Rightarrow> app_pc \<Rightarrow> uint \<Rightarrow> uint \<Rightarrow> 'p \<Rightarrow> nat option \<Rightarrow> bool" where
  "skipped v m i start stop vmf ff data os \<longleftrightarrow> m \<le> length (buf v) \<and> (\<forall>k. os = Some k \<longrightarrow> m \<le> k)
     \<and> (\<forall>j < m. i \<le> j \<longrightarrow> va_end (buf v ! j) \<le> start \<and> \<not> touches v start stop vmf ff data (buf v ! j))"

lemma behind_conflict_skipped:
  assumes "sorted_areas (buf v)" "i < length (buf v)" "conflicts v vmf ff data (buf v ! i)"
  shows "skipped v (Suc i) 0 (va_end (buf v ! i)) stop vmf ff data' None"
proof -
  have "va_end (buf v ! j) \<le> va_end (buf v ! i) \<and> \<not> touches v (va_end (buf v ! i)) stop vmf ff data' (buf v ! j)" if "j < Suc i" for j
  proof (cases "j = i")
    case True
    then show ?thesis using assms(3) by (auto simp: touches_def conflicts_def)
  next
    case False
    then have "va_end (buf v ! j) < va_end (buf v ! i)"
      using that assms(1,2) sorted_areas_nth [of "buf v" j i] sorted_areas_nonempty [of "buf v" i] by (simp add: less_Suc_eq)
    then show ?thesis by (auto simp: touches_def)
  qed
  then show ?thesis using assms(2) by (simp add: skipped_def)
qed

text \<open>One round of the loop, by cases.\<close>

lemma add_scan_past:
  "length (buf v) \<le> i \<Longrightarrow> add_scan opts v i start stop vmf ff data os = finish_add opts v i start stop vmf ff data os (length (buf v))"
  by (subst add_scan.simps) simp

lemma add_scan_apart:
  assumes "i < length (buf v)" "\<not> touches v start stop vmf ff data (buf v ! i)"
  shows "add_scan opts v i start stop vmf ff data os =
    (if os \<noteq> None \<or> stop \<le> va_start (buf v ! i) then finish_add opts v i start stop vmf ff data os i
     else add_scan opts v (i + 1) start stop vmf ff data None)"
  using assms by (subst add_scan.simps) (simp add: Let_def)

lemma add_scan_touch:
  assumes "i < length (buf v)" "touches v start stop vmf ff data (buf v ! i)"
    and "b1 = drop_flags vmf (buf v ! i)" "v1 = v\<lparr>buf := (buf v)[i := b1]\<rparr>" "os1 = (if os = None then Some i else os)"
  shows "\<not> conflicts v vmf ff data b1 \<or> va_start b1 \<le> start \<and> stop \<le> va_end b1 \<Longrightarrow>
      add_scan opts v i start stop vmf ff data os = add_scan opts v1 (i + 1) start stop vmf ff data os1"
    and "conflicts v vmf ff data b1 \<Longrightarrow> va_start b1 \<le> start \<Longrightarrow> va_end b1 < stop \<Longrightarrow>
      add_scan opts v i start stop vmf ff data os = add_scan opts v1 (i + 1) (va_end b1) stop vmf ff data None"
    and "conflicts v vmf ff data b1 \<Longrightarrow> start < va_start b1 \<Longrightarrow>
      add_scan opts v i start stop vmf ff data os =
        (let v2 = (if stop > va_end b1
                   then add_scan opts v1 0 (va_end b1) stop vmf ff (case split_payload_func v of None \<Rightarrow> data | Some f \<Rightarrow> f data) None
                   else v1)
         in finish_add opts v2 i start (va_start (buf v2 ! i)) vmf ff data (if os1 = Some i then None else os1) i)"
  using assms by (subst add_scan.simps; auto simp: Let_def not_less)+

lemma skipped_update:
  assumes "skipped v m i start stop vmf ff data os" "m \<le> i" "os' = None \<or> os' = os \<or> os' = Some i"
  shows "skipped (v\<lparr>buf := (buf v)[i := a]\<rparr>) m (Suc i) start' stop' vmf ff data os'"
  using assms by (auto simp: skipped_def)

lemma added_refl: "sorted_areas (buf v) \<Longrightarrow> m \<le> length (buf v) \<Longrightarrow> stop \<le> start \<Longrightarrow> added opts m start stop v v"
  by (simp add: added_def)

text \<open>The part before a conflicting area is added after the part behind it.\<close>

lemma add_around:
  assumes "added opts (Suc i) (va_end (buf v ! i)) stop v w" "i < length (buf v)" "sorted_areas (buf v)"
    and "scanning (buf v) i start stop os" "m \<le> (case os of None \<Rightarrow> i | Some k \<Rightarrow> k)"
    and "start < va_start (buf v ! i)" "va_start (buf v ! i) < stop"
  shows "added opts m start stop v (finish_add opts w i start (va_start (buf w ! i)) vmf ff data os i)"
proof -
  have w: "sorted_areas (buf w)" "pcs (buf w) = pcs (buf v) \<union> {va_end (buf v ! i)..<stop}" "Suc i \<le> length (buf w)"
      "sizes_ok opts \<and> fits v \<longrightarrow> fits w"
    using assms(1) by (simp_all add: added_def)
  have nth: "buf w ! j = buf v ! j" if "j \<le> i" for j
    using assms(1) that by (metis added_def less_Suc_eq_le nth_take)
  have le: "m \<le> i" using assms(4,5) by (auto simp: scanning_def split: option.splits)
  have "scanning (buf w) i start (va_start (buf w ! i)) os"
    using assms(2-4,6) w(1,3) nth sorted_areas_mono(1) [OF w(1), of "i - 1" i] by (auto simp: scanning_def split: option.splits)
  then have fin: "added opts m start (va_start (buf w ! i)) w (finish_add opts w i start (va_start (buf w ! i)) vmf ff data os i)"
    using finish_before [OF _ assms(5), of w start "va_start (buf w ! i)" opts vmf ff data] w(3) by simp
  have "take m (buf w) = take m (buf v)" using assms(1) le by (metis added_def le_SucI min.absorb1 take_take)
  moreover have "area_pcs (buf v ! i) \<subseteq> pcs (buf v)" using area_in_pcs [OF assms(2)] .
  then have "pcs (buf w) \<union> {start..<va_start (buf w ! i)} = pcs (buf v) \<union> {start..<stop}"
    using interval_around [of "va_start (buf v ! i)" "va_end (buf v ! i)" "pcs (buf v)" start stop]
      w(2) nth [of i] assms(6,7) sorted_areas_nonempty [OF assms(3,2)] by (auto simp: area_pcs_def)
  ultimately show ?thesis using fin w(4) by (auto simp: added_def)
qed

text \<open>An area that the new one touches, after its flags were cleared.\<close>

lemma touch_state:
  assumes "scanning (buf v) i start stop os" "skipped v m i start stop vmf ff data os" "i < length (buf v)"
    and "touches v start stop vmf ff data (buf v ! i)"
    and "b1 = drop_flags vmf (buf v ! i)" "v1 = v\<lparr>buf := (buf v)[i := b1]\<rparr>" "os1 = (if os = None then Some i else os)"
  shows "m \<le> (case os of None \<Rightarrow> i | Some k \<Rightarrow> k)" "scanning (buf v1) i start stop os" "scanning (buf v1) (i + 1) start stop os1"
    and "os' = None \<or> os' = os1 \<Longrightarrow> skipped v1 m (i + 1) start' stop' vmf ff data os'"
    and "added opts m start' stop' v1 w \<Longrightarrow> added opts m start' stop' v w"
    and "(if os1 = Some i then None else os1) = os"
proof -
  have m: "m \<le> i" using assms(2-4) unfolding skipped_def by (meson not_le order_refl)
  then show "m \<le> (case os of None \<Rightarrow> i | Some k \<Rightarrow> k)" using assms(2) by (simp add: skipped_def split: option.splits)
  have b: "va_start b1 = va_start (buf v ! i)" "va_end b1 = va_end (buf v ! i)" by (simp_all add: assms(5))
  show "scanning (buf v1) i start stop os" using scanning_update [OF assms(1,3) b] by (simp add: assms(6))
  show "scanning (buf v1) (i + 1) start stop os1"
    using scanning_touch [OF assms(1,3)] touches_bounds [OF assms(4)] scanning_update [of "buf v" _ start stop os1 i b1] b assms(3)
    by (simp add: assms(6,7))
  show "skipped v1 m (i + 1) start' stop' vmf ff data os'" if "os' = None \<or> os' = os1"
    using skipped_update [OF assms(2) m, of os' b1] that by (auto simp: assms(6,7))
  show "added opts m start' stop' v w" if "added opts m start' stop' v1 w"
    using added_update [OF that [unfolded assms(6)] m assms(3) b] .
  show "(if os1 = Some i then None else os1) = os"
    using assms(1) by (auto simp: assms(7) scanning_def split: option.splits)
qed

text \<open>The two ways in which the new area gives way to a conflicting one.\<close>

lemma shift_added:
  assumes "added opts m (va_end b) stop v w" "b \<in> set (buf v)" "va_start b \<le> start" "start < va_end b"
  shows "added opts m start stop v w"
proof (rule added_grow [OF assms(1)])
  have "area_pcs b \<subseteq> pcs (buf v)" using assms(2) by (auto simp: pcs_def)
  then show "{start..<stop} \<subseteq> pcs (buf v) \<union> {va_end b..<stop}" using assms(3) interval_behind by (simp add: area_pcs_def)
qed (use assms(4) in auto)

lemma add_scan_conflict:
  assumes "scanning (buf v) i start stop os" "i < length (buf v)" "touches v start stop vmf ff data (buf v ! i)"
    and b1: "b1 = drop_flags vmf (buf v ! i)" and v1: "v1 = v\<lparr>buf := (buf v)[i := b1]\<rparr>" and conf: "conflicts v vmf ff data b1"
  shows "start < va_end b1" "va_start b1 < stop" "sorted_areas (buf v1)" "buf v1 ! i = b1" "i < length (buf v1)"
    and "va_end b1 < stop \<Longrightarrow> scanning (buf v1) (i + 1) (va_end b1) stop None"
    and "va_end b1 < stop \<Longrightarrow> scanning (buf v1) 0 (va_end b1) stop None"
    and "skipped v1 (Suc i) 0 (va_end b1) stop vmf ff data' None"
proof -
  have b: "va_start b1 = va_start (buf v ! i)" "va_end b1 = va_end (buf v ! i)" by (simp_all add: b1)
  have scan: "scanning (buf v1) i start stop os" using scanning_update [OF assms(1,2) b] by (simp add: v1)
  show "start < va_end b1" "va_start b1 < stop" using conflicts_overlap [OF assms(3)] conf b by (simp_all add: b1)
  show sorted: "sorted_areas (buf v1)" and nth: "buf v1 ! i = b1" and len: "i < length (buf v1)"
    using scan assms(2) by (simp_all add: scanning_def v1)
  show "scanning (buf v1) (i + 1) (va_end b1) stop None" if "va_end b1 < stop"
    using scanning_shift [OF scan len] nth that by simp
  show "scanning (buf v1) 0 (va_end b1) stop None" if "va_end b1 < stop" using sorted that by (simp add: scanning_def)
  have "conflicts v1 vmf ff data (buf v1 ! i)" using conf nth by (simp add: conflicts_def v1)
  then show "skipped v1 (Suc i) 0 (va_end b1) stop vmf ff data' None"
    using behind_conflict_skipped [OF sorted len, of vmf ff data] nth by simp
qed

text \<open>Leaving the loop at an area that is not touched.\<close>

lemma add_scan_leave:
  assumes "scanning (buf v) i start stop os" "skipped v m i start stop vmf ff data os" "i < length (buf v)"
    and "\<not> touches v start stop vmf ff data (buf v ! i)" "os \<noteq> None \<or> stop \<le> va_start (buf v ! i)"
  shows "added opts m start stop v (finish_add opts v i start stop vmf ff data os i)"
proof (rule finish_before [OF assms(1) _ assms(3)])
  show le: "stop \<le> va_start (buf v ! i)" using assms scanning_past [of "buf v" i start stop] by (auto simp: touches_def)
  show "m \<le> (case os of None \<Rightarrow> i | Some k \<Rightarrow> k)"
  proof (cases os)
    case None
    have "start < stop" "va_start (buf v ! i) < va_end (buf v ! i)"
      using assms(1,3) sorted_areas_nonempty [of "buf v" i] by (simp_all add: scanning_def)
    then have "\<not> va_end (buf v ! i) \<le> start" using le by order
    then have "m \<le> i" using assms(2) unfolding skipped_def by (meson not_le order_refl)
    then show ?thesis using None by simp
  qed (use assms(2) in \<open>simp add: skipped_def\<close>)
qed

lemma add_scan_added:
  assumes "scanning (buf v) i start stop os" "skipped v m i start stop vmf ff data os"
  shows "added opts m start stop v (add_scan opts v i start stop vmf ff data os)"
  using assms
proof (induction opts v i start stop vmf ff data os arbitrary: m rule: add_scan.induct)
  case (1 opts v i start stop vmf ff data os)
  note scan = "1.prems"(1) and skip = "1.prems"(2)
  define b1 where "b1 = drop_flags vmf (buf v ! i)"
  define v1 where "v1 = v\<lparr>buf := (buf v)[i := b1]\<rparr>"
  define os1 where "os1 = (if os = None then Some i else os)"
  consider "i = length (buf v)" | "i < length (buf v)" "\<not> touches v start stop vmf ff data (buf v ! i)"
    | "i < length (buf v)" "touches v start stop vmf ff data (buf v ! i)"
    using scan unfolding scanning_def by linarith
  then show ?case
  proof cases
    case 1
    then have "m \<le> (case os of None \<Rightarrow> i | Some k \<Rightarrow> k)" using skip by (auto simp: skipped_def split: option.splits)
    then show ?thesis using finish_added [OF scan, of m opts vmf ff data] add_scan_past [of v i] 1 by simp
  next
    case 2
    show ?thesis
    proof (cases "os \<noteq> None \<or> stop \<le> va_start (buf v ! i)")
      case True
      then show ?thesis using add_scan_leave [OF scan skip 2] add_scan_apart [OF 2] by simp
    next
      case False
      then have "va_end (buf v ! i) \<le> start" using 2(2) by (auto simp: touches_def)
      then have "scanning (buf v) (i + 1) start stop None" using scanning_skip [of "buf v" i start stop] scan 2(1) False by simp
      moreover have "skipped v m (i + 1) start stop vmf ff data None" using skip False by (simp add: skipped_def)
      ultimately show ?thesis using "1.IH"(5) 2 False add_scan_apart [OF 2] by simp
    qed
  next
    case 3
    note step = add_scan_touch [OF 3 b1_def v1_def os1_def] and state = touch_state [OF scan skip 3 b1_def v1_def os1_def]
    note IH = "1.IH"(1-4) [OF _ refl 3(2) refl refl refl, folded b1_def, folded v1_def, folded os1_def]
    consider "\<not> conflicts v vmf ff data b1 \<or> va_start b1 \<le> start \<and> stop \<le> va_end b1"
      | "conflicts v vmf ff data b1" "va_start b1 \<le> start" "va_end b1 < stop" | "conflicts v vmf ff data b1" "start < va_start b1"
      by (meson not_less)
    then show ?thesis
    proof cases
      case 1
      then have "added opts m start stop v1 (add_scan opts v1 (i + 1) start stop vmf ff data os1)"
        using IH(3) [OF _ _ _ _ state(3,4)] IH(4) [OF _ _ state(3,4)] 3(1) by (cases "conflicts v vmf ff data b1") auto
      then show ?thesis using state(5) step(1) [OF 1] by simp
    next
      case 2
      note conf = add_scan_conflict [OF scan 3 b1_def v1_def 2(1)]
      have "added opts m (va_end b1) stop v1 (add_scan opts v1 (i + 1) (va_end b1) stop vmf ff data None)"
        using IH(2) [OF _ 2(1) _ 2(3) conf(6) state(4)] 2(2,3) 3(1) by simp
      then have "added opts m start stop v1 (add_scan opts v1 (i + 1) (va_end b1) stop vmf ff data None)"
        using shift_added [of opts m b1 stop v1] nth_mem [OF conf(5)] conf(1,4) 2(2) by simp
      then show ?thesis using state(5) step(2) [OF 2] by simp
    next
      case front: 3
      note conf = add_scan_conflict [OF scan 3 b1_def v1_def front(1)]
      let ?d = "case split_payload_func v of None \<Rightarrow> data | Some f \<Rightarrow> f data"
      let ?v2 = "if stop > va_end b1 then add_scan opts v1 0 (va_end b1) stop vmf ff ?d None else v1"
      have "added opts (Suc i) (va_end (buf v1 ! i)) stop v1 ?v2"
        using IH(1) [OF _ front _ conf(7,8)] added_refl [OF conf(3), of "Suc i" stop "va_end b1" opts] 3(1) conf(4,5) by simp
      then show ?thesis
        using add_around [OF _ conf(5,3) state(2,1), of opts ?v2 vmf ff data] front(2) conf(2,4) state(5,6) step(3) [OF front]
        by (simp add: Let_def)
    qed
  qed
qed

lemma add_vm_area_added:
  assumes "sorted_areas (buf v)" "start < stop"
  shows "added opts 0 start stop v (add_vm_area opts v start stop vmf ff data)"
  unfolding add_vm_area_def by (rule add_scan_added) (use assms in \<open>simp_all add: scanning_def skipped_def\<close>)

end
