(* ===== verification/Vmareas_Search.thy ===== *)
theory Vmareas_Search
  imports Vmareas
begin

text \<open>
  Removal and search in vectors of memory areas. \<open>remove_vm_area\<close> takes exactly the given range out of
  the covered addresses, keeps the vector sorted and within its allocation, and reports whether anything was
  there; \<open>binary_search\<close> finds an area the range hits, the first one if asked, or the index behind
  which the range belongs.
\<close>

section \<open>Removing a range\<close>

definition overlaps :: "app_pc \<Rightarrow> app_pc \<Rightarrow> 'p vm_area \<Rightarrow> bool" where
  "overlaps start stop b \<longleftrightarrow> start < va_end b \<and> stop > va_start b"

text \<open>The areas that overlap the range are those from \<open>k\<close> up to and without \<open>n\<close>.\<close>

definition overlap_range :: "'p vm_area list \<Rightarrow> app_pc \<Rightarrow> app_pc \<Rightarrow> nat \<Rightarrow> nat \<Rightarrow> bool" where
  "overlap_range bs start stop k n \<longleftrightarrow> k < n \<and> n \<le> length bs \<and> (\<forall>j. k \<le> j \<and> j < n \<longrightarrow> overlaps start stop (bs ! j))
     \<and> (\<forall>j < k. va_end (bs ! j) \<le> start) \<and> (\<forall>j. n \<le> j \<and> j < length bs \<longrightarrow> stop \<le> va_start (bs ! j))"

lemma find_overlap_spec:
  assumes "sorted_areas bs" "start < stop" "i \<le> length bs"
    and "case os of None \<Rightarrow> \<forall>j < i. va_end (bs ! j) \<le> start
      | Some k \<Rightarrow> k < i \<and> (\<forall>j < k. va_end (bs ! j) \<le> start) \<and> (\<forall>j. k \<le> j \<and> j < i \<longrightarrow> overlaps start stop (bs ! j))"
  shows "case find_overlap bs i start stop os of
       None \<Rightarrow> os = None \<and> (\<forall>b \<in> set bs. \<not> overlaps start stop b)
     | Some (k, n) \<Rightarrow> overlap_range bs start stop k n"
  using assms
proof (induction bs i start stop os rule: find_overlap.induct)
  case (1 bs i start stop os)
  have later: "stop \<le> va_start (bs ! j)" if "stop \<le> va_start (bs ! i)" "i \<le> j" "j < length bs" for j
    using that sorted_areas_mono(1) [OF "1.prems"(1), of i j] by simp
  consider "length bs \<le> i" | "i < length bs" "overlaps start stop (bs ! i)" | "i < length bs" "\<not> overlaps start stop (bs ! i)" by linarith
  then show ?case
  proof cases
    case 1
    then show ?thesis using "1.prems" by (subst find_overlap.simps)
      (auto simp: overlap_range_def overlaps_def in_set_conv_nth not_less split: option.splits)
  next
    case 2
    then show ?thesis using "1.IH"(1) "1.prems" by (subst find_overlap.simps)
      (fastforce simp: overlaps_def less_Suc_eq split: option.splits)
  next
    case 3
    show ?thesis
    proof (cases os)
      case None
      show ?thesis
      proof (cases "stop \<le> va_start (bs ! i)")
        case True
        have "\<not> overlaps start stop (bs ! j)" if "j < length bs" for j
          using later [OF True, of j] "1.prems"(4) None that by (cases "i \<le> j") (auto simp: overlaps_def not_less)
        then show ?thesis using True None 3 by (subst find_overlap.simps) (auto simp: overlaps_def in_set_conv_nth)
      next
        case False
        then have i: "va_end (bs ! i) \<le> start" using 3(2) by (auto simp: overlaps_def)
        then have "find_overlap bs i start stop os = find_overlap bs (i + 1) start stop None"
          using False None 3(1) by (subst find_overlap.simps) auto
        then show ?thesis using "1.IH"(2) "1.prems" False None 3 i by (auto simp: overlaps_def less_Suc_eq split: option.splits)
      qed
    next
      case (Some k)
      then have "start < va_end (bs ! (i - 1))" "va_end (bs ! (i - 1)) \<le> va_start (bs ! i)" "va_start (bs ! i) < va_end (bs ! i)"
        using "1.prems" 3 sorted_areas_nth [of bs "i - 1" i] sorted_areas_nonempty [of bs i] by (auto simp: overlaps_def)
      then have "stop \<le> va_start (bs ! i)" using 3(2) by (auto simp: overlaps_def)
      then show ?thesis using Some "1.prems" 3 later by (subst find_overlap.simps) (auto simp: overlap_range_def overlaps_def)
    qed
  qed
qed

lemma find_overlap_start:
  assumes "sorted_areas bs" "start < stop"
  shows "case find_overlap bs 0 start stop None of
       None \<Rightarrow> pcs bs \<inter> {start..<stop} = {}
     | Some (k, n) \<Rightarrow> overlap_range bs start stop k n"
proof -
  have "pcs bs \<inter> {start..<stop} = {}" if "\<forall>b \<in> set bs. \<not> overlaps start stop b"
    using that by (auto simp: pcs_def area_pcs_def overlaps_def) (meson le_less_trans not_le)
  then show ?thesis using find_overlap_spec [OF assms, of 0 None] by (auto split: option.splits)
qed

text \<open>What is left of the areas in the range.\<close>

definition left_over :: "'p vm_area list \<Rightarrow> app_pc \<Rightarrow> app_pc \<Rightarrow> nat \<Rightarrow> nat \<Rightarrow> 'p vm_area list" where
  "left_over bs start stop k n =
     (if va_start (bs ! k) < start then [(bs ! k)\<lparr>va_end := start\<rparr>] else [])
     @ (if stop < va_end (bs ! (n - 1)) \<and> \<not> (va_start (bs ! k) < start \<and> k = n - 1) then [(bs ! (n - 1))\<lparr>va_start := stop\<rparr>] else [])"

lemma cut_simps:
  "vsize (restore_range opts p a x y v) = vsize v" "buf (restore_range opts p a x y v) = buf v"
  "vsize (delete_area opts p a v) = vsize v" "buf (delete_area opts p a v) = buf v"
  by (simp_all add: restore_range_def vm_make_writable_def delete_area_def Let_def)

lemma delete_fold:
  "buf (fold (\<lambda>j. delete_area opts p (f j)) js v) = buf v \<and> vsize (fold (\<lambda>j. delete_area opts p (f j)) js v) = vsize v"
  by (induction js arbitrary: v) (simp_all add: cut_simps)

lemma delete_areas_buf:
  "k \<le> n \<Longrightarrow> n \<le> length (buf v) \<Longrightarrow> buf (delete_areas opts p k n v) = take k (buf v) @ drop n (buf v)"
  "vsize (delete_areas opts p k n v) = vsize v"
  using delete_fold [of opts p "\<lambda>j. buf v ! j" "[k..<n]" v] by (auto simp: delete_areas_def Let_def)

lemma drop_last_update: "k < length xs \<Longrightarrow> drop k (xs[k := a]) = a # drop (Suc k) xs"
  by (metis Cons_nth_drop_Suc length_list_update nth_list_update_eq drop_update_cancel lessI)

text \<open>The steps of \<open>remove_vm_area\<close> before it adds the rest of a split area.\<close>

definition cut_range :: "vm_options \<Rightarrow> bool \<Rightarrow> app_pc \<Rightarrow> app_pc \<Rightarrow> nat \<Rightarrow> nat \<Rightarrow> 'p vm_area_vector \<Rightarrow> 'p vm_area_vector" where
  "cut_range opts p start stop k n v =
     (let (k1, v1) = cut_front opts p start stop k v; (n1, v2) = cut_back opts p stop n v1 in delete_areas opts p k1 n1 v2)"

lemma cut_range_vsize: "vsize (cut_range opts p start stop k n v) = vsize v"
  by (simp add: cut_range_def delete_areas_buf cut_front_def cut_back_def Let_def cut_simps)

lemma cut_range_buf:
  assumes "overlap_range (buf v) start stop k n" "start < stop"
  shows "buf (cut_range opts p start stop k n v) = take k (buf v) @ left_over (buf v) start stop k n @ drop n (buf v)"
proof -
  let ?bs = "buf v"
  define f where "f = (if va_start (?bs ! k) < start then ?bs[k := (?bs ! k)\<lparr>va_end := start\<rparr>] else ?bs)"
  define k1 where "k1 = (if va_start (?bs ! k) < start then Suc k else k)"
  have kn: "k < n" "n \<le> length ?bs" "k < length ?bs" using assms(1) by (auto simp: overlap_range_def)
  obtain v1 where v1: "cut_front opts p start stop k v = (k1, v1)" "buf v1 = f"
    by (cases "cut_front opts p start stop k v") (auto simp: cut_front_def Let_def cut_simps f_def k1_def split: if_splits)
  obtain l where n: "n = Suc l" using kn(1) by (cases n) auto
  have last: "f ! l = (if va_start (?bs ! k) < start \<and> k = l then (?bs ! k)\<lparr>va_end := start\<rparr> else ?bs ! l)"
    using kn by (auto simp: f_def nth_list_update)
  define cut_it where "cut_it = (stop < va_end (?bs ! l) \<and> \<not> (va_start (?bs ! k) < start \<and> k = l))"
  have cut_it: "stop < va_end (f ! l) \<longleftrightarrow> cut_it" using assms(2) by (auto simp: cut_it_def last)
  then have keep: "cut_it \<Longrightarrow> f ! l = ?bs ! l" by (auto simp: cut_it_def last)
  obtain v2 where v2: "cut_back opts p stop n v1 = (if cut_it then l else n, v2)"
      "buf v2 = (if cut_it then f[l := (?bs ! l)\<lparr>va_start := stop\<rparr>] else f)"
    using keep by (cases "cut_back opts p stop n v1") (auto simp: cut_back_def Let_def cut_simps v1(2) cut_it n split: if_splits)
  have len: "length f = length ?bs" by (simp add: f_def)
  have front: "take k1 f = take k ?bs @ (if va_start (?bs ! k) < start then [(?bs ! k)\<lparr>va_end := start\<rparr>] else [])"
    using kn by (simp add: f_def k1_def take_Suc_conv_app_nth)
  have rest: "drop (if cut_it then l else n) (buf v2) = (if cut_it then [(?bs ! l)\<lparr>va_start := stop\<rparr>] else []) @ drop n ?bs"
    using kn len by (auto simp: v2(2) drop_last_update f_def n)
  have "take k1 (buf v2) = take k1 f" using kn by (auto simp: v2(2) cut_it_def k1_def n)
  moreover have "k1 \<le> (if cut_it then l else n)" using kn by (auto simp: cut_it_def k1_def n)
  moreover have "(if cut_it then l else n) \<le> length (buf v2)" using kn len by (simp add: v2(2) n)
  ultimately have "buf (delete_areas opts p k1 (if cut_it then l else n) v2)
      = (take k ?bs @ (if va_start (?bs ! k) < start then [(?bs ! k)\<lparr>va_end := start\<rparr>] else []))
        @ (if cut_it then [(?bs ! l)\<lparr>va_start := stop\<rparr>] else []) @ drop n ?bs"
    by (simp only: delete_areas_buf(1) front rest)
  moreover have "cut_range opts p start stop k n v = delete_areas opts p k1 (if cut_it then l else n) v2"
    by (simp only: cut_range_def v1(1) v2(1) Let_def prod.case)
  moreover have "left_over ?bs start stop k n = (if va_start (?bs ! k) < start then [(?bs ! k)\<lparr>va_end := start\<rparr>] else [])
      @ (if cut_it then [(?bs ! l)\<lparr>va_start := stop\<rparr>] else [])"
    by (simp add: left_over_def cut_it_def n)
  ultimately show ?thesis by (simp only: append_assoc)
qed

text \<open>The areas in the range keep what they cover outside of it; of an area that contains the range, the part behind it
  is added again.\<close>

definition split_off :: "'p vm_area list \<Rightarrow> app_pc \<Rightarrow> app_pc \<Rightarrow> nat \<Rightarrow> nat \<Rightarrow> bool" where
  "split_off bs start stop k n \<longleftrightarrow> va_start (bs ! k) < start \<and> k = n - 1 \<and> stop < va_end (bs ! k)"

lemma remove_vm_area_cases:
  "remove_vm_area opts v start stop p =
     (case find_overlap (buf v) 0 start stop None of
        None \<Rightarrow> (False, v)
      | Some (k, n) \<Rightarrow> (True,
          if split_off (buf v) start stop k n
          then add_vm_area opts (cut_range opts p start stop k n v) stop (va_end (buf v ! k))
            (vm_flags (buf v ! k) AND NOT VM_ADD_TO_SHARED_DATA) (frag_flags (buf v ! k) AND NOT FRAG_COARSE_GRAIN)
            (case split_payload_func v of None \<Rightarrow> client (buf v ! k) | Some f \<Rightarrow> f (client (buf v ! k)))
          else cut_range opts p start stop k n v))"
  by (auto simp: remove_vm_area_def cut_range_def split_off_def Let_def split: option.splits prod.splits)

text \<open>What the areas in the range cover outside of it.\<close>

lemma slice_outside:
  assumes "sorted_areas bs" "overlap_range bs start stop k n" "\<not> (start \<le> x \<and> x < stop)"
  shows "x \<in> pcs (take (n - k) (drop k bs)) \<longleftrightarrow> x < start \<and> va_start (bs ! k) \<le> x \<or> stop \<le> x \<and> x < va_end (bs ! (n - 1))"
    (is "_ \<longleftrightarrow> ?out")
proof -
  have kn: "k < n" "n \<le> length bs" "overlaps start stop (bs ! k)" "overlaps start stop (bs ! (n - 1))"
    using assms(2) by (auto simp: overlap_range_def)
  have "?out" if "k \<le> j" "j < n" "va_start (bs ! j) \<le> x" "x < va_end (bs ! j)" for j
  proof -
    have "va_start (bs ! k) \<le> va_start (bs ! j)" using that kn assms(1) sorted_areas_mono(1) [of bs k j] by simp
    moreover have "va_end (bs ! j) \<le> va_end (bs ! (n - 1))" using that kn assms(1) sorted_areas_mono(2) [of bs j "n - 1"] by simp
    ultimately show ?thesis using that assms(3) by auto
  qed
  moreover have "\<exists>j. k \<le> j \<and> j < n \<and> va_start (bs ! j) \<le> x \<and> x < va_end (bs ! j)" if ?out
    using that kn by (elim disjE) (auto simp: overlaps_def intro: exI [of _ k] exI [of _ "n - 1"])
  ultimately show ?thesis using pcs_slice [OF kn(1,2)] by blast
qed

lemma overlap_range_parts:
  assumes "sorted_areas bs" "overlap_range bs start stop k n"
  shows "bs = take k bs @ take (n - k) (drop k bs) @ drop n bs"
    "\<And>b. b \<in> set (take k bs) \<Longrightarrow> va_end b \<le> start \<and> va_end b \<le> va_start (bs ! k)"
    "\<And>b. b \<in> set (drop n bs) \<Longrightarrow> stop \<le> va_start b \<and> va_end (bs ! (n - 1)) \<le> va_start b"
    "sorted_areas (take k bs)" "sorted_areas (drop n bs)"
    "\<And>a b. a \<in> set (take k bs) \<Longrightarrow> b \<in> set (drop n bs) \<Longrightarrow> va_end a \<le> va_start b"
proof -
  have kn: "k < n" "n \<le> length bs" using assms(2) by (auto simp: overlap_range_def)
  show parts: "bs = take k bs @ take (n - k) (drop k bs) @ drop n bs"
    using kn(1) by (metis append_take_drop_id drop_drop le_add_diff_inverse2 less_imp_le)
  show "va_end b \<le> start \<and> va_end b \<le> va_start (bs ! k)" if "b \<in> set (take k bs)" for b
    using that assms kn sorted_areas_nth [OF assms(1), of _ k] by (auto simp: overlap_range_def in_set_conv_nth)
  show "stop \<le> va_start b \<and> va_end (bs ! (n - 1)) \<le> va_start b" if "b \<in> set (drop n bs)" for b
    using that assms kn sorted_areas_nth [OF assms(1), of "n - 1"] by (auto simp: overlap_range_def in_set_conv_nth)
  have "sorted_areas (take k bs @ take (n - k) (drop k bs) @ drop n bs)" using parts assms(1) by simp
  then show "sorted_areas (take k bs)" "sorted_areas (drop n bs)"
      "\<And>a b. a \<in> set (take k bs) \<Longrightarrow> b \<in> set (drop n bs) \<Longrightarrow> va_end a \<le> va_start b"
    by (simp_all add: sorted_areas_append)
qed

lemma left_over_pcs:
  assumes "sorted_areas bs" "overlap_range bs start stop k n" "start < stop"
  shows "pcs (left_over bs start stop k n) \<union> (if split_off bs start stop k n then {stop..<va_end (bs ! k)} else {})
     = pcs (take (n - k) (drop k bs)) - {start..<stop}"
proof -
  have "pcs (left_over bs start stop k n) \<union> (if split_off bs start stop k n then {stop..<va_end (bs ! k)} else {})
      = {x. va_start (bs ! k) \<le> x \<and> x < start} \<union> {x. stop \<le> x \<and> x < va_end (bs ! (n - 1))}"
    by (auto simp: left_over_def split_off_def area_pcs_def)
  also have "\<dots> = pcs (take (n - k) (drop k bs)) - {start..<stop}"
  proof (rule set_eqI)
    show "x \<in> {x. va_start (bs ! k) \<le> x \<and> x < start} \<union> {x. stop \<le> x \<and> x < va_end (bs ! (n - 1))}
        \<longleftrightarrow> x \<in> pcs (take (n - k) (drop k bs)) - {start..<stop}" for x
      using slice_outside [OF assms(1,2), of x] assms(3) by (cases "start \<le> x \<and> x < stop") auto
  qed
  finally show ?thesis .
qed

lemma left_over_sorted:
  assumes "sorted_areas bs" "overlap_range bs start stop k n" "start < stop"
  shows "sorted_areas (take k bs @ left_over bs start stop k n @ drop n bs)"
proof -
  have kn: "k < n" "n \<le> length bs" "overlaps start stop (bs ! k)" "overlaps start stop (bs ! (n - 1))"
    using assms(2) by (auto simp: overlap_range_def)
  have "k < n - 1 \<Longrightarrow> va_end (bs ! k) \<le> va_start (bs ! (n - 1))" using sorted_areas_nth [OF assms(1)] kn by simp
  then have left: "sorted_areas (left_over bs start stop k n)"
    using kn assms(3) by (auto simp: left_over_def sorted_areas_Cons overlaps_def)
  have inside: "va_start (bs ! k) \<le> va_start b \<or> start \<le> va_start b"
      "va_end b \<le> va_end (bs ! (n - 1)) \<or> va_end b \<le> stop" if "b \<in> set (left_over bs start stop k n)" for b
    using that assms(3) by (auto simp: left_over_def split: if_splits)
  have lo: "va_end a \<le> va_start b" if "a \<in> set (take k bs)" "b \<in> set (left_over bs start stop k n)" for a b
    using overlap_range_parts(2) [OF assms(1,2) that(1)] inside(1) [OF that(2)] by auto
  have hi: "va_end a \<le> va_start b" if "a \<in> set (left_over bs start stop k n)" "b \<in> set (drop n bs)" for a b
    using overlap_range_parts(3) [OF assms(1,2) that(2)] inside(2) [OF that(1)] by auto
  show ?thesis
    using overlap_range_parts(4-6) [OF assms(1,2)] left lo hi by (auto simp: sorted_areas_append)
qed

lemma cut_range_removes:
  assumes "sorted_areas (buf v)" "overlap_range (buf v) start stop k n" "start < stop"
  shows "sorted_areas (buf (cut_range opts p start stop k n v))"
    "pcs (buf (cut_range opts p start stop k n v)) \<union> (if split_off (buf v) start stop k n then {stop..<va_end (buf v ! k)} else {})
     = pcs (buf v) - {start..<stop}"
proof -
  note cut = cut_range_buf [OF assms(2,3), of opts p]
  note parts = overlap_range_parts [OF assms(1,2)]
  show "sorted_areas (buf (cut_range opts p start stop k n v))"
    by (simp only: cut left_over_sorted [OF assms])
  have "pcs (take k (buf v)) \<inter> {start..<stop} = {}" "pcs (drop n (buf v)) \<inter> {start..<stop} = {}"
    using parts(2,3) by (force simp: pcs_def area_pcs_def)+
  moreover have "pcs (buf v) = pcs (take k (buf v)) \<union> pcs (take (n - k) (drop k (buf v))) \<union> pcs (drop n (buf v))"
    by (metis parts(1) pcs_simps(3) Un_assoc)
  ultimately show "pcs (buf (cut_range opts p start stop k n v)) \<union> (if split_off (buf v) start stop k n then {stop..<va_end (buf v ! k)} else {})
     = pcs (buf v) - {start..<stop}"
    using left_over_pcs [OF assms] by (simp only: cut pcs_simps) blast
qed

lemma left_over_length: "k < n \<Longrightarrow> \<not> split_off bs start stop k n \<Longrightarrow> length (left_over bs start stop k n) \<le> n - k"
  by (auto simp: left_over_def split_off_def)

lemma cut_range_fits:
  assumes "overlap_range (buf v) start stop k n" "start < stop" "fits v"
  shows "fits (cut_range opts p start stop k n v)"
proof -
  have "k < n" "n \<le> length (buf v)" using assms(1) by (auto simp: overlap_range_def)
  moreover have "length (left_over (buf v) start stop k n) \<le> n - k"
    using \<open>k < n\<close> by (auto simp: left_over_def)
  ultimately show ?thesis
    using assms(3) by (simp add: fits_def cut_range_vsize cut_range_buf [OF assms(1,2)])
qed

lemma remove_vm_area_removed:
  assumes "sorted_areas (buf v)" "start < stop" "remove_vm_area opts v start stop p = (r, w)"
  shows "sorted_areas (buf w)" "pcs (buf w) = pcs (buf v) - {start..<stop}" "r \<longleftrightarrow> pcs (buf v) \<inter> {start..<stop} \<noteq> {}"
    "sizes_ok opts \<Longrightarrow> fits v \<Longrightarrow> fits w"
proof -
  have "sorted_areas (buf w) \<and> pcs (buf w) = pcs (buf v) - {start..<stop} \<and> (r \<longleftrightarrow> pcs (buf v) \<inter> {start..<stop} \<noteq> {})
      \<and> (sizes_ok opts \<and> fits v \<longrightarrow> fits w)"
  proof (cases "find_overlap (buf v) 0 start stop None")
    case None
    then show ?thesis using assms find_overlap_start [OF assms(1,2)] by (auto simp: remove_vm_area_cases)
  next
    case (Some kn)
    obtain k n where kn: "kn = (k, n)" by (cases kn)
    have range: "overlap_range (buf v) start stop k n" using find_overlap_start [OF assms(1,2)] Some kn by simp
    have "overlaps start stop (buf v ! k)" "k < length (buf v)" using range by (auto simp: overlap_range_def)
    then have "max start (va_start (buf v ! k)) \<in> pcs (buf v) \<inter> {start..<stop}"
      using assms(2) sorted_areas_nonempty [OF assms(1), of k] by (auto simp: pcs_iff overlaps_def max_def intro!: exI [of _ k])
    then have hit: "pcs (buf v) \<inter> {start..<stop} \<noteq> {}" by blast
    note cut = cut_range_removes [OF assms(1) range assms(2), of opts p]
    note fit = cut_range_fits [OF range assms(2), of opts p]
    show ?thesis
    proof (cases "split_off (buf v) start stop k n")
      case True
      then have stop: "stop < va_end (buf v ! k)" unfolding split_off_def by blast
      obtain fl ff data where "(r, w) = (True, add_vm_area opts (cut_range opts p start stop k n v) stop (va_end (buf v ! k)) fl ff data)"
        unfolding assms(3) [symmetric] remove_vm_area_cases using Some kn True by simp
      then have r: r and "added opts 0 stop (va_end (buf v ! k)) (cut_range opts p start stop k n v) w"
        using add_vm_area_added [OF cut(1) stop] by simp_all
      then show ?thesis using hit cut(2) True fit unfolding added_def by simp
    next
      case False
      then have "(r, w) = (True, cut_range opts p start stop k n v)"
        unfolding assms(3) [symmetric] remove_vm_area_cases using Some kn by simp
      then show ?thesis using hit cut False fit by simp
    qed
  qed
  then show "sorted_areas (buf w)" "pcs (buf w) = pcs (buf v) - {start..<stop}" "r \<longleftrightarrow> pcs (buf v) \<inter> {start..<stop} \<noteq> {}"
    "sizes_ok opts \<Longrightarrow> fits v \<Longrightarrow> fits w" by blast+
qed

section \<open>Searching a sorted vector\<close>

text \<open>An area that the searched range hits; the end 0 is the end of the address space.\<close>

definition hit :: "app_pc \<Rightarrow> app_pc \<Rightarrow> 'p vm_area \<Rightarrow> bool" where
  "hit start stop b \<longleftrightarrow> start \<noteq> stop \<and> start < va_end b \<and> (stop = 0 \<or> va_start b < stop)"

text \<open>An area behind the range.\<close>

definition beyond :: "app_pc \<Rightarrow> 'p vm_area \<Rightarrow> bool" where
  "beyond stop b \<longleftrightarrow> stop \<noteq> 0 \<and> stop \<le> va_start b"

lemma hit_iff: "hit start stop b \<longleftrightarrow> \<not> beyond stop b \<and> \<not> (va_end b \<le> start \<or> start = stop)"
  by (auto simp: hit_def beyond_def not_le)

text \<open>The invariant of the loop: the areas below \<open>mn\<close> lie before the range, those above \<open>mx\<close> behind it.\<close>

definition searching :: "'p vm_area list \<Rightarrow> app_pc \<Rightarrow> app_pc \<Rightarrow> int \<Rightarrow> int \<Rightarrow> bool" where
  "searching bs start stop mn mx \<longleftrightarrow> 0 \<le> mn \<and> mn \<le> mx + 1 \<and> mx < int (length bs)
     \<and> (\<forall>j < length bs. int j < mn \<longrightarrow> va_end (bs ! j) \<le> start \<or> start = stop)
     \<and> (\<forall>j < length bs. mx < int j \<longrightarrow> beyond stop (bs ! j))"

text \<open>What the search promises: an area that is hit, or the last index whose area lies before the range.\<close>

definition search_result :: "'p vm_area list \<Rightarrow> app_pc \<Rightarrow> app_pc \<Rightarrow> bool \<Rightarrow> search \<Rightarrow> bool" where
  "search_result bs start stop first r \<longleftrightarrow>
     (case r of
        Found i \<Rightarrow> i < length bs \<and> hit start stop (bs ! i) \<and> (first \<longrightarrow> (\<forall>j < i. va_end (bs ! j) \<le> start))
      | Missing k \<Rightarrow> - 1 \<le> k \<and> k < int (length bs) \<and> (\<forall>b \<in> set bs. \<not> hit start stop b)
          \<and> (start \<noteq> stop \<longrightarrow> (\<forall>j < length bs. if int j \<le> k then va_end (bs ! j) \<le> start else beyond stop (bs ! j))))"

lemma first_match_spec:
  assumes "sorted_areas bs" "i < length bs" "hit start stop (bs ! i)"
  shows "first_match bs start i \<le> i \<and> hit start stop (bs ! first_match bs start i)
    \<and> (\<forall>j < first_match bs start i. va_end (bs ! j) \<le> start)"
  using assms(2,3)
proof (induction i)
  case (Suc i)
  have less: "va_end (bs ! j) \<le> va_end (bs ! i)" if "j \<le> i" for j using sorted_areas_mono(2) [OF assms(1) that] Suc.prems by simp
  have "va_start (bs ! i) \<le> va_start (bs ! Suc i)" using sorted_areas_mono(1) [OF assms(1), of i "Suc i"] Suc.prems by simp
  then have hit: "start < va_end (bs ! i) \<Longrightarrow> hit start stop (bs ! i)" using Suc.prems(2) by (auto simp: hit_def)
  show ?case
  proof (cases "start < va_end (bs ! i)")
    case True
    then show ?thesis using Suc.IH Suc.prems hit by simp
  next
    case False
    then have "\<forall>j < Suc i. va_end (bs ! j) \<le> start" using less by (auto simp: less_Suc_eq_le not_less intro: order_trans)
    then show ?thesis using False Suc.prems by simp
  qed
qed simp

lemma search_loop_step:
  assumes "mn \<le> mx" "i = (mn + mx) div 2"
  shows "beyond stop (bs ! nat i) \<Longrightarrow> search_loop bs start stop first mn mx = search_loop bs start stop first mn (i - 1)"
    "\<not> beyond stop (bs ! nat i) \<Longrightarrow> va_end (bs ! nat i) \<le> start \<or> start = stop \<Longrightarrow>
       search_loop bs start stop first mn mx = search_loop bs start stop first (i + 1) mx"
    "hit start stop (bs ! nat i) \<Longrightarrow>
       search_loop bs start stop first mn mx = Found (if first then first_match bs start (nat i) else nat i)"
proof -
  have "search_loop bs start stop first mn mx =
      (if beyond stop (bs ! nat i) then search_loop bs start stop first mn (i - 1)
       else if va_end (bs ! nat i) \<le> start \<or> start = stop then search_loop bs start stop first (i + 1) mx
       else Found (if first then first_match bs start (nat i) else nat i))"
    unfolding search_loop.simps [of bs start stop first mn mx] Let_def assms(2) [symmetric] beyond_def using assms(1) by auto
  then show "beyond stop (bs ! nat i) \<Longrightarrow> search_loop bs start stop first mn mx = search_loop bs start stop first mn (i - 1)"
    "\<not> beyond stop (bs ! nat i) \<Longrightarrow> va_end (bs ! nat i) \<le> start \<or> start = stop \<Longrightarrow>
       search_loop bs start stop first mn mx = search_loop bs start stop first (i + 1) mx"
    "hit start stop (bs ! nat i) \<Longrightarrow>
       search_loop bs start stop first mn mx = Found (if first then first_match bs start (nat i) else nat i)"
    by (simp_all add: hit_iff)
qed

lemma search_loop_spec:
  assumes "sorted_areas bs" "searching bs start stop mn mx"
  shows "search_result bs start stop first (search_loop bs start stop first mn mx)"
  using assms
proof (induction bs start stop first mn mx rule: search_loop.induct)
  case (1 bs start stop first mn mx)
  note inv = "1.prems"(2) [unfolded searching_def]
  show ?case
  proof (cases "mx < mn")
    case True
    then have "mn = mx + 1" using inv by linarith
    then have parts: "\<And>j. j < length bs \<Longrightarrow> int j \<le> mx \<Longrightarrow> va_end (bs ! j) \<le> start \<or> start = stop"
        "\<And>j. j < length bs \<Longrightarrow> \<not> int j \<le> mx \<Longrightarrow> beyond stop (bs ! j)"
      using inv by auto
    have "\<not> hit start stop (bs ! j)" if "j < length bs" for j
      using parts [OF that] by (cases "int j \<le> mx") (auto simp: hit_iff)
    then have "\<not> hit start stop b" if "b \<in> set bs" for b using that by (auto simp: in_set_conv_nth)
    moreover have "search_loop bs start stop first mn mx = Missing mx" using True by (subst search_loop.simps) simp
    ultimately show ?thesis using inv \<open>mn = mx + 1\<close> parts by (auto simp: search_result_def)
  next
    case False
    then have le: "mn \<le> mx" by simp
    define i where "i = (mn + mx) div 2"
    have i: "mn \<le> i" "i \<le> mx" "nat i < length bs" "int (nat i) = i" using False inv by (auto simp: i_def)
    consider "beyond stop (bs ! nat i)" | "\<not> beyond stop (bs ! nat i)" "va_end (bs ! nat i) \<le> start \<or> start = stop"
      | "hit start stop (bs ! nat i)" by (auto simp: hit_iff)
    then show ?thesis
    proof cases
      case 1
      have "beyond stop (bs ! j)" if "i \<le> int j" "j < length bs" for j
        using 1 sorted_areas_mono(1) [OF "1.prems"(1), of "nat i" j] that by (auto simp: beyond_def nat_le_iff intro: order_trans)
      then have "searching bs start stop mn (i - 1)" using inv i by (auto simp: searching_def)
      then show ?thesis using "1.IH"(1) [OF False i_def _ "1.prems"(1)] 1
        by (simp only: search_loop_step(1) [OF le i_def 1] beyond_def simp_thms)
    next
      case 2
      have "va_end (bs ! j) \<le> start \<or> start = stop" if "int j \<le> i" "j < length bs" for j
        using 2(2) sorted_areas_mono(2) [OF "1.prems"(1), of j "nat i"] that i by (auto simp: le_nat_iff intro: order_trans)
      then have "searching bs start stop (i + 1) mx" using inv i by (auto simp: searching_def)
      then show ?thesis using "1.IH"(2) [OF False i_def _ _ "1.prems"(1)] 2
        by (simp only: search_loop_step(2) [OF le i_def 2] beyond_def simp_thms)
    next
      case 3
      show ?thesis using first_match_spec [OF "1.prems"(1) i(3) 3] 3 i(3)
        by (simp add: search_loop_step(3) [OF le i_def 3] search_result_def)
    qed
  qed
qed

lemma binary_search_spec:
  assumes "sorted_areas (buf v)"
  shows "search_result (buf v) start stop first (binary_search v start stop first)"
  unfolding binary_search_def by (rule search_loop_spec [OF assms]) (simp add: searching_def)

end
