(* ===== verification/Vmvector.thy ===== *)
theory Vmvector
  imports Vmareas_Search
begin

text \<open>
  The contracts of the interface \<open>vmvector_*\<close> and that the model of \<open>core/vmareas.c\<close> meets them.
  Every vector is a set of addresses (\<open>address_set\<close>): adding and removing ranges and asking for an
  overlap are the set operations, whatever the callbacks do. A vector that never merges adjacent areas is a map
  from addresses to payloads (\<open>range_map\<close>), as the code cache units, the loaded modules and the patch
  points use it. The other lemmas are the type invariant of a vector under all its operations, the iterator, the
  removal of DynamoRIO's own heap areas, and what happens to payloads when areas are merged.
\<close>

section \<open>Looking up\<close>

lemma area_unique:
  assumes "sorted_areas bs" "a \<in> set bs" "b \<in> set bs" "pc \<in> area_pcs a" "pc \<in> area_pcs b"
  shows "a = b"
proof -
  obtain i j where ij: "i < length bs" "bs ! i = a" "j < length bs" "bs ! j = b" using assms(2,3) by (auto simp: in_set_conv_nth)
  have "\<not> i < j" "\<not> j < i" using ij assms(4,5) sorted_areas_nth [OF assms(1), of i j] sorted_areas_nth [OF assms(1), of j i]
    by (auto simp: area_pcs_def)
  then show ?thesis using ij by (metis linorder_neqE_nat)
qed

lemma less_plus_one: "(x :: 64 word) < y + 1 \<longleftrightarrow> x \<le> y" if "y + 1 \<noteq> 0"
  using that unatSuc [of y] by (simp add: word_less_nat_alt word_le_nat_alt less_Suc_eq_le add.commute)

lemma hit_point: "hit pc (pc + 1) b \<longleftrightarrow> pc \<in> area_pcs b"
proof (cases "pc + 1 = 0")
  case True
  then have "pc = - 1" by (simp add: eq_neg_iff_add_eq_0)
  then have "\<not> pc < va_end b" by (simp add: not_less)
  then show ?thesis by (simp add: hit_def area_pcs_def)
next
  case False
  then show ?thesis using less_plus_one [OF False] by (auto simp: hit_def area_pcs_def)
qed

lemma lookup_addr_iff:
  assumes "sorted_areas (buf v)"
  shows "lookup_addr v pc = Some a \<longleftrightarrow> a \<in> set (buf v) \<and> pc \<in> area_pcs a"
proof (cases "binary_search v pc (pc + 1) False")
  case (Found i)
  then have "buf v ! i \<in> set (buf v)" "pc \<in> area_pcs (buf v ! i)"
    using binary_search_spec [OF assms, of pc "pc + 1" False] by (simp_all add: search_result_def hit_point)
  then show ?thesis using Found area_unique [OF assms] unfolding lookup_addr_def by (simp only: search.case option.inject) blast
next
  case (Missing k)
  then have "\<forall>b \<in> set (buf v). \<not> hit pc (pc + 1) b"
    using binary_search_spec [OF assms, of pc "pc + 1" False] by (simp add: search_result_def)
  then show ?thesis using Missing by (simp add: lookup_addr_def hit_point)
qed

lemma lookup_addr_None: "sorted_areas (buf v) \<Longrightarrow> lookup_addr v pc = None \<longleftrightarrow> pc \<notin> pcs (buf v)"
  using lookup_addr_iff [of v pc] by (cases "lookup_addr v pc") (auto simp: pcs_def)

lemma vmvector_lookup_iff:
  assumes "sorted_areas (buf v)"
  shows "vmvector_lookup v pc = Some d \<longleftrightarrow> (\<exists>a \<in> set (buf v). pc \<in> area_pcs a \<and> client a = d)"
  using lookup_addr_iff [OF assms, of pc] by (auto simp: vmvector_lookup_def vmvector_lookup_data_def)

lemma vmvector_lookup_None: "sorted_areas (buf v) \<Longrightarrow> vmvector_lookup v pc = None \<longleftrightarrow> pc \<notin> pcs (buf v)"
  by (simp add: vmvector_lookup_def vmvector_lookup_data_def lookup_addr_None)

text \<open>Two vectors with the same payload at an address look the same there.\<close>

lemma vmvector_lookup_cong:
  assumes "sorted_areas (buf v)" "sorted_areas (buf w)"
    and "\<And>d. (\<exists>a \<in> set (buf w). pc \<in> area_pcs a \<and> client a = d) \<longleftrightarrow> (\<exists>a \<in> set (buf v). pc \<in> area_pcs a \<and> client a = d)"
  shows "vmvector_lookup w pc = vmvector_lookup v pc"
proof -
  have "vmvector_lookup w pc = Some d \<longleftrightarrow> vmvector_lookup v pc = Some d" for d
    by (simp only: vmvector_lookup_iff [OF assms(1)] vmvector_lookup_iff [OF assms(2)] assms(3))
  then show ?thesis by (metis option.exhaust)
qed

lemma vmvector_overlap_iff:
  assumes "sorted_areas (buf v)" "start < stop"
  shows "vmvector_overlap v start stop \<longleftrightarrow> pcs (buf v) \<inter> {start..<stop} \<noteq> {}"
proof -
  have "0 < stop" using assms(2) by (rule le_less_trans [rotated]) simp
  have hit: "hit start stop b \<longleftrightarrow> area_pcs b \<inter> {start..<stop} \<noteq> {}" if "b \<in> set (buf v)" for b
  proof -
    have "va_start b < va_end b" using that assms(1) by (auto simp: sorted_areas_def list_all_iff)
    then have "area_pcs b \<inter> {start..<stop} \<noteq> {} \<longleftrightarrow> start < va_end b \<and> va_start b < stop"
      using assms(2) by (simp add: area_pcs_def)
    then show ?thesis using assms(2) \<open>0 < stop\<close> by (auto simp: hit_def)
  qed
  have "vm_area_overlap v start stop \<longleftrightarrow> (\<exists>b \<in> set (buf v). hit start stop b)"
  proof (cases "binary_search v start stop False")
    case (Found i)
    then have "buf v ! i \<in> set (buf v)" "hit start stop (buf v ! i)"
      using binary_search_spec [OF assms(1), of start stop False] by (simp_all add: search_result_def)
    then show ?thesis using Found unfolding vm_area_overlap_def by (simp only: search.case) blast
  next
    case (Missing k)
    then show ?thesis
      using binary_search_spec [OF assms(1), of start stop False] by (simp add: vm_area_overlap_def search_result_def)
  qed
  then have "vm_area_overlap v start stop \<longleftrightarrow> (\<exists>b \<in> set (buf v). area_pcs b \<inter> {start..<stop} \<noteq> {})" using hit by blast
  then show ?thesis by (auto simp: vmvector_overlap_def vmvector_empty_def pcs_def)
qed

section \<open>The type invariant\<close>

text \<open>The operations that change a vector, with their arguments.\<close>

datatype 'p vmvector_op =
    Op_add app_pc app_pc 'p
  | Op_add_replace app_pc app_pc 'p
  | Op_remove app_pc app_pc
  | Op_remove_containing_area app_pc
  | Op_modify_data app_pc app_pc 'p
  | Op_reset_vector
  | Op_add_heap_area app_pc app_pc bool bool 'p
  | Op_remove_heap_areas

fun vmvector_step :: "vm_options \<Rightarrow> 'p vmvector_op \<Rightarrow> 'p vm_area_vector \<Rightarrow> 'p vm_area_vector" where
  "vmvector_step opts (Op_add start stop d) v = vmvector_add opts v start stop d"
| "vmvector_step opts (Op_add_replace start stop d) v = snd (vmvector_add_replace opts v start stop d)"
| "vmvector_step opts (Op_remove start stop) v = snd (vmvector_remove opts v start stop)"
| "vmvector_step opts (Op_remove_containing_area pc) v = snd (vmvector_remove_containing_area opts v pc)"
| "vmvector_step opts (Op_modify_data start stop d) v = snd (vmvector_modify_data v start stop d)"
| "vmvector_step opts Op_reset_vector v = vmvector_reset_vector v"
| "vmvector_step opts (Op_add_heap_area start stop w m d) v = add_dynamo_heap_vm_area opts v start stop w m d"
| "vmvector_step opts Op_remove_heap_areas v = remove_dynamo_heap_areas opts v"

text \<open>The callers' part: a range that is added or removed is not empty.\<close>

fun range_ok :: "'p vmvector_op \<Rightarrow> bool" where
  "range_ok (Op_add start stop d) \<longleftrightarrow> start < stop"
| "range_ok (Op_add_replace start stop d) \<longleftrightarrow> start < stop"
| "range_ok (Op_remove start stop) \<longleftrightarrow> start < stop"
| "range_ok (Op_add_heap_area start stop w m d) \<longleftrightarrow> start < stop"
| "range_ok _ \<longleftrightarrow> True"

lemma found_well_formed:
  assumes "well_formed v" "binary_search v start stop first = Found i"
  shows "well_formed (set_client i d v)"
proof -
  have "sorted_areas (buf v)" "fits v" using assms(1) by (simp_all add: well_formed_def)
  moreover from this have "i < length (buf v)"
    using assms(2) binary_search_spec [of v start stop first] by (simp add: search_result_def)
  ultimately show ?thesis by (simp add: set_client_def well_formed_def fits_def sorted_areas_update)
qed

lemma add_vm_area_well_formed:
  "sizes_ok opts \<Longrightarrow> well_formed v \<Longrightarrow> start < stop \<Longrightarrow> well_formed (add_vm_area opts v start stop vmf ff d)"
  using add_vm_area_added [of v start stop opts vmf ff d] by (simp add: well_formed_def added_def)

lemma remove_vm_area_well_formed:
  assumes "sizes_ok opts" "well_formed v" "start < stop"
  shows "well_formed (snd (remove_vm_area opts v start stop p))"
  using assms remove_vm_area_removed [of v start stop opts p] by (cases "remove_vm_area opts v start stop p") (auto simp: well_formed_def)

lemma reset_well_formed: "well_formed (vmvector_reset_vector v)"
  by (simp add: well_formed_def fits_def vmvector_reset_vector_def)

text \<open>Removing the bounds of an area removes just that area.\<close>

lemma find_exact:
  assumes "sorted_areas bs" "i < length bs"
  shows "find_overlap bs 0 (va_start (bs ! i)) (va_end (bs ! i)) None = Some (i, Suc i)"
proof -
  let ?s = "va_start (bs ! i)" and ?e = "va_end (bs ! i)"
  have se: "?s < ?e" using sorted_areas_nonempty assms by blast
  have apart: "\<not> overlaps ?s ?e (bs ! j)" if "j \<noteq> i" "j < length bs" for j
    using that assms sorted_areas_nth [of bs i j] sorted_areas_nth [of bs j i] by (cases "i < j") (auto simp: overlaps_def)
  have "?s \<in> pcs bs \<inter> {?s..<?e}" using se assms(2) by (auto simp: pcs_iff)
  then obtain k n where kn: "find_overlap bs 0 ?s ?e None = Some (k, n)" "overlap_range bs ?s ?e k n"
    using find_overlap_start [OF assms(1) se] by (auto split: option.splits)
  then have "k < n" "k < length bs" "n - 1 < length bs" "overlaps ?s ?e (bs ! k)" "overlaps ?s ?e (bs ! (n - 1))"
    by (auto simp: overlap_range_def)
  then have "k = i" "n - 1 = i" "k < n" using apart by blast+
  then show ?thesis using kn(1) by auto
qed

lemma remove_exact:
  assumes "sorted_areas (buf v)" "i < length (buf v)"
  shows "buf (snd (remove_vm_area opts v (va_start (buf v ! i)) (va_end (buf v ! i)) p)) = take i (buf v) @ drop (Suc i) (buf v)"
proof -
  let ?s = "va_start (buf v ! i)" and ?e = "va_end (buf v ! i)"
  have "overlap_range (buf v) ?s ?e i (Suc i)"
    using find_overlap_start [OF assms(1), of ?s ?e] find_exact [OF assms] sorted_areas_nonempty [OF assms] by simp
  then show ?thesis
    using find_exact [OF assms] cut_range_buf [of v ?s ?e i "Suc i" opts p] sorted_areas_nonempty [OF assms]
    by (simp add: remove_vm_area_cases split_off_def left_over_def)
qed

text \<open>The loop from the end keeps its place, since a removal moves only the areas behind.\<close>

lemma remove_heap_loop_spec:
  assumes "well_formed v" "sizes_ok opts" "i \<le> length (buf v)"
  shows "well_formed (remove_heap_loop opts i v)
    \<and> buf (remove_heap_loop opts i v) = filter (\<lambda>a. \<not> TEST VM_DR_HEAP (vm_flags a)) (take i (buf v)) @ drop i (buf v)"
  using assms
proof (induction i arbitrary: v)
  case (Suc i)
  let ?w = "snd (remove_vm_area opts v (va_start (buf v ! i)) (va_end (buf v ! i)) False)"
  have i: "sorted_areas (buf v)" "i < length (buf v)" using Suc.prems by (simp_all add: well_formed_def)
  have w: "buf ?w = take i (buf v) @ drop (Suc i) (buf v)" by (rule remove_exact [OF i])
  have "well_formed ?w" using remove_vm_area_well_formed [OF Suc.prems(2,1)] sorted_areas_nonempty [OF i] by blast
  moreover have "take i (buf ?w) = take i (buf v)" "drop i (buf ?w) = drop (Suc i) (buf v)" "i \<le> length (buf ?w)"
    using i(2) by (simp_all add: w)
  ultimately show ?case
    using Suc.IH [of ?w] Suc.IH [of v] Suc.prems(1,2) i(2)
    by (cases "TEST VM_DR_HEAP (vm_flags (buf v ! i))") (simp_all add: take_Suc_conv_app_nth Cons_nth_drop_Suc)
qed simp

lemma vmvector_step_well_formed:
  assumes "sizes_ok opts" "well_formed v" "range_ok oper"
  shows "well_formed (vmvector_step opts oper v)"
proof (cases oper)
  case (Op_add_replace start stop d)
  then show ?thesis
    using assms(3) add_vm_area_well_formed [OF assms(1,2), of start stop] found_well_formed [OF assms(2), of start "start + 1" False]
    by (cases "binary_search v start (start + 1) False") (simp_all add: vmvector_add_replace_def)
next
  case (Op_remove_containing_area pc)
  show ?thesis
  proof (cases "lookup_addr v pc")
    case (Some a)
    then have "va_start a < va_end a"
      using assms(2) lookup_addr_iff [of v pc a] by (auto simp: well_formed_def area_pcs_def intro: le_less_trans)
    then show ?thesis
      using Op_remove_containing_area Some remove_vm_area_well_formed [OF assms(1,2)] by (simp add: vmvector_remove_containing_area_def)
  next
    case None
    then show ?thesis using Op_remove_containing_area assms(2) by (simp add: vmvector_remove_containing_area_def)
  qed
next
  case (Op_modify_data start stop d)
  then show ?thesis
    using assms(2) found_well_formed [OF assms(2), of start "start + 1" False]
    by (cases "binary_search v start (start + 1) False") (simp_all add: vmvector_modify_data_def)
next
  case Op_remove_heap_areas
  then show ?thesis using remove_heap_loop_spec [OF assms(2,1) order_refl] by (simp add: remove_dynamo_heap_areas_def)
qed (use assms in \<open>simp_all add: vmvector_add_def add_dynamo_heap_vm_area_def vmvector_remove_def
  add_vm_area_well_formed remove_vm_area_well_formed reset_well_formed\<close>)

section \<open>The contracts\<close>

text \<open>Ranges put into a collection and taken out of it, and what that means for one address.\<close>

datatype ('a, 'd) range_op = Add_Range 'a 'a 'd | Remove_Range 'a 'a

fun nonempty_range :: "('a :: linorder, 'd) range_op \<Rightarrow> bool" where
  "nonempty_range (Add_Range a b d) \<longleftrightarrow> a < b"
| "nonempty_range (Remove_Range a b) \<longleftrightarrow> a < b"

fun range_step :: "('a \<Rightarrow> 'a \<Rightarrow> 'd \<Rightarrow> 's \<Rightarrow> 's) \<Rightarrow> ('a \<Rightarrow> 'a \<Rightarrow> 's \<Rightarrow> bool \<times> 's) \<Rightarrow> ('a, 'd) range_op \<Rightarrow> 's \<Rightarrow> 's" where
  "range_step add remove (Add_Range a b d) s = add a b d s"
| "range_step add remove (Remove_Range a b) s = snd (remove a b s)"

fun covers :: "'a :: linorder \<Rightarrow> ('a, 'd) range_op \<Rightarrow> bool \<Rightarrow> bool" where
  "covers pc (Add_Range a b d) c \<longleftrightarrow> c \<or> a \<le> pc \<and> pc < b"
| "covers pc (Remove_Range a b) c \<longleftrightarrow> c \<and> \<not> (a \<le> pc \<and> pc < b)"

fun payload :: "'a :: linorder \<Rightarrow> ('a, 'd) range_op \<Rightarrow> 'd option \<Rightarrow> 'd option" where
  "payload pc (Add_Range a b d) x = (if a \<le> pc \<and> pc < b then Some d else x)"
| "payload pc (Remove_Range a b) x = (if a \<le> pc \<and> pc < b then None else x)"

text \<open>Every added range is free when it is added.\<close>

fun free_ranges :: "('a :: linorder \<Rightarrow> 'd option) \<Rightarrow> ('a, 'd) range_op list \<Rightarrow> bool" where
  "free_ranges m [] \<longleftrightarrow> True"
| "free_ranges m (Remove_Range a b # ops) \<longleftrightarrow> free_ranges (\<lambda>pc. payload pc (Remove_Range a b) (m pc)) ops"
| "free_ranges m (Add_Range a b d # ops) \<longleftrightarrow>
     (\<forall>pc. a \<le> pc \<and> pc < b \<longrightarrow> m pc = None) \<and> free_ranges (\<lambda>pc. payload pc (Add_Range a b d) (m pc)) ops"

locale address_set =
  fixes inv :: "'s \<Rightarrow> bool" and addrs :: "'s \<Rightarrow> 'a :: linorder set"
    and add :: "'a \<Rightarrow> 'a \<Rightarrow> 'd \<Rightarrow> 's \<Rightarrow> 's" and remove :: "'a \<Rightarrow> 'a \<Rightarrow> 's \<Rightarrow> bool \<times> 's"
    and overlap :: "'s \<Rightarrow> 'a \<Rightarrow> 'a \<Rightarrow> bool"
  assumes inv_add: "inv s \<Longrightarrow> a < b \<Longrightarrow> inv (add a b d s)"
    and addrs_add: "inv s \<Longrightarrow> a < b \<Longrightarrow> addrs (add a b d s) = addrs s \<union> {a..<b}"
    and inv_remove: "inv s \<Longrightarrow> a < b \<Longrightarrow> inv (snd (remove a b s))"
    and addrs_remove: "inv s \<Longrightarrow> a < b \<Longrightarrow> addrs (snd (remove a b s)) = addrs s - {a..<b}"
    and removed: "inv s \<Longrightarrow> a < b \<Longrightarrow> fst (remove a b s) \<longleftrightarrow> addrs s \<inter> {a..<b} \<noteq> {}"
    and overlap_iff: "inv s \<Longrightarrow> a < b \<Longrightarrow> overlap s a b \<longleftrightarrow> addrs s \<inter> {a..<b} \<noteq> {}"
begin

lemma inv_step: "inv s \<Longrightarrow> nonempty_range op \<Longrightarrow> inv (range_step add remove op s)"
  by (cases op) (simp_all add: inv_add inv_remove)

lemma step_addrs: "inv s \<Longrightarrow> nonempty_range op \<Longrightarrow> pc \<in> addrs (range_step add remove op s) \<longleftrightarrow> covers pc op (pc \<in> addrs s)"
  by (cases op) (auto simp: addrs_add addrs_remove)

lemma inv_run: "inv s \<Longrightarrow> list_all nonempty_range ops \<Longrightarrow> inv (fold (range_step add remove) ops s)"
  by (induction ops arbitrary: s) (simp_all add: inv_step)

lemma run_addrs:
  "inv s \<Longrightarrow> list_all nonempty_range ops \<Longrightarrow>
     pc \<in> addrs (fold (range_step add remove) ops s) \<longleftrightarrow> fold (covers pc) ops (pc \<in> addrs s)"
  by (induction ops arbitrary: s) (simp_all add: inv_step step_addrs)

lemma run_overlap:
  assumes "inv s" "list_all nonempty_range ops" "a < b"
  shows "overlap (fold (range_step add remove) ops s) a b \<longleftrightarrow> (\<exists>pc. a \<le> pc \<and> pc < b \<and> fold (covers pc) ops (pc \<in> addrs s))"
  using assms run_addrs [OF assms(1,2)] by (auto simp: overlap_iff inv_run)

end

locale range_map = address_set inv addrs add remove overlap
  for inv :: "'s \<Rightarrow> bool" and addrs :: "'s \<Rightarrow> 'a :: linorder set" and add :: "'a \<Rightarrow> 'a \<Rightarrow> 'd \<Rightarrow> 's \<Rightarrow> 's"
    and remove :: "'a \<Rightarrow> 'a \<Rightarrow> 's \<Rightarrow> bool \<times> 's" and overlap :: "'s \<Rightarrow> 'a \<Rightarrow> 'a \<Rightarrow> bool" +
  fixes lookup :: "'s \<Rightarrow> 'a \<Rightarrow> 'd option"
  assumes lookup_None: "inv s \<Longrightarrow> lookup s pc = None \<longleftrightarrow> pc \<notin> addrs s"
    and lookup_add: "inv s \<Longrightarrow> a < b \<Longrightarrow> addrs s \<inter> {a..<b} = {} \<Longrightarrow>
      lookup (add a b d s) pc = (if a \<le> pc \<and> pc < b then Some d else lookup s pc)"
    and lookup_remove: "inv s \<Longrightarrow> a < b \<Longrightarrow>
      lookup (snd (remove a b s)) pc = (if a \<le> pc \<and> pc < b then None else lookup s pc)"
begin

lemma run_lookup:
  assumes "inv s" "list_all nonempty_range ops" "free_ranges (lookup s) ops"
  shows "lookup (fold (range_step add remove) ops s) pc = fold (payload pc) ops (lookup s pc)"
  using assms
proof (induction ops arbitrary: s)
  case (Cons op ops)
  have step: "lookup (range_step add remove op s) pc = payload pc op (lookup s pc)" for pc
  proof (cases op)
    case (Add_Range a b d)
    then have "addrs s \<inter> {a..<b} = {}" using Cons.prems lookup_None [OF Cons.prems(1)] by auto
    then show ?thesis using Cons.prems Add_Range by (simp add: lookup_add)
  qed (use Cons.prems in \<open>simp add: lookup_remove\<close>)
  then have "lookup (range_step add remove op s) = (\<lambda>pc. payload pc op (lookup s pc))" by (rule ext)
  then have "free_ranges (lookup (range_step add remove op s)) ops"
    using Cons.prems(3) by (cases op) (simp_all only: free_ranges.simps)
  moreover have "inv (range_step add remove op s)" using Cons.prems inv_step by simp
  ultimately have "lookup (fold (range_step add remove) ops (range_step add remove op s)) pc
      = fold (payload pc) ops (lookup (range_step add remove op s) pc)"
    using Cons.IH Cons.prems(2) by simp
  then show ?case by (simp add: step)
qed simp

lemma remove_add_lookup:
  assumes "inv s" "a < b" "addrs s \<inter> {a..<b} = {}"
  shows "lookup (snd (remove a b (add a b d s))) pc = lookup s pc"
  using assms lookup_None [OF assms(1), of pc] by (auto simp: lookup_remove inv_add lookup_add)

end

section \<open>The model meets the contracts\<close>

text \<open>The flags and callbacks of a vector, which no operation changes.\<close>

definition config :: "'p vm_area_vector \<Rightarrow> uint \<times> bool \<times> ('p \<Rightarrow> 'p) option \<times> (bool \<Rightarrow> 'p \<Rightarrow> 'p \<Rightarrow> bool) option \<times> ('p \<Rightarrow> 'p \<Rightarrow> 'p) option" where
  "config v = (vflags v, free_payload_func v, split_payload_func v, should_merge_func v, merge_payload_func v)"

lemma config_simps [simp]:
  "config (v\<lparr>buf := bs\<rparr>) = config v" "config (v\<lparr>freed := fs\<rparr>) = config v" "config (v\<lparr>vsize := n\<rparr>) = config v"
  "config (v\<lparr>made_writable := ws\<rparr>) = config v"
  by (simp_all add: config_def)

lemma config_eq: "config w = config v \<Longrightarrow> vflags w = vflags v" "config w = config v \<Longrightarrow> split_payload_func w = split_payload_func v"
  by (simp_all add: config_def)

lemma finish_add_config:
  fixes v :: "'p vm_area_vector"
  shows "config (finish_add opts v i start stop vmf ff data os n) = config v"
proof -
  have absorb: "config (absorb k a w) = config w" for k a and w :: "'p vm_area_vector" by (simp add: absorb_def split: option.splits)
  have "config (fold (\<lambda>j w. absorb k (buf w ! j) w) js w) = config w" for k js and w :: "'p vm_area_vector"
    by (induction js arbitrary: w) (simp_all add: absorb)
  moreover have "config (widen w k m start stop data) = config w" for k m and w :: "'p vm_area_vector"
    by (simp add: widen_def Let_def split: option.splits)
  ultimately show ?thesis
    by (auto simp: finish_add_def insert_area_def merge_areas_def vm_area_vector_check_size_def Let_def split: option.splits)
qed

lemma add_scan_config: "config (add_scan opts v i start stop vmf ff data os) = config v"
proof (induction opts v i start stop vmf ff data os rule: add_scan.induct)
  case (1 opts v i start stop vmf ff data os)
  define b1 where "b1 = drop_flags vmf (buf v ! i)"
  define v1 where "v1 = v\<lparr>buf := (buf v)[i := b1]\<rparr>"
  define os1 where "os1 = (if os = None then Some i else os)"
  have v1: "config v1 = config v" by (simp add: v1_def)
  consider "length (buf v) \<le> i" | "i < length (buf v)" "\<not> touches v start stop vmf ff data (buf v ! i)"
    | "i < length (buf v)" "touches v start stop vmf ff data (buf v ! i)" by linarith
  then show ?case
  proof cases
    case 1
    then show ?thesis by (simp add: add_scan_past finish_add_config)
  next
    case 2
    then show ?thesis using "1.IH"(5) by (simp add: add_scan_apart finish_add_config)
  next
    case 3
    note step = add_scan_touch [OF 3 b1_def v1_def os1_def]
    note IH = "1.IH"(1-4) [OF _ refl 3(2) refl refl refl, folded b1_def, folded v1_def, folded os1_def]
    consider "\<not> conflicts v vmf ff data b1 \<or> va_start b1 \<le> start \<and> stop \<le> va_end b1"
      | "conflicts v vmf ff data b1" "va_start b1 \<le> start" "va_end b1 < stop" | "conflicts v vmf ff data b1" "start < va_start b1"
      by (meson not_less)
    then show ?thesis
    proof cases
      case 1
      then show ?thesis using IH(3,4) 3(1) step(1) [OF 1] v1 by (cases "conflicts v vmf ff data b1") auto
    next
      case 2
      then show ?thesis using IH(2) 3(1) step(2) [OF 2] v1 by simp
    next
      case front: 3
      then show ?thesis using IH(1) 3(1) v1 unfolding step(3) [OF front] Let_def finish_add_config by simp
    qed
  qed
qed

lemma cut_config:
  fixes v :: "'p vm_area_vector"
  shows "config (cut_range opts p start stop k n v) = config v"
proof -
  have r: "config (restore_range opts p a x y w) = config w" for a x y and w :: "'p vm_area_vector"
    by (simp add: restore_range_def vm_make_writable_def Let_def)
  have d: "config (delete_area opts p a w) = config w" for a and w :: "'p vm_area_vector" by (simp add: delete_area_def Let_def r)
  have "config (fold (\<lambda>j. delete_area opts p (f j)) js w) = config w" for f and js :: "nat list" and w :: "'p vm_area_vector"
    by (induction js arbitrary: w) (simp_all add: d)
  then show ?thesis by (simp add: cut_range_def cut_front_def cut_back_def delete_areas_def Let_def r)
qed

lemma remove_vm_area_config: "config (snd (remove_vm_area opts v start stop p)) = config v"
  by (simp add: remove_vm_area_cases add_vm_area_def add_scan_config cut_config split: option.splits prod.splits)

text \<open>An area that touches none is inserted as it is.\<close>

lemma add_scan_free:
  assumes "i \<le> length (buf v)" "\<forall>b \<in> set (buf v). \<not> touches v start stop vmf ff data b"
  shows "\<exists>k \<le> length (buf v). add_scan opts v i start stop vmf ff data None =
    insert_area opts v k \<lparr>va_start = start, va_end = stop, vm_flags = vmf, frag_flags = ff, client = data\<rparr>"
  using assms
proof (induction "length (buf v) - i" arbitrary: i)
  case 0
  then show ?case by (intro exI [of _ i]) (simp add: add_scan_past finish_add_def)
next
  case (Suc n)
  then have i: "i < length (buf v)" "\<not> touches v start stop vmf ff data (buf v ! i)" by auto
  show ?case
  proof (cases "stop \<le> va_start (buf v ! i)")
    case True
    then show ?thesis using i by (intro exI [of _ i]) (simp add: add_scan_apart finish_add_def)
  next
    case False
    then show ?thesis using Suc.hyps(1) [of "Suc i"] Suc.hyps(2) Suc.prems i by (simp add: add_scan_apart)
  qed
qed

lemma add_vm_area_free:
  assumes "\<forall>b \<in> set (buf v). \<not> touches v start stop vmf ff data b"
  shows "set (buf (add_vm_area opts v start stop vmf ff data)) =
    insert \<lparr>va_start = start, va_end = stop, vm_flags = vmf, frag_flags = ff, client = data\<rparr> (set (buf v))"
proof -
  obtain k where "add_vm_area opts v start stop vmf ff data =
      insert_area opts v k \<lparr>va_start = start, va_end = stop, vm_flags = vmf, frag_flags = ff, client = data\<rparr>"
    using add_scan_free [OF le0 assms] unfolding add_vm_area_def by blast
  moreover have "set (take k (buf v)) \<union> set (drop k (buf v)) = set (buf v)" by (metis set_append append_take_drop_id)
  ultimately show ?thesis by (auto simp: insert_area_def Let_def)
qed

text \<open>A vector that keeps adjacent areas apart.\<close>

definition never_merge :: "'p vm_area_vector \<Rightarrow> bool" where
  "never_merge v \<longleftrightarrow> TEST VECTOR_NEVER_MERGE_ADJACENT (vflags v) \<and> split_payload_func v = None"

lemma never_merge_config: "config w = config v \<Longrightarrow> never_merge w \<longleftrightarrow> never_merge v"
  by (simp add: never_merge_def config_def)

lemma never_merge_touches: "never_merge v \<Longrightarrow> touches v start stop vmf ff data b \<longleftrightarrow> overlaps start stop b"
  by (auto simp: never_merge_def touches_def overlaps_def)

lemma overlaps_pcs:
  assumes "start < stop" "sorted_areas bs" "pcs bs \<inter> {start..<stop} = {}" "b \<in> set bs"
  shows "\<not> overlaps start stop b"
proof -
  have "va_start b < va_end b" using assms(2,4) by (auto simp: sorted_areas_def list_all_iff)
  moreover have "area_pcs b \<inter> {start..<stop} = {}" using assms(3,4) by (auto simp: pcs_def)
  ultimately show ?thesis using assms(1) by (simp add: area_pcs_def overlaps_def)
qed

lemma vmvector_add_lookup:
  assumes "sorted_areas (buf v)" "never_merge v" "start < stop" "pcs (buf v) \<inter> {start..<stop} = {}"
  shows "vmvector_lookup (vmvector_add opts v start stop d) pc = (if start \<le> pc \<and> pc < stop then Some d else vmvector_lookup v pc)"
proof -
  let ?w = "vmvector_add opts v start stop d"
  have w: "sorted_areas (buf ?w)" using add_vm_area_added [OF assms(1,3)] by (simp add: vmvector_add_def added_def)
  have set: "set (buf ?w) = insert \<lparr>va_start = start, va_end = stop, vm_flags = 0, frag_flags = 0, client = d\<rparr> (set (buf v))"
    unfolding vmvector_add_def
    by (rule add_vm_area_free) (use assms(2) overlaps_pcs [OF assms(3,1,4)] in \<open>simp add: never_merge_touches\<close>)
  show ?thesis
  proof (cases "start \<le> pc \<and> pc < stop")
    case True
    then show ?thesis using vmvector_lookup_iff [OF w, of pc d] by (auto simp: set area_pcs_def)
  next
    case False
    then have "vmvector_lookup ?w pc = vmvector_lookup v pc"
      by (intro vmvector_lookup_cong [OF assms(1) w]) (auto simp: set area_pcs_def)
    then show ?thesis using False by auto
  qed
qed

text \<open>The payloads outside of a removed range.\<close>

definition payload_at :: "'p vm_area set \<Rightarrow> app_pc \<Rightarrow> 'p \<Rightarrow> bool" where
  "payload_at A pc d \<longleftrightarrow> (\<exists>a \<in> A. pc \<in> area_pcs a \<and> client a = d)"

lemma payload_at_simps [simp]:
  "payload_at (A \<union> B) pc d \<longleftrightarrow> payload_at A pc d \<or> payload_at B pc d" "payload_at {} pc d \<longleftrightarrow> False"
  "payload_at (insert a A) pc d \<longleftrightarrow> pc \<in> area_pcs a \<and> client a = d \<or> payload_at A pc d"
  by (auto simp: payload_at_def)

lemma slice_payload:
  assumes "sorted_areas bs" "overlap_range bs start stop k n" "\<not> (start \<le> pc \<and> pc < stop)"
  shows "payload_at (set (take (n - k) (drop k bs))) pc d \<longleftrightarrow>
    pc < start \<and> va_start (bs ! k) \<le> pc \<and> client (bs ! k) = d \<or>
    stop \<le> pc \<and> pc < va_end (bs ! (n - 1)) \<and> client (bs ! (n - 1)) = d" (is "_ \<longleftrightarrow> ?out")
proof -
  have kn: "k < n" "n \<le> length bs" and over: "\<And>j. k \<le> j \<Longrightarrow> j < n \<Longrightarrow> overlaps start stop (bs ! j)"
    using assms(2) by (auto simp: overlap_range_def)
  have slice: "payload_at (set (take (n - k) (drop k bs))) pc d \<longleftrightarrow> (\<exists>j. k \<le> j \<and> j < n \<and> pc \<in> area_pcs (bs ! j) \<and> client (bs ! j) = d)"
  proof -
    have "a \<in> set (take (n - k) (drop k bs)) \<longleftrightarrow> (\<exists>j. k \<le> j \<and> j < n \<and> a = bs ! j)" for a
    proof
      assume "a \<in> set (take (n - k) (drop k bs))"
      then obtain j where "j < n - k" "a = bs ! (k + j)" using kn by (auto simp: in_set_conv_nth)
      then show "\<exists>j. k \<le> j \<and> j < n \<and> a = bs ! j" by (intro exI [of _ "k + j"]) simp
    next
      assume "\<exists>j. k \<le> j \<and> j < n \<and> a = bs ! j"
      then obtain j where "k \<le> j" "j < n" "a = bs ! j" by blast
      then show "a \<in> set (take (n - k) (drop k bs))" using kn by (auto simp: in_set_conv_nth intro!: exI [of _ "j - k"])
    qed
    then show ?thesis by (auto simp: payload_at_def)
  qed
  have low: "j = k" if "k \<le> j" "j < n" "pc < start" "va_start (bs ! j) \<le> pc" for j
    using that over [of k] kn sorted_areas_nth [OF assms(1), of k j] by (cases "j = k") (auto simp: overlaps_def)
  have high: "j = n - 1" if "k \<le> j" "j < n" "stop \<le> pc" "pc < va_end (bs ! j)" for j
  proof (rule ccontr)
    assume "j \<noteq> n - 1"
    then have "va_end (bs ! j) \<le> va_start (bs ! (n - 1))" using that kn sorted_areas_nth [OF assms(1), of j "n - 1"] by simp
    moreover have "va_start (bs ! (n - 1)) < stop" using over [of "n - 1"] kn by (simp add: overlaps_def)
    ultimately show False using that by auto
  qed
  have "?out" if "k \<le> j" "j < n" "pc \<in> area_pcs (bs ! j)" "client (bs ! j) = d" for j
    using that low [of j] high [of j] assms(3) by (cases "pc < start") (auto simp: area_pcs_def)
  moreover have "\<exists>j. k \<le> j \<and> j < n \<and> pc \<in> area_pcs (bs ! j) \<and> client (bs ! j) = d" if ?out
    using that
  proof
    assume "pc < start \<and> va_start (bs ! k) \<le> pc \<and> client (bs ! k) = d"
    then show ?thesis using over [of k] kn by (intro exI [of _ k]) (auto simp: overlaps_def area_pcs_def)
  next
    assume out: "stop \<le> pc \<and> pc < va_end (bs ! (n - 1)) \<and> client (bs ! (n - 1)) = d"
    have "k \<le> n - 1" "n - 1 < n" using kn by simp_all
    then show ?thesis using over [of "n - 1"] out by (intro exI [of _ "n - 1"]) (auto simp: overlaps_def area_pcs_def)
  qed
  ultimately show ?thesis unfolding slice by blast
qed

lemma left_over_payload:
  assumes "\<not> (start \<le> pc \<and> pc < stop)" "start < stop"
  shows "payload_at (set (left_over bs start stop k n)) pc d
      \<or> split_off bs start stop k n \<and> stop \<le> pc \<and> pc < va_end (bs ! k) \<and> client (bs ! k) = d \<longleftrightarrow>
    pc < start \<and> va_start (bs ! k) \<le> pc \<and> client (bs ! k) = d \<or>
    stop \<le> pc \<and> pc < va_end (bs ! (n - 1)) \<and> client (bs ! (n - 1)) = d"
  using assms by (cases "va_start (bs ! k) < start"; cases "k = n - 1"; cases "stop < va_end (bs ! (n - 1))")
    (auto simp: left_over_def split_off_def area_pcs_def)

lemma remove_set:
  assumes "sorted_areas (buf v)" "never_merge v" "start < stop" "overlap_range (buf v) start stop k n"
    and "find_overlap (buf v) 0 start stop None = Some (k, n)"
  shows "set (buf (snd (remove_vm_area opts v start stop p))) =
    set (take k (buf v)) \<union> set (left_over (buf v) start stop k n) \<union> set (drop n (buf v)) \<union>
    (if split_off (buf v) start stop k n
     then {\<lparr>va_start = stop, va_end = va_end (buf v ! k), vm_flags = vm_flags (buf v ! k) AND NOT VM_ADD_TO_SHARED_DATA,
       frag_flags = frag_flags (buf v ! k) AND NOT FRAG_COARSE_GRAIN, client = client (buf v ! k)\<rparr>} else {})"
proof -
  let ?c = "cut_range opts p start stop k n v"
  have c: "set (buf ?c) = set (take k (buf v)) \<union> set (left_over (buf v) start stop k n) \<union> set (drop n (buf v))"
    by (simp add: cut_range_buf [OF assms(4,3)] Un_assoc)
  have nm: "never_merge ?c" "split_payload_func v = None" using assms(2) never_merge_config [OF cut_config [of opts p start stop k n v]] by (simp_all add: never_merge_def [of v])
  have "\<not> overlaps stop (va_end (buf v ! k)) b" if "b \<in> set (buf ?c)" "split_off (buf v) start stop k n" for b
  proof -
    have "k = n - 1" using that(2) unfolding split_off_def by blast
    then show ?thesis
      using that assms(3) overlap_range_parts(2,3) [OF assms(1,4), of b] unfolding c
      by (auto simp: overlaps_def left_over_def split_off_def split: if_splits)
  qed
  then have "\<forall>b \<in> set (buf ?c). \<not> touches ?c stop (va_end (buf v ! k)) vmf ff data b"
    if "split_off (buf v) start stop k n" for vmf ff data
    using that never_merge_touches [OF nm(1)] by simp
  note add = add_vm_area_free [OF this, where opts = opts]
  show ?thesis
  proof (cases "split_off (buf v) start stop k n")
    case True
    then show ?thesis using assms(5) nm(2) by (simp add: remove_vm_area_cases add c)
  next
    case False
    then show ?thesis using assms(5) by (simp add: remove_vm_area_cases c)
  qed
qed

lemma vmvector_remove_lookup:
  assumes "sorted_areas (buf v)" "never_merge v" "start < stop"
  shows "vmvector_lookup (snd (vmvector_remove opts v start stop)) pc = (if start \<le> pc \<and> pc < stop then None else vmvector_lookup v pc)"
proof -
  let ?w = "snd (vmvector_remove opts v start stop)"
  have w: "sorted_areas (buf ?w)" "pcs (buf ?w) = pcs (buf v) - {start..<stop}"
    using remove_vm_area_removed [OF assms(1,3), of opts False] by (cases "vmvector_remove opts v start stop"; auto simp: vmvector_remove_def)+
  show ?thesis
  proof (cases "start \<le> pc \<and> pc < stop")
    case True
    then show ?thesis using vmvector_lookup_None [OF w(1), of pc] w(2) by simp
  next
    case False
    have "payload_at (set (buf ?w)) pc d \<longleftrightarrow> payload_at (set (buf v)) pc d" for d
    proof (cases "find_overlap (buf v) 0 start stop None")
      case None
      then show ?thesis by (simp add: vmvector_remove_def remove_vm_area_cases)
    next
      case (Some kn)
      then obtain k n where kn: "find_overlap (buf v) 0 start stop None = Some (k, n)" by (cases kn) simp
      then have range: "overlap_range (buf v) start stop k n" using find_overlap_start [OF assms(1,3)] by simp
      have "set (buf v) = set (take k (buf v)) \<union> set (take (n - k) (drop k (buf v))) \<union> set (drop n (buf v))"
        by (metis overlap_range_parts(1) [OF assms(1) range] set_append Un_assoc)
      then have "payload_at (set (buf v)) pc d \<longleftrightarrow> payload_at (set (take k (buf v))) pc d
          \<or> payload_at (set (take (n - k) (drop k (buf v)))) pc d \<or> payload_at (set (drop n (buf v))) pc d"
        by (metis payload_at_simps(1))
      then show ?thesis
        using slice_payload [OF assms(1) range False, of d] left_over_payload [OF False assms(3), of "buf v" k n d]
          remove_set [OF assms range kn, of opts False]
        by (auto simp: vmvector_remove_def area_pcs_def)
    qed
    then have "vmvector_lookup ?w pc = vmvector_lookup v pc"
      by (intro vmvector_lookup_cong [OF assms(1) w(1)]) (simp only: payload_at_def)
    then show ?thesis using False by auto
  qed
qed

text \<open>Every vector is a set of addresses.\<close>

interpretation vset: address_set "\<lambda>v. sorted_areas (buf v)" "\<lambda>v. pcs (buf v)" "\<lambda>start stop d v. vmvector_add opts v start stop d"
  "\<lambda>start stop v. vmvector_remove opts v start stop" vmvector_overlap for opts
proof (unfold_locales, goal_cases)
  case (1 v start stop d)
  then show ?case using add_vm_area_added [of v start stop opts] by (simp add: vmvector_add_def added_def)
next
  case (2 v start stop d)
  then show ?case using add_vm_area_added [of v start stop opts] by (simp add: vmvector_add_def added_def)
next
  case (3 v start stop)
  then show ?case using remove_vm_area_removed(1) [OF 3, of opts False] by (cases "vmvector_remove opts v start stop") (simp add: vmvector_remove_def)
next
  case (4 v start stop)
  then show ?case using remove_vm_area_removed(2) [OF 4, of opts False] by (cases "vmvector_remove opts v start stop") (simp add: vmvector_remove_def)
next
  case (5 v start stop)
  then show ?case using remove_vm_area_removed(3) [OF 5, of opts False] by (cases "vmvector_remove opts v start stop") (simp add: vmvector_remove_def)
qed (rule vmvector_overlap_iff)

text \<open>A vector that keeps adjacent areas apart is a map.\<close>

interpretation vmap: range_map "\<lambda>v. sorted_areas (buf v) \<and> never_merge v" "\<lambda>v. pcs (buf v)" "\<lambda>start stop d v. vmvector_add opts v start stop d"
  "\<lambda>start stop v. vmvector_remove opts v start stop" vmvector_overlap vmvector_lookup for opts
proof (unfold_locales, goal_cases)
  case (1 v start stop d)
  have "config (vmvector_add opts v start stop d) = config v" by (simp add: vmvector_add_def add_vm_area_def add_scan_config)
  from never_merge_config [OF this] show ?case using 1 vset.inv_add [of v start stop opts d] by simp
next
  case (2 v start stop d)
  then show ?case using vset.addrs_add [of v start stop opts d] by simp
next
  case (3 v start stop)
  have "config (snd (vmvector_remove opts v start stop)) = config v" by (simp add: vmvector_remove_def remove_vm_area_config)
  from never_merge_config [OF this] show ?case using 3 vset.inv_remove [of v start stop opts] by simp
next
  case (4 v start stop)
  then show ?case using vset.addrs_remove [of v start stop opts] by simp
next
  case (5 v start stop)
  then show ?case using vset.removed [of v start stop opts] by simp
next
  case (6 v start stop)
  then show ?case using vset.overlap_iff [of v start stop] by simp
next
  case (7 v pc)
  then show ?case using vmvector_lookup_None by blast
next
  case (8 v start stop d pc)
  then show ?case using vmvector_add_lookup [of v start stop opts d pc] by simp
next
  case (9 v start stop pc)
  then show ?case using vmvector_remove_lookup [of v start stop opts pc] by simp
qed

section \<open>Walking a vector\<close>

text \<open>
  The loop of \<open>flush_vmvector_regions\<close> (\<open>core/fragment.c\<close>), the pattern in which the runtime walks a vector.
  What flushing one region does to the state of the code cache is a parameter.
\<close>

function flush_regions_loop :: "(app_pc \<Rightarrow> app_pc \<Rightarrow> 's \<Rightarrow> 's) \<Rightarrow> 'p vmvector_iterator \<Rightarrow> 's \<Rightarrow> 's" where
  "flush_regions_loop flush_region vmvi s =
     (if vmvector_iterator_hasnext vmvi
      then let r = vmvector_iterator_next vmvi; start = fst (fst r); stop = fst (snd (fst r))
           in flush_regions_loop flush_region (snd r) (flush_region start (stop - start) s)
      else s)"
  by pat_completeness auto
termination
  by (relation "measure (\<lambda>(_, vmvi, _). nat (int (length (buf (vector vmvi))) - (iindex vmvi + 1)))")
    (auto simp: vmvector_iterator_hasnext_def vmvector_iterator_next_def)

declare flush_regions_loop.simps [simp del]

definition flush_vmvector_regions :: "(app_pc \<Rightarrow> app_pc \<Rightarrow> 's \<Rightarrow> 's) \<Rightarrow> 'p vm_area_vector \<Rightarrow> 's \<Rightarrow> 's" where
  "flush_vmvector_regions flush_region toflush s =
     (if vmvector_empty toflush then s else flush_regions_loop flush_region (vmvector_iterator_start toflush) s)"

lemma flush_regions_loop_fold:
  assumes "i \<le> length (buf v)"
  shows "flush_regions_loop flush_region \<lparr>vector = v, iindex = int i - 1\<rparr> s
    = fold (\<lambda>a. flush_region (va_start a) (va_end a - va_start a)) (drop i (buf v)) s"
  using assms
proof (induction "length (buf v) - i" arbitrary: i s)
  case 0
  then show ?case by (subst flush_regions_loop.simps) (simp add: vmvector_iterator_hasnext_def)
next
  case (Suc n)
  then have i: "i < length (buf v)" by simp
  have "flush_regions_loop flush_region \<lparr>vector = v, iindex = int i - 1\<rparr> s
      = flush_regions_loop flush_region \<lparr>vector = v, iindex = int (Suc i) - 1\<rparr>
          (flush_region (va_start (buf v ! i)) (va_end (buf v ! i) - va_start (buf v ! i)) s)"
    using i by (subst flush_regions_loop.simps)
      (simp add: vmvector_iterator_hasnext_def vmvector_iterator_next_def vmvector_iterator_peek_def Let_def)
  then show ?case using Suc.hyps(1) [of "Suc i"] Suc.hyps(2) i by (simp flip: Cons_nth_drop_Suc)
qed

section \<open>Payloads of merged areas\<close>

text \<open>In a vector of areas without flags every overlapping area is merged, whatever \<open>should_merge_func\<close> says.\<close>

lemma add_scan_plain:
  assumes "TEST VECTOR_NEVER_MERGE_ADJACENT (vflags v)" "\<forall>b \<in> set (buf v). vm_flags b = vmf \<and> frag_flags b = ff"
    and "find_overlap (buf v) i start stop os = Some (k, n)"
  shows "add_scan opts v i start stop vmf ff data os = merge_areas v k n start stop data"
  using assms(3)
proof (induction "length (buf v) - i" arbitrary: i os)
  case 0
  then have "length (buf v) \<le> i" by simp
  then show ?case using 0(2) by (subst (asm) find_overlap.simps) (auto simp: add_scan_past finish_add_def)
next
  case (Suc m)
  then have i: "i < length (buf v)" by simp
  then have b: "vm_flags (buf v ! i) = vmf" "frag_flags (buf v ! i) = ff" using assms(2) by auto
  have touch: "touches v start stop vmf ff data (buf v ! i) \<longleftrightarrow> overlaps start stop (buf v ! i)"
    using assms(1) by (auto simp: touches_def overlaps_def)
  have same: "drop_flags vmf (buf v ! i) = buf v ! i" using b by (simp add: drop_flags_def drop_flag_def)
  have m: "m = length (buf v) - Suc i" using Suc.hyps(2) by simp
  show ?case
  proof (cases "overlaps start stop (buf v ! i)")
    case True
    then have "find_overlap (buf v) (Suc i) start stop (if os = None then Some i else os) = Some (k, n)"
      using Suc.prems i by (subst (asm) find_overlap.simps) (simp add: overlaps_def)
    moreover have "add_scan opts v i start stop vmf ff data os
        = add_scan opts v (Suc i) start stop vmf ff data (if os = None then Some i else os)"
      using add_scan_touch(1) [OF i touch [THEN iffD2, OF True] refl refl refl, of opts os] b
      by (simp add: same conflicts_def)
    ultimately show ?thesis using Suc.hyps(1) [OF m] by simp
  next
    case False
    then have n: "\<not> touches v start stop vmf ff data (buf v ! i)" by (simp add: touch)
    have "find_overlap (buf v) i start stop os =
        (if os \<noteq> None then map_option (\<lambda>k. (k, i)) os else if stop \<le> va_start (buf v ! i) then None
         else find_overlap (buf v) (Suc i) start stop None)"
      using False i by (subst find_overlap.simps) (auto simp: overlaps_def)
    then show ?thesis
      using Suc.prems Suc.hyps(1) [OF m, of None] add_scan_apart [OF i n, of opts os]
      by (cases os) (auto simp: finish_add_def split: if_splits)
  qed
qed

lemma absorb_free:
  "free_payload_func v \<Longrightarrow> merge_payload_func v = None \<Longrightarrow>
   fold (\<lambda>j w. absorb k (buf w ! j) w) js v = v\<lparr>freed := freed v @ map (\<lambda>j. client (buf v ! j)) js\<rparr>"
  by (induction js arbitrary: v) (simp_all add: absorb_def)

lemma merge_areas_free:
  assumes "free_payload_func v" "merge_payload_func v = None" "k < n" "n \<le> length (buf v)"
    and b_def: "b = (buf v ! k)\<lparr>va_start := min start (va_start (buf v ! k)), va_end := max stop (va_end (buf v ! (n - 1)))\<rparr>"
  shows "buf (merge_areas v k n start stop data) = take k (buf v) @ b # drop n (buf v)"
    "freed (merge_areas v k n start stop data) = freed v @ map client (take (n - k) (drop k (buf v)))"
proof -
  let ?w = "widen v k n start stop data"
  have bounds: "(if start < x then start else x) = min start x" "(if x < stop then stop else x) = max stop x" for x
    by (auto simp: min_def max_def)
  have w: "buf ?w = (buf v)[k := b]" "freed ?w = freed v @ [client (buf v ! k)]" "free_payload_func ?w" "merge_payload_func ?w = None"
    using assms(1,2) by (simp_all add: widen_def Let_def b_def bounds)
  have slice: "take (n - k) (drop k (buf v)) = buf v ! k # map ((!) (buf v)) [k + 1..<n]"
    using assms(3,4) by (intro nth_equalityI) (auto simp: nth_Cons split: nat.splits)
  have "map (\<lambda>j. client (buf ?w ! j)) [k + 1..<n] = map (\<lambda>j. client (buf v ! j)) [k + 1..<n]" by (auto simp: w(1))
  then show "buf (merge_areas v k n start stop data) = take k (buf v) @ b # drop n (buf v)"
    "freed (merge_areas v k n start stop data) = freed v @ map client (take (n - k) (drop k (buf v)))"
    using assms(3,4) absorb_free [OF w(3,4), of k "[k + 1..<n]"]
    by (simp_all add: merge_areas_def Let_def w(1,2) slice take_Suc_conv_app_nth)
qed

end
