(* ===== verification/Vmvector_Spec.thy ===== *)
theory Vmvector_Spec
  imports Vmvector
begin

text \<open>
  The properties of the vectors of memory areas, over the lemmas and the interpretations of \<open>Vmvector\<close>: the type invariant,
  the refinement of address sets and of maps, the search, walking a vector, and two ways in which adding an area goes wrong.
\<close>

section \<open>Properties\<close>

definition sample_options :: vm_options where
  "sample_options = \<lparr>vmarea_initial_size = 100, vmarea_increment_size = 50, hw_cache_consistency = True\<rparr>"

definition sample_area :: "app_pc \<Rightarrow> app_pc \<Rightarrow> uint \<Rightarrow> nat vm_area" where
  "sample_area start stop fl = \<lparr>va_start = start, va_end = stop, vm_flags = fl, frag_flags = 0, client = 7\<rparr>"

definition sample_vector :: "uint \<Rightarrow> nat vm_area list \<Rightarrow> nat vm_area_vector" where
  "sample_vector fl bs = (vmvector_set_callbacks (vmvector_init_vector fl) True None None None)\<lparr>buf := bs, vsize := 100\<rparr>"

abbreviation vmvector_run :: "vm_options \<Rightarrow> (app_pc, 'p) range_op list \<Rightarrow> 'p vm_area_vector \<Rightarrow> 'p vm_area_vector" where
  "vmvector_run opts \<equiv> fold (range_step (\<lambda>start stop d v. vmvector_add opts v start stop d) (\<lambda>start stop v. vmvector_remove opts v start stop))"

text \<open>
  C6. The type invariant of a vector: after any sequence of the operations that change a vector, with any
  flags and callbacks, starting from a new one, the areas are non-empty, disjoint and sorted, and their number does not
  exceed the allocated size, so that no write is past the end of the array. The callers' part is that added and removed
  ranges are not empty; the options must let the array grow.
\<close>

theorem vmvector_well_formed:
  assumes "sizes_ok opts" "list_all range_ok ops"
  shows "well_formed (fold (vmvector_step opts) ops (vmvector_set_callbacks (vmvector_init_vector fl) free_func split_func should_merge merge_func))"
proof -
  have "well_formed (fold (vmvector_step opts) ops v)" if "well_formed v" for v
    using assms(2) that by (induction ops arbitrary: v) (simp_all add: vmvector_step_well_formed [OF assms(1)])
  moreover have "well_formed (vmvector_set_callbacks (vmvector_init_vector fl) free_func split_func should_merge merge_func)"
    by (simp add: well_formed_def fits_def vmvector_set_callbacks_def vmvector_init_vector_def)
  ultimately show ?thesis by blast
qed

theorem vmvector_well_formed_witness:
  "well_formed (fold (vmvector_step sample_options)
     [Op_add 0x1000 0x3000 (1 :: nat), Op_remove 0x1800 0x2000, Op_add_heap_area 0x2000 0x4000 True False 2, Op_remove_heap_areas]
     (vmvector_set_callbacks (vmvector_init_vector 0) True None None None))"
  by (rule vmvector_well_formed) (simp_all add: sizes_ok_def sample_options_def)

text \<open>
  C7. A vector implements a set of addresses: after any sequence of additions and removals of non-empty
  ranges, \<open>vmvector_overlap\<close> of a range answers whether one of its addresses was added and not removed since, and the result
  of \<open>vmvector_remove\<close> is the same answer. This holds for all flags, callbacks and payloads.
\<close>

theorem vmvector_set_refinement:
  assumes "sorted_areas (buf v)" "list_all nonempty_range ops" "start < stop"
  shows "(vmvector_overlap (vmvector_run opts ops v) start stop \<longleftrightarrow> (\<exists>pc. start \<le> pc \<and> pc < stop \<and> fold (covers pc) ops (pc \<in> pcs (buf v))))
    \<and> fst (vmvector_remove opts (vmvector_run opts ops v) start stop) = vmvector_overlap (vmvector_run opts ops v) start stop"
proof (rule conjI)
  show "vmvector_overlap (vmvector_run opts ops v) start stop \<longleftrightarrow> (\<exists>pc. start \<le> pc \<and> pc < stop \<and> fold (covers pc) ops (pc \<in> pcs (buf v)))"
    by (rule vset.run_overlap [OF assms])
  have "sorted_areas (buf (vmvector_run opts ops v))" by (rule vset.inv_run [OF assms(1,2)])
  then show "fst (vmvector_remove opts (vmvector_run opts ops v) start stop) = vmvector_overlap (vmvector_run opts ops v) start stop"
    by (simp only: vset.removed [OF _ assms(3)] vset.overlap_iff [OF _ assms(3)])
qed

theorem vmvector_set_refinement_witness:
  "(vmvector_overlap (vmvector_run sample_options [Add_Range 0x1000 0x3000 (1 :: nat), Remove_Range 0x1800 0x2000] (vmvector_init_vector 0)) 0x1900 0x2000
    \<longleftrightarrow> (\<exists>pc. 0x1900 \<le> pc \<and> pc < 0x2000
          \<and> fold (covers pc) [Add_Range 0x1000 0x3000 (1 :: nat), Remove_Range 0x1800 0x2000] (pc \<in> pcs (buf (vmvector_init_vector 0 :: nat vm_area_vector)))))
   \<and> fst (vmvector_remove sample_options (vmvector_run sample_options [Add_Range 0x1000 0x3000 (1 :: nat), Remove_Range 0x1800 0x2000] (vmvector_init_vector 0)) 0x1900 0x2000)
    = vmvector_overlap (vmvector_run sample_options [Add_Range 0x1000 0x3000 (1 :: nat), Remove_Range 0x1800 0x2000] (vmvector_init_vector 0)) 0x1900 0x2000"
  by (rule vmvector_set_refinement) (simp_all add: vmvector_init_vector_def)

text \<open>
  C8. A vector with \<open>VECTOR_NEVER_MERGE_ADJACENT\<close> and without a \<open>split_payload_func\<close> implements a map from addresses to
  payloads: after any sequence of removals and of additions of non-empty ranges, each added range being free when it is added,
  \<open>vmvector_lookup\<close> of an address returns the payload of the last addition that covers it, or nothing if none does or a
  removal came later. Areas that are cut or split by a removal keep their payload.
\<close>

theorem vmvector_map_refinement:
  assumes "sorted_areas (buf v)" "never_merge v" "list_all nonempty_range ops" "free_ranges (vmvector_lookup v) ops"
  shows "vmvector_lookup (vmvector_run opts ops v) pc = fold (payload pc) ops (vmvector_lookup v pc)"
  by (rule vmap.run_lookup [OF conjI [OF assms(1,2)] assms(3,4)])

lemma vmvector_lookup_init: "vmvector_lookup (vmvector_init_vector fl) = (\<lambda>pc. None)"
  by (rule ext) (simp add: vmvector_lookup_None vmvector_init_vector_def)

theorem vmvector_map_refinement_witness:
  "vmvector_lookup (vmvector_run sample_options [Add_Range 0x1000 0x3000 (1 :: nat), Add_Range 0x3000 0x4000 2, Remove_Range 0x1800 0x2000]
     (vmvector_init_vector VECTOR_NEVER_MERGE_ADJACENT)) 0x2000 = Some 1"
proof -
  let ?v = "vmvector_init_vector VECTOR_NEVER_MERGE_ADJACENT :: nat vm_area_vector"
  let ?ops = "[Add_Range 0x1000 0x3000 1, Add_Range 0x3000 0x4000 2, Remove_Range 0x1800 0x2000] :: (app_pc, nat) range_op list"
  have "never_merge ?v" "sorted_areas (buf ?v)" by (simp_all add: never_merge_def vmvector_init_vector_def TEST_def)
  moreover have "free_ranges (vmvector_lookup ?v) ?ops" by (simp add: vmvector_lookup_init) (auto simp: not_less)
  ultimately show ?thesis using vmvector_map_refinement [of ?v ?ops, where pc = "0x2000" and opts = sample_options] by (simp add: vmvector_lookup_init)
qed

text \<open>
  C9. The search in a sorted vector ends and finds an area exactly if one overlaps the range, the first of
  them if asked to; otherwise it returns the index of the last area before the range, so that the next area is behind it. An end
  of 0 is the end of the address space. In particular \<open>vmvector_lookup_data\<close> returns bounds and payload of the area with an
  address, for every address.
\<close>

theorem binary_search_correct:
  assumes "sorted_areas (buf v)"
  shows "search_result (buf v) start stop first (binary_search v start stop first)
    \<and> (vmvector_lookup_data v pc = Some (s, e, d) \<longleftrightarrow>
      (\<exists>a \<in> set (buf v). va_start a \<le> pc \<and> pc < va_end a \<and> va_start a = s \<and> va_end a = e \<and> client a = d))"
  using binary_search_spec [OF assms, of start stop first] lookup_addr_iff [OF assms, of pc]
  by (auto simp: vmvector_lookup_data_def area_pcs_def)

theorem binary_search_correct_witness:
  "search_result [sample_area 0x1000 0x2000 0, sample_area 0x3000 0x4000 0] 0x1800 0x3800 True
     (binary_search (sample_vector 0 [sample_area 0x1000 0x2000 0, sample_area 0x3000 0x4000 0]) 0x1800 0x3800 True)
   \<and> vmvector_lookup_data (sample_vector 0 [sample_area 0x1000 0x2000 0, sample_area 0x3000 0x4000 0]) 0x3000 = Some (0x3000, 0x4000, 7)"
proof -
  let ?v = "sample_vector 0 [sample_area 0x1000 0x2000 0, sample_area 0x3000 0x4000 0]"
  have b: "buf ?v = [sample_area 0x1000 0x2000 0, sample_area 0x3000 0x4000 0]" by (simp add: sample_vector_def)
  have "sorted_areas (buf ?v)" unfolding b by (simp add: sorted_areas_Cons sample_area_def)
  from binary_search_correct [OF this, of "0x1800" "0x3800" True "0x3000" "0x3000" "0x4000" 7]
  show ?thesis unfolding b by (simp add: sample_area_def)
qed

text \<open>
  C38. Adding a range that overlaps areas with \<open>vmvector_add\<close>, to a vector with \<open>VECTOR_NEVER_MERGE_ADJACENT\<close>, with a
  \<open>free_payload_func\<close> and no \<open>merge_payload_func\<close>, whose areas all have the flags 0 that \<open>vmvector_add\<close> gives them: all
  overlapping areas become one, whatever the \<open>should_merge_func\<close> is; the payloads of all of them are freed, also that of the
  surviving area, which keeps the freed payload, and the new payload is stored nowhere. So a lookup in the added range returns a
  payload that was freed.
\<close>

theorem overlap_add_frees_survivor:
  assumes "sorted_areas (buf v)" "TEST VECTOR_NEVER_MERGE_ADJACENT (vflags v)"
    and "\<forall>b \<in> set (buf v). vm_flags b = 0 \<and> frag_flags b = 0"
    and "free_payload_func v" "merge_payload_func v = None" "start < stop" "vmvector_overlap v start stop"
  shows "(\<exists>k n. overlap_range (buf v) start stop k n
     \<and> buf (vmvector_add opts v start stop data) = take k (buf v)
        @ (buf v ! k)\<lparr>va_start := min start (va_start (buf v ! k)), va_end := max stop (va_end (buf v ! (n - 1)))\<rparr> # drop n (buf v)
     \<and> freed (vmvector_add opts v start stop data) = freed v @ map client (take (n - k) (drop k (buf v))))
    \<and> (start \<le> pc \<and> pc < stop \<longrightarrow> (\<exists>d. vmvector_lookup (vmvector_add opts v start stop data) pc = Some d
        \<and> d \<in> set (freed (vmvector_add opts v start stop data))))"
proof (rule conjI)
  let ?w = "vmvector_add opts v start stop data"
  have "pcs (buf v) \<inter> {start..<stop} \<noteq> {}" using vmvector_overlap_iff [OF assms(1,6)] assms(7) by simp
  then obtain k n where kn: "find_overlap (buf v) 0 start stop None = Some (k, n)" "overlap_range (buf v) start stop k n"
    using find_overlap_start [OF assms(1,6)] by (auto split: option.splits)
  define b where "b = (buf v ! k)\<lparr>va_start := min start (va_start (buf v ! k)), va_end := max stop (va_end (buf v ! (n - 1)))\<rparr>"
  have l: "k < n" "n \<le> length (buf v)" using kn(2) by (auto simp: overlap_range_def)
  have "?w = merge_areas v k n start stop data"
    unfolding vmvector_add_def add_vm_area_def by (rule add_scan_plain [OF assms(2,3) kn(1)])
  then have w: "buf ?w = take k (buf v) @ b # drop n (buf v)" "freed ?w = freed v @ map client (take (n - k) (drop k (buf v)))"
    using merge_areas_free [OF assms(4,5) l b_def, of data] by simp_all
  then show "\<exists>k n. overlap_range (buf v) start stop k n
     \<and> buf ?w = take k (buf v) @ (buf v ! k)\<lparr>va_start := min start (va_start (buf v ! k)), va_end := max stop (va_end (buf v ! (n - 1)))\<rparr> # drop n (buf v)
     \<and> freed ?w = freed v @ map client (take (n - k) (drop k (buf v)))" using kn(2) unfolding b_def by blast
  have "buf v ! k \<in> set (take (n - k) (drop k (buf v)))" using l by (auto simp: in_set_conv_nth intro!: exI [of _ 0])
  then have "client b \<in> set (freed ?w)" by (simp add: w(2) b_def)
  moreover have "vmvector_lookup ?w pc = Some (client b)" if "start \<le> pc \<and> pc < stop"
    using that vmvector_lookup_iff [of ?w pc "client b"] vset.inv_add [OF assms(1,6), of opts data]
    by (simp add: w(1) b_def area_pcs_def min_le_iff_disj less_max_iff_disj)
  ultimately show "start \<le> pc \<and> pc < stop \<longrightarrow> (\<exists>d. vmvector_lookup ?w pc = Some d \<and> d \<in> set (freed ?w))" by blast
qed

theorem overlap_add_frees_survivor_witness:
  "vmvector_lookup (vmvector_add sample_options (sample_vector VECTOR_NEVER_MERGE_ADJACENT [sample_area 0x1000 0x2000 0]) 0x1800 0x2800 9) 0x1800 = Some 7
   \<and> 7 \<in> set (freed (vmvector_add sample_options (sample_vector VECTOR_NEVER_MERGE_ADJACENT [sample_area 0x1000 0x2000 0]) 0x1800 0x2800 9))"
proof -
  let ?v = "sample_vector VECTOR_NEVER_MERGE_ADJACENT [sample_area 0x1000 0x2000 0]"
  let ?w = "vmvector_add sample_options ?v 0x1800 0x2800 9"
  have v: "buf ?v = [sample_area 0x1000 0x2000 0]" "TEST VECTOR_NEVER_MERGE_ADJACENT (vflags ?v)" "freed ?v = []"
      "free_payload_func ?v" "merge_payload_func ?v = None"
    by (simp_all add: sample_vector_def vmvector_set_callbacks_def vmvector_init_vector_def TEST_def)
  have sorted: "sorted_areas (buf ?v)" unfolding v by (simp add: sorted_areas_Cons sample_area_def)
  have flags: "\<forall>b \<in> set (buf ?v). vm_flags b = 0 \<and> frag_flags b = 0" unfolding v by (simp add: sample_area_def)
  have "0x1800 \<in> pcs (buf ?v) \<inter> {0x1800..<0x2800}" unfolding v by (simp add: area_pcs_def sample_area_def)
  then have "vmvector_overlap ?v 0x1800 0x2800" using vmvector_overlap_iff [OF sorted, of "0x1800" "0x2800"] by auto
  then have w: "\<exists>k n. overlap_range (buf ?v) 0x1800 0x2800 k n
      \<and> freed ?w = freed ?v @ map client (take (n - k) (drop k (buf ?v)))" "\<exists>d. vmvector_lookup ?w 0x1800 = Some d \<and> d \<in> set (freed ?w)"
    using overlap_add_frees_survivor [OF sorted v(2) flags v(4,5), of "0x1800" "0x2800" sample_options 9 "0x1800"] by (simp, blast, simp)
  moreover have "client a = 7" if "a \<in> set (buf ?v)" for a using that unfolding v by (simp add: sample_area_def)
  ultimately have "set (freed ?w) \<subseteq> {7}" by (auto simp: v(3) dest!: in_set_takeD in_set_dropD)
  then show ?thesis using w(2) by auto
qed

text \<open>
  C10. Walking a vector ends and visits every area exactly once, in the order of addresses, with its start and its
  size: \<open>flush_vmvector_regions\<close> flushes precisely the areas of the vector, for every effect a flush has on the state.
\<close>

theorem flush_walks_all:
  "flush_vmvector_regions flush_region v s = fold (\<lambda>a. flush_region (va_start a) (va_end a - va_start a)) (buf v) s"
  using flush_regions_loop_fold [of 0 v flush_region s]
  by (simp add: flush_vmvector_regions_def vmvector_empty_def vmvector_iterator_start_def)






end
