(* ===== verification/Spec2Isabelle.thy ===== *)
theory Spec2Isabelle
  imports Block Vmvector_Spec
begin

text \<open>
  \<^bold>\<open>Verification of Dr.avx: rewriting AVX-512 code to AVX2\<close>

  Dr.avx is a fork of DynamoRIO that runs AVX-512 binaries on processors without AVX-512.
  When DynamoRIO has decoded a basic block that contains AVX-512 instructions
  (\<open>src/core/arch/interp.c\<close>), \<open>exec_rewrite_avx512_bb\<close> (\<open>src/core/arch/rewrite.c\<close>) walks over the
  block and calls, for each such instruction, the rewrite function its opcode selects from
  the table \<open>rewrite_funcs\<close>. A rewrite function builds a chain of ordinary x86/AVX2
  instructions and usually removes the original; the driver inserts the chain into the block.
  The state the processor does not have, the mask registers \<open>k0\<close>-\<open>k7\<close> and the parts of the
  vector registers beyond the low half of \<open>zmm0\<close>-\<open>zmm15\<close>, lives in a spill area in
  thread-local storage (\<open>spill_state_t\<close>, \<open>src/core/arch/arch_exports.h\<close>). A rewrite function that
  needs scratch registers saves them on the stack or in their slots of the spill area.

  \<^bold>\<open>How the development is organised\<close>

  The development has the shape of a compiler correctness proof. \<open>Machine\<close> is the target: a
  function that executes instruction lists of the AVX2 processor, with faults as values.
  \<open>abs_state\<close> (\<open>Rewrite_Base\<close>) reads the AVX-512 state of the application off the state of that
  machine and its spill area. A rewrite function is a function from the original instruction
  to the chain it returns (\<open>rw_result\<close>: whether it removed the original, no chain, a freed
  instruction, or an access to a missing operand). The theorems run the chain on an arbitrary
  machine state and compare the application's state with the reference result of the original
  instruction.

  \<^item> \<open>Avx_Prelude\<close>: bytes, little-endian words, byte stores, results that may fail.
  \<^item> \<open>Regs\<close>: the register enumeration and the register macros of
    \<open>src/core/arch/rewrite_utils.h\<close>.
  \<^item> \<open>Ir\<close>: operands, opcodes, instructions and their constructors (\<open>src/core/ir\<close>), the layout of
    the spill area, and the operand checks of the encoder.
  \<^item> \<open>Machine\<close>: the AVX2 processor. General-purpose registers, flags, stack and memory with
    page faults, 32-byte vector registers, labels and jumps. \<open>exec\<close> is a total function: it
    recurses on the rest of the list, and jumps only go forward.
  \<^item> \<open>Machine_Rules\<close>: execution rules for single instructions and a small program logic for
    sequences bracketed by \<open>push\<close>/\<open>pop\<close> and \<open>pushf\<close>/\<open>popf\<close>.
  \<^item> \<open>Rewrite_Base\<close>: the results of rewrite functions, the application's view, \<open>agree m\<close> (equality
    but for the \<open>m\<close> bytes below the stack pointer) and the reference results of the mask
    instructions.
  \<^item> \<open>Mask_Logic\<close>, \<open>Mask_Shift_Test\<close>, \<open>Mask_Move\<close>: the 51 rewrite functions of the mask instructions
    (\<open>rw_func_k...\<close> in \<open>rewrite.c\<close>), each with every form, and for each group what its chain
    does: exact, exact up to stated bits, no encoding, or a fault.
  \<^item> \<open>Spill\<close>: the choice of scratch registers and the tables of used registers
    (\<open>src/core/arch/rewrite_utils.c\<close>). The locale \<open>spill_slots\<close> states what a range of six spill
    registers provides; it is interpreted for \<open>xmm\<close>, \<open>ymm\<close> and \<open>zmm\<close>.
  \<^item> \<open>Vec_Rules\<close>: reasoning about emitted vector code as assignments to cells (registers and
    halves of slots), in which cells do not overlap, and the plan of a piece of code: which
    spill register holds which half of which operand.
  \<^item> \<open>Vec_Zmm\<close>: the functions \<open>..._zmm_and_zmm_gen\<close> of \<open>vpaddd\<close>, \<open>vpaddq\<close>, \<open>vpsubq\<close>, \<open>vporq\<close>, \<open>vpxorq\<close>,
    \<open>vpsubd\<close> and \<open>vpsubw\<close>; one definition per case of the source. The first five are exact for
    all \<open>32 * 32 * 32\<close> operands.
  \<^item> \<open>Vec_Low\<close>: the functions for three \<open>xmm\<close> or \<open>ymm\<close> registers, exact on the lowest 16 or 32
    bytes for the operands that \<open>avoid_safe\<close>, \<open>fixed_safe\<close> or \<open>xmm_safe\<close> allow, and what they do for
    the others, where a scratch register is an operand or is restored from the wrong place.
  \<^item> \<open>Vec_Arith\<close>: the choice of these functions by register class (\<open>rw_func_vpaddd\<close> and others).
  \<^item> \<open>Vec_Mem\<close>: vector code that also reads or writes application memory, with the alignment
    check of \<open>vmovaps\<close>, and the cells of \<open>Vec_Rules\<close> extended by the two halves of a memory operand.
  \<^item> \<open>Vec_Move\<close>: \<open>vmovaps\<close>, the \<open>zmm\<close> forms of \<open>vmovdqu8\<close> to \<open>vmovdqu64\<close> with those of their \<open>xmm\<close> and \<open>ymm\<close> forms
    that take no mask, and the twelve moves from \<open>vmovups\<close> to \<open>vmovntpd\<close> that read source operand 0, which
    never leave code that can be encoded.
  \<^item> \<open>Instrlist\<close>: instruction lists (\<open>src/core/ir/instrlist.c\<close>) as doubly linked cells on a heap,
    where following a null or freed pointer is an error, and the refinement of their
    operations to operations on sequences (\<open>rep s xs\<close>: the heap \<open>s\<close> holds the list \<open>xs\<close>).
  \<^item> \<open>Driver\<close>: the table, the call of a rewrite function, and \<open>exec_rewrite_avx512_bb\<close>; the
    driver on the heap implements \<open>rewrite_list\<close> on sequences.
  \<^item> \<open>Block\<close>: the locale \<open>rewriting\<close> states what a table of rewrite functions must provide for the
    instructions of a block; in it the whole rewritten block is shown to agree with the
    reference. It is interpreted on the program's table and the instructions whose rewriting
    is exact.

  DynamoRIO keeps what it knows about memory, code regions among it, in sorted vectors of address
  ranges (\<open>src/core/vmareas.c\<close>), which do not depend on the rewriter:

  \<^item> \<open>Vmareas\<close>: the vectors with their flags and callbacks, adding (\<open>add_vm_area\<close>) and removing
    (\<open>remove_vm_area\<close>) a range, the binary search, the \<open>vmvector\<close> interface, its iterator and the routines on heap
    areas; that adding keeps the vector sorted and within its array.
  \<^item> \<open>Vmareas_Search\<close>: the same for removing, and the search.
  \<^item> \<open>Vmvector\<close>: the locales \<open>address_set\<close> and \<open>range_map\<close> state what a set of addresses and a map from
    addresses to payloads provide under sequences of additions and removals; they are interpreted on
    \<open>vmvector_add\<close>, \<open>vmvector_remove\<close>, \<open>vmvector_overlap\<close> and \<open>vmvector_lookup\<close> (\<open>vset\<close>, \<open>vmap\<close>). The second holds for
    vectors that never merge adjacent areas and have no split callback, when added ranges are free.
  \<^item> \<open>Vmvector_Spec\<close>: the properties of the vectors.

  This theory composes the rewriter: \<open>block_correct\<close> goes from the linked block the decoder hands over,
  through the driver, to the state after running what the driver leaves, and
  \<open>kept_original_traps\<close> shows for which instructions that ends in an exception. The blocks of both
  consist of the instructions of \<open>bop\<close> in \<open>Block\<close> whose rewriting is exact; of the instructions
  the rewriter leaves alone they contain two, \<open>mov\<close> of an immediate and \<open>add\<close>, which change no
  memory and not the stack pointer.

  \<^bold>\<open>Partiality and bounds\<close>

  Operations on linked lists return \<open>None\<close> for an access to a cell that is not allocated. The
  loops over lists are \<open>partial_function (option)\<close>, so that not ending is \<open>None\<close> as well; the
  refinement theorems show that the operations on lists return \<open>Some\<close> on every well-formed list, and the
  driver on the blocks all of whose AVX-512 instructions have a translation that is linked in both
  directions. There is no fuel in the development; the loops of \<open>Vmareas\<close> have termination proofs. The mask rewrites need up to 24 bytes of mapped stack
  (\<open>stack_room 24\<close>), which is the largest depth any of them pushes. Words have 64 bits and
  wrap around; the unsigned short of register numbers is written out (\<open>to_ushort\<close>).

  \<^bold>\<open>Assumptions\<close>

  Every rewrite theorem is about the emitted instruction sequence as \<open>Machine\<close> executes it.
  \<open>Machine\<close> follows the documented behaviour of the x86 instructions that are emitted. Undefined
  flag results are an arbitrary bit of the state. EVEX-encoded originals are \<open>OP_AVX512 n\<close> with
  their position in the table and fault on this processor.

  \<^bold>\<open>Not modelled\<close>

  \<^item> The rest of the vector rewrite functions of \<open>rewrite.c\<close>: masked moves, broadcasts, permutations,
    gathers and scatters, comparisons into masks, conversions and scalar floating point. The table has a parameter \<open>vec\<close> for them. Those on
    floating-point values would need a model of IEEE arithmetic; the others follow patterns
    that \<open>Vec_Rules\<close> covers in principle, one function of several hundred lines each.
  \<^item> The decoder that marks AVX-512 instructions, the encoder beyond its operand checks, block
    building and mangling, the code cache, the operating system layers, clients and tools of
    DynamoRIO: they do not take part in the rewriting. A block is a parameter of the
    theorems.
  \<^item> Operands relative to the instruction pointer or at an absolute address: operands are registers,
    immediates, base plus displacement, slots of the spill area and labels. \<open>rw_func_vmovaps\<close> has no translation
    for a load from such an operand and returns a null pointer, like \<open>rw_func_kunpckdq\<close>.
  \<^item> The branches of \<open>vmareas.c\<close> for \<open>executable_areas\<close> and for vectors that own lists of fragments, the
    locks, and the policies on code regions that use the vectors.
  \<^item> Printing and logging, and the parts of \<open>instrlist.c\<close> that clone or encode lists.
\<close>

section \<open>Rewriting and running a block\<close>

lemma encode_op_linked_back: "linked_back (map encode_op ps)"
proof -
  have "\<not> (fst (encode_op p) \<and> next_only (snd (encode_op p)))" for p by (cases p) (simp_all add: next_only_def)
  then show ?thesis by (simp add: linked_back_def list_all_iff split_beta)
qed

text \<open>
  C1. From the block the decoder hands over to the state after running
  what the driver leaves. The block is any sequence of these instructions (\<open>valid_op\<close>): \<open>kxnor\<close> of 8, 16 and
  64 bits, \<open>korq\<close>, \<open>knotq\<close>, \<open>kshiftrb\<close> by 0 to 127; \<open>kmovq\<close> and \<open>kmovb\<close> between mask registers, the latter between
  different ones; \<open>kmovq\<close>, \<open>kmovd\<close> and \<open>kmovb\<close> to a general-purpose register other than \<open>rsp\<close>; \<open>kmovq\<close> from any of
  them, and \<open>kmovb\<close> from any but \<open>r15\<close> and \<open>rsp\<close>; unmasked \<open>vpaddd\<close> and \<open>vpsubq\<close> on any \<open>zmm\<close> registers, \<open>vpsubd\<close>
  on \<open>zmm0\<close> to \<open>zmm15\<close>, and \<open>vmovaps\<close> between \<open>zmm\<close> registers both below or both above 15; and two
  instructions that are left alone, \<open>mov\<close> of an immediate to a 64-bit register and \<open>add\<close> of two of them, with a
  destination other than \<open>rsp\<close>. The vector registers need not be spilled around the block, and
  the 24 bytes below the stack pointer are mapped. Then the driver ends with a well-formed block, and
  running that block on the processor without AVX-512 ends in a state that shows the
  application what the sequence does on a processor with AVX-512, in everything but these 24 bytes
  below the stack pointer, which the emitted code uses.
\<close>

theorem block_correct:
  assumes "rep s xs" "fresh s" "\<not> need_spill_simd (ilist s)"
    and "contents s xs = map encode_op ps" "list_all valid_op ps" "stack_room 24 m"
  shows "\<exists>t ys u. exec_rewrite_avx512_bb (rewrite_funcs vec) l s = Some t \<and> rep t ys \<and> fresh t
     \<and> exec (map snd (contents t ys)) m = Inr u
     \<and> agree 24 (abs_state u) (fold ref_op ps (abs_state m))"
proof -
  obtain out u where "rewrite_list (rewrite_funcs vec) l (map encode_op ps) = Some out"
      "exec (map snd out) m = Inr u" "agree 24 (abs_state u) (fold ref_op ps (abs_state m))"
    using exact_blocks.block [OF assms(5,6)] by blast
  then show ?thesis
    using exec_rewrite_avx512_bb_run [OF assms(1-3), of "rewrite_funcs vec" l out] assms(4) encode_op_linked_back
    by metis
qed

text \<open>The block of \<open>mov rbx, 5\<close> and an AVX-512 instruction.\<close>

definition run_sample :: "instr \<Rightarrow> lstate" where
  "run_sample i = list_sample\<lparr>cells := [1 \<mapsto> (link_sample None (Some 2))\<lparr>body := snd (encode_op (Mov_imm 3 5))\<rparr>,
     2 \<mapsto> (link_sample (Some 1) None)\<lparr>is_avx512_instr := True, body := i\<rparr>]\<rparr>"

lemma run_sample_rep: "rep (run_sample i) [1, 2]" "fresh (run_sample i)" "\<not> need_spill_simd (ilist (run_sample i))"
    "contents (run_sample i) [1, 2] = map encode_op [Mov_imm 3 5] @ [(True, i)]"
  by (auto simp: rep_def fresh_def run_sample_def list_sample_def link_sample_def last_or_def contents_def info_def
      split: if_splits)

theorem block_correct_witness:
  "\<exists>t ys u. exec_rewrite_avx512_bb (rewrite_funcs (\<lambda>_. rw_func_empty)) 0 (run_sample (snd (encode_op (Kxnor 16 1 2 3)))) = Some t
     \<and> rep t ys \<and> exec (map snd (contents t ys)) (sample (\<lambda>_. True) [0, 7, 0xF0, 0xFF, 0, 0, 0, 0]) = Inr u
     \<and> ak (abs_state u) 1 = 0xFFF0 \<and> agpr (abs_state u) 3 = 5"
proof -
  let ?m = "sample (\<lambda>_. True) [0, 7, 0xF0, 0xFF, 0, 0, 0, 0]" and ?ps = "[Mov_imm 3 5, Kxnor 16 1 2 3]"
  have c: "contents (run_sample (snd (encode_op (Kxnor 16 1 2 3)))) [1, 2] = map encode_op ?ps"
    by (simp add: run_sample_rep(4) [simplified])
  have v: "list_all valid_op ?ps" "stack_room 24 ?m" by simp_all
  obtain t ys u where
      "exec_rewrite_avx512_bb (rewrite_funcs (\<lambda>_. rw_func_empty)) 0 (run_sample (snd (encode_op (Kxnor 16 1 2 3)))) = Some t"
      "rep t ys" "exec (map snd (contents t ys)) ?m = Inr u" "agree 24 (abs_state u) (fold ref_op ?ps (abs_state ?m))"
    using block_correct [OF run_sample_rep(1-3) c v] by blast
  then show ?thesis by (intro exI [of _ t] exI [of _ ys] exI [of _ u])
    (simp add: agree_def set_k_def set_r_def ak_sample spec_kxnor_def)
qed

text \<open>
  C32. \<open>kand\<close> and \<open>kandn\<close> of all widths, all shifts but \<open>kshiftrb\<close>, and \<open>kxnord\<close>
  of different sources stay in the block after the chain that replaces them: running the
  rewritten block ends at such an instruction with an undefined-opcode exception.
\<close>

theorem kept_original_traps:
  assumes "rep s xs" "fresh s" "\<not> need_spill_simd (ilist s)"
    and "contents s xs = map encode_op ps @ (True, encode_kept p) # map encode_op qs"
    and "list_all valid_op ps" "valid_kept p" "list_all valid_op qs" "stack_room 24 m"
  shows "\<exists>t ys. exec_rewrite_avx512_bb (rewrite_funcs vec) l s = Some t \<and> rep t ys
     \<and> exec (map snd (contents t ys)) m = Inl UD"
proof -
  obtain g where g: "rewrite_funcs vec (kept_number p - 1) = Some (\<lambda>_. g)" "g (encode_kept p) \<noteq> Rw False []"
    using kept [OF assms(6,8), of vec] unfolding kept_by_def by blast
  have run: "\<exists>js t. g (encode_kept p) = Rw False js \<and> js \<noteq> [] \<and> exec js u = Inr t" if "stack_room 24 u" for u
    using kept [OF assms(6) that, of vec] g unfolding kept_by_def by (auto dest: fun_cong)
  have "kept_number p = kept_number p - 1 + 1" using assms(6) by (cases p) auto
  then obtain out where out: "rewrite_list (rewrite_funcs vec) l (contents s xs) = Some out" "exec (map snd out) m = Inl UD"
    using exact_blocks.block_kept [OF assms(5,7,8) encode_kept_opcode _ g(1) run] unfolding assms(4) by blast
  have "\<not> next_only (encode_kept p)" using assms(6) by (cases p) (auto simp: next_only_def)
  then have "linked_back (contents s xs)"
    using encode_op_linked_back [of ps] encode_op_linked_back [of qs] assms(4) by (simp add: linked_back_def)
  then show ?thesis using exec_rewrite_avx512_bb_run [OF assms(1-3) _ out(1)] out(2) by blast
qed

theorem kept_original_traps_witness:
  "\<exists>t ys. exec_rewrite_avx512_bb (rewrite_funcs (\<lambda>_. rw_func_empty)) 0 (run_sample (encode_kept (Kand 476 1 2 3))) = Some t
     \<and> rep t ys \<and> exec (map snd (contents t ys)) (sample (\<lambda>_. True) [0, 7, 0xF0, 0xFF, 0, 0, 0, 0]) = Inl UD"
  using kept_original_traps [OF run_sample_rep(1-3), of "encode_kept (Kand 476 1 2 3)" "[Mov_imm 3 5]" "Kand 476 1 2 3" "[]"]
  by (simp add: run_sample_rep(4) [simplified])

end
